(* ===== verification/Prelude.thy ===== *)
theory Prelude
  imports Main "HOL-Library.Sublist"
begin

text \<open>
  Shared vocabulary of the development: the names of the model's basic types, the
  collections of facts the component proofs use, and generic lemmas on lists that
  several components need (removing the element at an index, as the browser does when
  one of several pending callbacks runs).
\<close>

section \<open>Types of the model\<close>

text \<open>Times and delays are milliseconds, as in \<open>setTimeout\<close>.\<close>

type_synonym ms = nat

text \<open>JavaScript strings are modelled as HOL strings (lists of 8-bit characters).\<close>

type_synonym js_string = string

type_synonym url = string

section \<open>Fact collections\<close>

named_theorems handler_simps
  "equations of the event handlers, unfolded when a step is evaluated"

named_theorems wf_intros
  "one-step preservation lemmas of the coordinator's well-formedness invariant"

section \<open>Removing the element at an index\<close>

text \<open>
  Pending callbacks (timers, outstanding requests) are lists; the one that runs is
  taken out at its index.
\<close>

definition remove_nth :: "nat \<Rightarrow> 'a list \<Rightarrow> 'a list" where
  "remove_nth i xs = take i xs @ drop (Suc i) xs"

lemma remove_nth_length [simp]:
  "i < length xs \<Longrightarrow> length (remove_nth i xs) = length xs - 1"
  by (simp add: remove_nth_def)

lemma set_remove_nth_subset:
  "set (remove_nth i xs) \<subseteq> set xs"
  by (auto simp: remove_nth_def dest: in_set_takeD in_set_dropD)

lemma remove_nth_in [dest]:
  "x \<in> set (remove_nth i xs) \<Longrightarrow> x \<in> set xs"
  using set_remove_nth_subset by fast

lemma remove_nth_last [simp]:
  "remove_nth (length xs) (xs @ [x]) = xs"
  by (simp add: remove_nth_def)

lemma remove_nth_Cons_0 [simp]:
  "remove_nth 0 (x # xs) = xs"
  by (simp add: remove_nth_def)

lemma remove_nth_single [simp]: "length xs = Suc 0 \<Longrightarrow> remove_nth 0 xs = []"
  by (cases xs) auto

lemma remove_nth_Cons_Suc [simp]:
  "remove_nth (Suc i) (x # xs) = x # remove_nth i xs"
  by (simp add: remove_nth_def)

lemma list_all_remove_nth [intro]:
  "list_all P xs \<Longrightarrow> list_all P (remove_nth i xs)"
  by (auto simp: list_all_iff)

lemma subseq_remove_nth: "subseq (remove_nth i xs) xs"
proof (induction xs arbitrary: i)
  case Nil
  then show ?case by (simp add: remove_nth_def)
next
  case (Cons x xs)
  then show ?case by (cases i) auto
qed

end
