(* ===== verification/JsValue.thy ===== *)
theory JsValue
  imports Prelude
begin

text \<open>
  JavaScript values as the front end receives them from the back end: \<open>axios\<close> parses
  a response body with \<open>JSON.parse\<close>, so \<open>result.data\<close> is a JSON value (or
  \<open>undefined\<close> for a property that is absent). The coordinator reads such a value
  through truthiness (\<open>!data || !data.type\<close>), property access and destructuring
  (\<open>data.type\<close>, \<open>const { type, userInput, response } = data\<close>), strict equality
  with a string literal (\<open>type === 'google-search'\<close>), and the string conversions of
  \<open>encodeURIComponent\<close> and of the \<open>SpeechSynthesisUtterance\<close> constructor. These are
  language semantics, modelled after ECMAScript; numbers are integers here (the
  conversion of a non-integral number is not modelled).
\<close>

section \<open>Values\<close>

datatype js_value =
    JUndefined
  | JNull
  | JBool bool
  | JNum int
  | JStr js_string
  | JArr "js_value list"
  | JObj "(js_string \<times> js_value) list"

text \<open>ToBoolean: \<open>undefined\<close>, \<open>null\<close>, \<open>false\<close>, \<open>0\<close> and \<open>''\<close> are falsy.\<close>

fun truthy :: "js_value \<Rightarrow> bool" where
  "truthy JUndefined = False"
| "truthy JNull = False"
| "truthy (JBool b) = b"
| "truthy (JNum n) = (n \<noteq> 0)"
| "truthy (JStr s) = (s \<noteq> [])"
| "truthy (JArr _) = True"
| "truthy (JObj _) = True"

text \<open>
  Property access \<open>v.p\<close> on a value that is not \<open>null\<close> or \<open>undefined\<close> (every
  access of the source is guarded by the truthiness of \<open>v\<close>). \<open>JSON.parse\<close> keeps
  the last of duplicate keys. A string, number, boolean or array has none of the
  properties the source reads (\<open>type\<close>, \<open>userInput\<close>, \<open>response\<close>).
\<close>

fun get_prop :: "js_value \<Rightarrow> js_string \<Rightarrow> js_value" where
  "get_prop (JObj kvs) p = (case map_of (rev kvs) p of Some v \<Rightarrow> v | None \<Rightarrow> JUndefined)"
| "get_prop _ p = JUndefined"

section \<open>ToString\<close>

definition digit_char :: "nat \<Rightarrow> char" where
  "digit_char d = char_of (48 + d)"

fun nat_str :: "nat \<Rightarrow> js_string" where
  "nat_str n = (if n < 10 then [digit_char n] else nat_str (n div 10) @ [digit_char (n mod 10)])"

definition int_str :: "int \<Rightarrow> js_string" where
  "int_str i = (if i < 0 then CHR ''-'' # nat_str (nat (- i)) else nat_str (nat i))"

fun join_comma :: "js_string list \<Rightarrow> js_string" where
  "join_comma [] = []"
| "join_comma [x] = x"
| "join_comma (x # xs) = x @ CHR '','' # join_comma xs"

text \<open>
  ToString; an array is joined with commas, its \<open>null\<close> and \<open>undefined\<close> elements
  becoming empty (\<open>Array.prototype.join\<close>); a plain object is \<open>[object Object]\<close>.
\<close>

fun to_string :: "js_value \<Rightarrow> js_string" where
  "to_string JUndefined = ''undefined''"
| "to_string JNull = ''null''"
| "to_string (JBool b) = (if b then ''true'' else ''false'')"
| "to_string (JNum n) = int_str n"
| "to_string (JStr s) = s"
| "to_string (JArr xs) =
     join_comma (map (\<lambda>x. if x = JUndefined \<or> x = JNull then [] else to_string x) xs)"
| "to_string (JObj _) = ''[object Object]''"

text \<open>
  ToString throws a \<open>TypeError\<close> for an object \<open>JSON.parse\<close> built with its own
  \<open>toString\<close> key: ToPrimitive finds a \<open>toString\<close> that is not callable (a JSON
  value), skips it, and the inherited \<open>valueOf\<close> returns the object itself, which is
  not primitive. An array throws when one of its elements that \<open>join\<close> converts
  throws. For every other value \<open>to_string\<close> is the result of ToString.
\<close>

datatype js_exception = JsTypeError

fun to_string_throws :: "js_value \<Rightarrow> bool" where
  "to_string_throws (JArr xs) = (\<exists>x \<in> set xs. x \<noteq> JUndefined \<and> x \<noteq> JNull \<and> to_string_throws x)"
| "to_string_throws (JObj kvs) = (''toString'' \<in> set (map fst kvs))"
| "to_string_throws _ = False"

definition js_to_string :: "js_value \<Rightarrow> js_exception + js_string" where
  "js_to_string v = (if to_string_throws v then Inl JsTypeError else Inr (to_string v))"

text \<open>
  The conversion of an optional \<open>DOMString\<close> argument (the text of
  \<open>new SpeechSynthesisUtterance(text)\<close>): \<open>undefined\<close> is an absent argument,
  the empty text; any other value is converted with ToString, which may throw.
\<close>

definition dom_string_arg :: "js_value \<Rightarrow> js_exception + js_string" where
  "dom_string_arg v = (if v = JUndefined then Inr [] else js_to_string v)"

lemma dom_string_arg_ok:
  "\<not> to_string_throws v \<Longrightarrow> dom_string_arg v = Inr (if v = JUndefined then [] else to_string v)"
  by (simp add: dom_string_arg_def js_to_string_def)

lemma dom_string_arg_str [simp]: "dom_string_arg (JStr s) = Inr s"
  by (simp add: dom_string_arg_def js_to_string_def)

end
