(* ===== verification/UserContext.thy ===== *)
theory UserContext
  imports JsValue
begin

text \<open>
  The session provider of \<open>src/src/context/UserContext.jsx\<close>: the user profile it holds
  (\<open>userData\<close>), the fetch of the current user (\<open>handleCurrentUser\<close>) and the call to
  the assistant service (\<open>getGeminiResponse\<close>). Network calls are modelled by their
  outcome, an \<open>http_result\<close>: a response body or a failure (the \<open>catch\<close> branch).
\<close>

section \<open>Data\<close>

text \<open>
  The user document the back end returns (\<open>result.data\<close> of \<open>/api/user/current\<close>)
  as far as the front end reads it: the assistant's name (the wake word), the user's
  name, the persona image and the optional history (\<open>userData.history?.map\<close>).
\<close>

record profile =
  assistantName :: js_string
  name :: js_string
  assistantImage :: js_string
  history :: "js_string list option"

text \<open>
  The assistant's reply (\<open>result.data\<close> of \<open>/api/user/asktoassistant\<close>) is
  whatever JSON the back end sends, a \<open>js_value\<close>. The spec (sections 3 and 6)
  promises an object with three string fields; \<open>intent_json\<close> builds such a reply.
\<close>

definition intent_json :: "js_string \<Rightarrow> js_string \<Rightarrow> js_string \<Rightarrow> js_value" where
  "intent_json t q r = JObj [(''type'', JStr t), (''userInput'', JStr q), (''response'', JStr r)]"

datatype 'a http_result = HttpOk 'a | HttpError

text \<open>The body of the request \<open>getGeminiResponse\<close> posts: \<open>{ command }\<close>.\<close>

record ask_request =
  command :: js_string

section \<open>Operations\<close>

definition serverUrl :: url where
  "serverUrl = ''https://virtual-assistant-backend-sdtd.onrender.com''"

text \<open>\<open>handleCurrentUser\<close>: the fetched user on success, \<open>null\<close> on any error.\<close>

fun handleCurrentUser :: "profile http_result \<Rightarrow> profile option" where
  "handleCurrentUser (HttpOk p) = Some p"
| "handleCurrentUser HttpError = None"

text \<open>
  \<open>getGeminiResponse\<close> is declared with one parameter, \<open>command\<close>; \<open>Home.jsx\<close>
  calls it with three (transcript, assistant name, user name), and JavaScript drops the
  extra two. The request it sends and the value it resolves to:
\<close>

definition getGeminiResponse_request :: "js_string \<Rightarrow> js_string \<Rightarrow> js_string \<Rightarrow> ask_request" where
  "getGeminiResponse_request cmd _ _ = \<lparr>command = cmd\<rparr>"

fun getGeminiResponse_result :: "js_value http_result \<Rightarrow> js_value" where
  "getGeminiResponse_result (HttpOk d) = d"
| "getGeminiResponse_result HttpError = JNull"

text \<open>
  The guard \<open>!data || !data.type\<close> of \<open>Home.jsx\<close> (lines 62 and 123), negated:
  the reply is truthy and so is its \<open>type\<close>.
\<close>

definition reply_ok :: "js_value \<Rightarrow> bool" where
  "reply_ok d \<longleftrightarrow> truthy d \<and> truthy (get_prop d ''type'')"

end
