(* ===== verification/JsString.thy ===== *)
theory JsString
  imports Prelude
begin

text \<open>
  The JavaScript string built-ins the assistant calls: \<open>String.prototype.trim\<close>,
  \<open>toLowerCase\<close>, \<open>startsWith\<close>/\<open>includes\<close> (the wake-word test of
  \<open>Home.jsx\<close>, line 116) and the global \<open>encodeURIComponent\<close> (the search URLs of
  \<open>handleCommand\<close>, lines 67--68). They are library code, not code of the repository,
  and are modelled after their ECMAScript definitions on the ASCII range: a HOL
  \<open>char\<close> is a byte, so a non-ASCII character is the bytes of its UTF-8 encoding,
  which is exactly what \<open>encodeURIComponent\<close> escapes; \<open>trim\<close> and
  \<open>toLowerCase\<close> are modelled on ASCII whitespace and ASCII letters.

  The lemmas show that \<open>includes_js\<close> is the contiguous-sublist relation of
  \<open>HOL-Library.Sublist\<close>, that \<open>toLowerCase\<close> makes the wake-word test
  case-insensitive, and that percent-encoding is lossless (a decoder recovers the
  input) and emits only characters that cannot split a query string.
\<close>

section \<open>Whitespace and trim\<close>

definition is_js_whitespace :: "char \<Rightarrow> bool" where
  "is_js_whitespace c \<longleftrightarrow>
     c \<in> set [CHR '' '', CHR 0x09, CHR 0x0A, CHR 0x0B, CHR 0x0C, CHR 0x0D]"

definition trim :: "js_string \<Rightarrow> js_string" where
  "trim s = rev (dropWhile is_js_whitespace (rev (dropWhile is_js_whitespace s)))"

section \<open>toLowerCase\<close>

definition lower_char :: "char \<Rightarrow> char" where
  "lower_char c =
     (let n = of_char c :: nat in if 65 \<le> n \<and> n \<le> 90 then char_of (n + 32) else c)"

definition toLowerCase :: "js_string \<Rightarrow> js_string" where
  "toLowerCase s = map lower_char s"

section \<open>startsWith and includes\<close>

text \<open>\<open>startsWith s p\<close> is \<open>s.startsWith(p)\<close>; \<open>includes_js s n\<close> is \<open>s.includes(n)\<close>.\<close>

fun startsWith :: "js_string \<Rightarrow> js_string \<Rightarrow> bool" where
  "startsWith s [] = True"
| "startsWith [] (c # cs) = False"
| "startsWith (d # ds) (c # cs) = (d = c \<and> startsWith ds cs)"

fun includes_js :: "js_string \<Rightarrow> js_string \<Rightarrow> bool" where
  "includes_js [] n = (n = [])"
| "includes_js (c # cs) n = (startsWith (c # cs) n \<or> includes_js cs n)"

section \<open>encodeURIComponent\<close>

text \<open>
  The characters \<open>encodeURIComponent\<close> leaves alone: ASCII letters, digits and
  \<open>- _ . ! ~ * ' ( )\<close>. Every other byte becomes \<open>%XX\<close> with upper-case hex digits.
\<close>

definition uri_unreserved :: "char \<Rightarrow> bool" where
  "uri_unreserved c \<longleftrightarrow>
     (let n = of_char c :: nat in
        (65 \<le> n \<and> n \<le> 90) \<or> (97 \<le> n \<and> n \<le> 122) \<or> (48 \<le> n \<and> n \<le> 57)
      \<or> c \<in> set [CHR ''-'', CHR ''_'', CHR ''.'', CHR ''!'', CHR ''~'', CHR ''*'',
                CHR 0x27, CHR ''('', CHR '')''])"

definition hex_digit :: "nat \<Rightarrow> char" where
  "hex_digit n = (if n < 10 then char_of (48 + n) else char_of (55 + n))"

definition encode_char :: "char \<Rightarrow> js_string" where
  "encode_char c =
     (if uri_unreserved c then [c]
      else [CHR ''%'', hex_digit (of_char c div 16), hex_digit (of_char c mod 16)])"

definition encodeURIComponent :: "js_string \<Rightarrow> js_string" where
  "encodeURIComponent s = concat (map encode_char s)"

section \<open>Percent-decoding, the reader of an encoded URL\<close>

text \<open>
  Not code of the repository: the decoder a web server applies to the query string,
  used to state that the encoding loses nothing. A malformed escape is an error.
\<close>

datatype uri_error = URIError

definition hex_value :: "char \<Rightarrow> nat option" where
  "hex_value c =
     (let n = of_char c :: nat in
        if 48 \<le> n \<and> n \<le> 57 then Some (n - 48)
        else if 65 \<le> n \<and> n \<le> 70 then Some (n - 55)
        else if 97 \<le> n \<and> n \<le> 102 then Some (n - 87)
        else None)"

fun percent_decode :: "js_string \<Rightarrow> uri_error + js_string" where
  "percent_decode [] = Inr []"
| "percent_decode (c # cs) =
     (if c = CHR ''%'' then
        (case cs of
           h # l # rest \<Rightarrow>
             (case (hex_value h, hex_value l) of
                (Some a, Some b) \<Rightarrow> map_sum id (Cons (char_of (16 * a + b))) (percent_decode rest)
              | _ \<Rightarrow> Inl URIError)
         | _ \<Rightarrow> Inl URIError)
      else map_sum id (Cons c) (percent_decode cs))"

section \<open>Properties\<close>

subsection \<open>startsWith and includes are prefix and sublist\<close>

lemma startsWith_prefix [simp]: "startsWith s p \<longleftrightarrow> prefix p s"
  by (induction s p rule: startsWith.induct) auto

text \<open>
  \<open>s.includes(n)\<close> holds exactly when \<open>n\<close> occurs in \<open>s\<close> as a contiguous block: the
  wake-word test is a substring test, not a word or token test.
\<close>

lemma includes_js_iff_sublist [simp]: "includes_js s n \<longleftrightarrow> sublist n s"
  by (induction s) (auto simp: sublist_Cons_right)

subsection \<open>toLowerCase is idempotent\<close>

lemma lower_char_idem [simp]: "lower_char (lower_char c) = lower_char c"
  by (auto simp: lower_char_def Let_def)

lemma toLowerCase_idem [simp]: "toLowerCase (toLowerCase s) = toLowerCase s"
  by (simp add: toLowerCase_def)

subsection \<open>Hex digits\<close>

lemma hex_value_hex_digit [simp]: "n < 16 \<Longrightarrow> hex_value (hex_digit n) = Some n"
  by (cases "n < 10") (auto simp: hex_digit_def hex_value_def Let_def)

lemma hex_digit_unreserved [simp]: "n < 16 \<Longrightarrow> uri_unreserved (hex_digit n)"
  by (cases "n < 10") (auto simp: hex_digit_def uri_unreserved_def Let_def)

lemma percent_not_unreserved [simp]: "\<not> uri_unreserved CHR ''%''"
  by (simp add: uri_unreserved_def)

lemma high_nibble_lt [simp]: "of_char c div 16 < (16::nat)"
  using nat_of_char_less_256 [of c] by (simp add: div_less_iff_less_mult)

subsection \<open>Percent-encoding is lossless\<close>

lemma decode_encode_char:
  "percent_decode (encode_char c @ rest) = map_sum id (Cons c) (percent_decode rest)"
proof (cases "uri_unreserved c")
  case True
  then have "c \<noteq> CHR ''%''" by auto
  with True show ?thesis by (simp add: encode_char_def)
next
  case False
  have "16 * (of_char c div 16) + of_char c mod 16 = (of_char c :: nat)" by simp
  with False show ?thesis by (simp add: encode_char_def)
qed

text \<open>Decoding the output of \<open>encodeURIComponent\<close> gives back the input.\<close>

lemma percent_decode_encode [simp]: "percent_decode (encodeURIComponent s) = Inr s"
  by (induction s) (simp_all add: encodeURIComponent_def decode_encode_char)

lemma encode_char_safe:
  "list_all (\<lambda>c. uri_unreserved c \<or> c = CHR ''%'') (encode_char c)"
  by (simp add: encode_char_def)

text \<open>Every character \<open>encodeURIComponent\<close> emits is unreserved or the escape \<open>%\<close>.\<close>

lemma encode_chars_safe [simp]:
  "list_all (\<lambda>c. uri_unreserved c \<or> c = CHR ''%'') (encodeURIComponent s)"
  by (induction s) (simp_all add: encodeURIComponent_def encode_char_safe)

lemma encode_no_delims:
  "list_all (\<lambda>c. c \<noteq> CHR ''#'' \<and> c \<noteq> CHR '' '' \<and> c \<noteq> CHR ''&'') (encodeURIComponent q)"
  using encode_chars_safe [of q] by (auto simp: list_all_iff uri_unreserved_def)

lemma encode_char_length: "1 \<le> length (encode_char c) \<and> length (encode_char c) \<le> 3"
  by (simp add: encode_char_def)

text \<open>The encoding of a string of \<open>n\<close> bytes has between \<open>n\<close> and \<open>3 n\<close> characters.\<close>

lemma encode_length:
  "length s \<le> length (encodeURIComponent s) \<and> length (encodeURIComponent s) \<le> 3 * length s"
proof (induction s)
  case Nil
  then show ?case by (simp add: encodeURIComponent_def)
next
  case (Cons c s)
  with encode_char_length [of c] show ?case by (simp add: encodeURIComponent_def)
qed

end
