(* ===== verification/Dispatcher.thy ===== *)
theory Dispatcher
  imports JsString JsValue
begin

text \<open>
  The intent dispatcher: the URL table of \<open>handleCommand\<close> in \<open>Home.jsx\<close>
  (lines 66--72), which maps a reply's type and input to the page opened in a new
  window, or to the empty string (no navigation). The side effect itself (the
  \<open>window.open\<close> of lines 74--78) is part of the coordinator model in
  \<open>Home\<close>.

  The source runs six independent \<open>if\<close> statements over one variable; the model
  keeps them as six successive rebindings. The reply's fields are JSON values: a test
  \<open>type === 'google-search'\<close> holds only for that string, and
  \<open>encodeURIComponent\<close> first converts its argument with ToString. The lemmas give the table row by row, show
  that every URL produced is one of three fixed HTTPS origins, and that the user's input
  is recovered exactly from the query string of a search URL.
\<close>

section \<open>The URL table\<close>

definition google_search_prefix :: url where
  "google_search_prefix = ''https://www.google.com/search?q=''"

definition youtube_results_prefix :: url where
  "youtube_results_prefix = ''https://www.youtube.com/results?search_query=''"

definition command_url :: "js_value \<Rightarrow> js_value \<Rightarrow> url" where
  "command_url type userInput =
     (let url = [];
          url = (if type = JStr ''google-search''
                 then google_search_prefix @ encodeURIComponent (to_string userInput) else url);
          url = (if type = JStr ''youtube-search'' \<or> type = JStr ''youtube-play''
                 then youtube_results_prefix @ encodeURIComponent (to_string userInput) else url);
          url = (if type = JStr ''calculator-open'' then google_search_prefix @ ''calculator'' else url);
          url = (if type = JStr ''instagram-open'' then ''https://www.instagram.com/'' else url);
          url = (if type = JStr ''facebook-open'' then ''https://www.facebook.com/'' else url);
          url = (if type = JStr ''weather-show'' then google_search_prefix @ ''weather'' else url)
      in url)"

text \<open>
  Lines 67 and 68 convert \<open>userInput\<close> with ToString inside
  \<open>encodeURIComponent\<close> only when the type is one of the search types; that
  conversion throws for the values of \<open>to_string_throws\<close>, and then no URL is built.
  \<open>command_url\<close> is the URL the table builds when it does not throw.
\<close>

definition command_url_throws :: "js_value \<Rightarrow> js_value \<Rightarrow> bool" where
  "command_url_throws type userInput \<longleftrightarrow>
     (type = JStr ''google-search'' \<or> type = JStr ''youtube-search'' \<or> type = JStr ''youtube-play'')
     \<and> to_string_throws userInput"

text \<open>The command types the table navigates for, in the order of the source's tests.\<close>

definition dispatch_types :: "js_string list" where
  "dispatch_types = [''google-search'', ''youtube-search'', ''youtube-play'', ''calculator-open'',
     ''instagram-open'', ''facebook-open'', ''weather-show'']"

section \<open>Properties\<close>

lemma search_url_split:
  "t \<in> {JStr ''google-search'', JStr ''youtube-search'', JStr ''youtube-play''} \<Longrightarrow>
   command_url t q =
     (if t = JStr ''google-search'' then google_search_prefix else youtube_results_prefix)
       @ encodeURIComponent (to_string q)"
  by (auto simp: command_url_def)

text \<open>
  The table, row by row: searches carry the encoded input, both YouTube
  types go to the results page, the four fixed intents go to their fixed pages.
\<close>

theorem command_url_table:
  "command_url (JStr ''google-search'') q = google_search_prefix @ encodeURIComponent (to_string q)
   \<and> command_url (JStr ''youtube-search'') q = youtube_results_prefix @ encodeURIComponent (to_string q)
   \<and> command_url (JStr ''youtube-play'') q = youtube_results_prefix @ encodeURIComponent (to_string q)
   \<and> command_url (JStr ''calculator-open'') q = ''https://www.google.com/search?q=calculator''
   \<and> command_url (JStr ''instagram-open'') q = ''https://www.instagram.com/''
   \<and> command_url (JStr ''facebook-open'') q = ''https://www.facebook.com/''
   \<and> command_url (JStr ''weather-show'') q = ''https://www.google.com/search?q=weather''"
  by (simp add: command_url_def google_search_prefix_def)

text \<open>
  A window is opened exactly for the seven listed type strings; any other
  type (\<open>unknown\<close>, \<open>none\<close>, a misspelling, a different case, or a value that is
  not a string) gives the empty URL and no navigation.
\<close>

theorem command_url_nonempty: "command_url t q \<noteq> [] \<longleftrightarrow> t \<in> JStr ` set dispatch_types"
  by (auto simp: command_url_def dispatch_types_def google_search_prefix_def youtube_results_prefix_def)

text \<open>
  Whatever the reply says, the dispatcher navigates only to a Google search, a YouTube
  results page, or the Instagram or Facebook home page, all over HTTPS: the reply's
  input can never choose the origin.
\<close>

lemma command_url_origin:
  "command_url t q = []
   \<or> prefix ''https://www.google.com/search?q='' (command_url t q)
   \<or> prefix ''https://www.youtube.com/results?search_query='' (command_url t q)
   \<or> command_url t q = ''https://www.instagram.com/''
   \<or> command_url t q = ''https://www.facebook.com/''"
  by (auto simp: command_url_def google_search_prefix_def youtube_results_prefix_def)

lemma unreserved_not_delim:
  "uri_unreserved c \<Longrightarrow> c \<noteq> CHR ''&'' \<and> c \<noteq> CHR ''#'' \<and> c \<noteq> CHR ''%''"
  by (auto simp: uri_unreserved_def)

text \<open>
  Claim C18. For the three search types the URL is a fixed prefix followed by a query
  value that contains no \<open>&\<close> or \<open>#\<close> (so it is the whole parameter) and that
  percent-decodes to exactly the input as a string.
\<close>

theorem search_query_roundtrip:
  assumes "t \<in> {JStr ''google-search'', JStr ''youtube-search'', JStr ''youtube-play''}"
  shows "\<exists>p s. command_url t q = p @ s
     \<and> p \<in> {google_search_prefix, youtube_results_prefix}
     \<and> percent_decode s = Inr (to_string q) \<and> list_all (\<lambda>c. c \<noteq> CHR ''&'' \<and> c \<noteq> CHR ''#'') s"
proof -
  let ?e = "encodeURIComponent (to_string q)"
  have "list_all (\<lambda>c. c \<noteq> CHR ''&'' \<and> c \<noteq> CHR ''#'') ?e"
    using encode_chars_safe [of "to_string q"] by (auto simp: list_all_iff dest: unreserved_not_delim)
  moreover note search_url_split [OF assms, of q]
  ultimately show ?thesis
    by (intro exI [of _ "if t = JStr ''google-search'' then google_search_prefix else youtube_results_prefix"]
          exI [of _ ?e]) simp
qed

theorem search_query_roundtrip_witness:
  "\<exists>p s. command_url (JStr ''youtube-play'') (JStr ''lo-fi & chill #1'') = p @ s
     \<and> p \<in> {google_search_prefix, youtube_results_prefix}
     \<and> percent_decode s = Inr ''lo-fi & chill #1''
     \<and> list_all (\<lambda>c. c \<noteq> CHR ''&'' \<and> c \<noteq> CHR ''#'') s"
  using search_query_roundtrip [of "JStr ''youtube-play''" "JStr ''lo-fi & chill #1''"] by simp

text \<open>
  Different input strings give different search URLs: the dispatcher never
  conflates two queries of the same search type.
\<close>

theorem search_url_injective:
  assumes "t \<in> {JStr ''google-search'', JStr ''youtube-search'', JStr ''youtube-play''}"
    and "command_url t (JStr q1) = command_url t (JStr q2)"
  shows "q1 = q2"
proof -
  from assms have "encodeURIComponent q1 = encodeURIComponent q2" by (simp add: search_url_split)
  then have "percent_decode (encodeURIComponent q1) = percent_decode (encodeURIComponent q2)" by simp
  then show ?thesis by simp
qed

text \<open>
  No URL the dispatcher builds contains a space, a fragment mark \<open>#\<close> or a
  second parameter separator \<open>&\<close>, whatever the reply's input.
\<close>

theorem command_url_well_formed:
  "list_all (\<lambda>c. c \<noteq> CHR ''#'' \<and> c \<noteq> CHR '' '' \<and> c \<noteq> CHR ''&'') (command_url t q)"
  using encode_no_delims [of "to_string q"]
  by (simp add: command_url_def google_search_prefix_def youtube_results_prefix_def Let_def)

text \<open>
  A URL the dispatcher builds is at most 45 characters (the longer prefix)
  plus three per byte of the input's string form.
\<close>

theorem command_url_length: "length (command_url t q) \<le> 45 + 3 * length (to_string q)"
proof -
  have "length (encodeURIComponent (to_string q)) \<le> 3 * length (to_string q)" using encode_length by blast
  then show ?thesis
    by (simp add: command_url_def google_search_prefix_def youtube_results_prefix_def Let_def)
qed

end
