(* ===== verification/Browser.thy ===== *)
theory Browser
  imports Prelude
begin

text \<open>
  The browser capabilities the coordinator drives, modelled from their documented
  behaviour (they are platform code, not code of the repository): the Web Speech
  recognition engine (\<open>SpeechRecognition\<close>: \<open>start\<close>, \<open>stop\<close>, and the
  lifecycle it reports through \<open>onstart\<close>, \<open>onresult\<close>, \<open>onerror\<close>,
  \<open>onend\<close>), and the speech synthesis queue (\<open>speechSynthesis.speak\<close>,
  \<open>cancel\<close>, \<open>getVoices\<close>, and the \<open>onend\<close> callback of an utterance).
\<close>

section \<open>Recognition engine\<close>

text \<open>
  The engine is idle, starting (\<open>start()\<close> accepted, \<open>onstart\<close> not yet fired),
  active, or stopping (after \<open>stop()\<close> or an error; \<open>onend\<close> will follow).
\<close>

datatype rec_status = RecIdle | RecStarting | RecActive | RecStopping

text \<open>
  \<open>start()\<close> on an engine that is not idle throws \<open>InvalidStateError\<close>; the error is
  a value of the model.
\<close>

datatype start_error = InvalidStateError

definition recognition_start :: "rec_status \<Rightarrow> start_error + rec_status" where
  "recognition_start r = (if r = RecIdle then Inr RecStarting else Inl InvalidStateError)"

text \<open>\<open>stop()\<close> asks a running engine to finish; on an idle or stopping engine it does nothing.\<close>

fun recognition_stop :: "rec_status \<Rightarrow> rec_status" where
  "recognition_stop RecStarting = RecStopping"
| "recognition_stop RecActive = RecStopping"
| "recognition_stop r = r"

section \<open>Speech synthesis\<close>

text \<open>
  An utterance: its text, language, the voice chosen (\<open>None\<close>: the default voice),
  and whether an \<open>onend\<close> handler is attached to it.
\<close>

record utterance =
  utt_text :: js_string
  utt_lang :: js_string
  utt_voice :: "js_string option"
  utt_onend :: bool

text \<open>
  \<open>cancel()\<close> empties the queue; every cancelled utterance still reports its end once
  (the spec's Utterance Player contract), so the handlers of the cancelled utterances
  are counted as interrupted-end callbacks still to be delivered.
\<close>

definition cancelled_ends :: "utterance list \<Rightarrow> nat" where
  "cancelled_ends q = length (filter utt_onend q)"

text \<open>\<open>voices.find(v => v.lang === lang)\<close>, voices given by their language tags.\<close>

definition find_voice :: "js_string list \<Rightarrow> js_string \<Rightarrow> js_string option" where
  "find_voice vs lang = find (\<lambda>v. v = lang) vs"

section \<open>Lemmas\<close>

lemma find_voice_iff: "find_voice vs l = (if l \<in> set vs then Some l else None)"
  unfolding find_voice_def by (induction vs) auto

lemma recognition_stop_not_starting [simp]: "recognition_stop r \<noteq> RecStarting"
  by (cases r) auto

lemma recognition_stop_not_idle [simp]: "r \<noteq> RecIdle \<Longrightarrow> recognition_stop r = RecStopping"
  by (cases r) auto

end
