(* ===== verification/Home.thy ===== *)
theory Home
  imports UserContext Dispatcher Browser
begin

text \<open>
  The voice interaction coordinator, \<open>src/src/pages/Home.jsx\<close>. Its state is the
  React state and refs of \<open>Home\<close> together with the browser state its handlers
  touch: the recognition engine, the synthesis queue, the pending \<open>setTimeout\<close>
  callbacks (every one of them is \<open>startRecognition\<close>), the outstanding
  \<open>getGeminiResponse\<close> calls, and logs of the requests sent and windows opened.
  Each handler of the source is one definition over this state; \<open>step\<close> says which
  browser event runs which handler and when the event can happen; \<open>run\<close> runs a
  sequence of events.
\<close>

section \<open>State\<close>

record world =
  listening :: bool                    \<comment> \<open>\<open>useState\<close>, line 13\<close>
  userText :: js_string                \<comment> \<open>line 14\<close>
  aiText :: js_value                   \<comment> \<open>line 15: holds \<open>data.response\<close> as received\<close>
  isSpeakingRef :: bool                \<comment> \<open>line 16\<close>
  recognitionRef :: bool               \<comment> \<open>line 17: \<open>recognitionRef.current\<close> is set\<close>
  ham :: bool                          \<comment> \<open>line 18\<close>
  isRecognizingRef :: bool             \<comment> \<open>line 19\<close>
  isMounted :: bool                    \<comment> \<open>line 90, the effect's closure variable\<close>
  effect_user :: "profile option"      \<comment> \<open>\<open>userData\<close> as captured by the effect\<close>
  userData :: "profile option"         \<comment> \<open>the context's state\<close>
  route :: js_string
  now :: ms
  timers :: "ms list"                  \<comment> \<open>deadlines of pending \<open>startRecognition\<close> timeouts\<close>
  recog :: rec_status
  queue :: "utterance list"
  interrupted :: nat
  voices :: "js_string list"
  popups_allowed :: bool
  pending :: "js_string list"          \<comment> \<open>transcripts whose reply is awaited\<close>
  requests :: "ask_request list"
  opened :: "url list"
  warnings :: "js_string list"

definition init_world :: "profile option \<Rightarrow> js_string list \<Rightarrow> bool \<Rightarrow> world" where
  "init_world u vs pop =
     \<lparr>listening = False, userText = [], aiText = JStr [], isSpeakingRef = False,
      recognitionRef = False, ham = False, isRecognizingRef = False, isMounted = False,
      effect_user = None, userData = u, route = ''/'', now = 0, timers = [],
      recog = RecIdle, queue = [], interrupted = 0, voices = vs, popups_allowed = pop,
      pending = [], requests = [], opened = [], warnings = []\<rparr>"

section \<open>Handlers\<close>

text \<open>\<open>startRecognition\<close>: start only when neither flag is set; a throwing \<open>start()\<close> is swallowed.\<close>

definition startRecognition :: "world \<Rightarrow> world" where
  "startRecognition w =
     (if \<not> isSpeakingRef w \<and> \<not> isRecognizingRef w then
        (if recognitionRef w then
           (case recognition_start (recog w) of
              Inl _ \<Rightarrow> w
            | Inr r \<Rightarrow> w\<lparr>recog := r\<rparr>)
         else w)
      else w)"

text \<open>
  \<open>speak\<close>: build a Hindi utterance, raise the speaking flag, cancel, enqueue. The
  constructor converts its argument first (line 44); when that conversion throws, the
  exception is returned with the state unchanged and nothing of \<open>speak\<close> happens.
  As in Bali, an outcome pairs the abrupt completion, if any, with the state reached.
\<close>

definition make_utterance :: "js_string list \<Rightarrow> js_string \<Rightarrow> utterance" where
  "make_utterance vs text =
     \<lparr>utt_text = text, utt_lang = ''hi-IN'', utt_voice = find_voice vs ''hi-IN'', utt_onend = True\<rparr>"

definition speak :: "js_value \<Rightarrow> world \<Rightarrow> js_exception option \<times> world" where
  "speak text w =
     (case dom_string_arg text of
        Inl e \<Rightarrow> (Some e, w)
      | Inr t \<Rightarrow>
          (let u = make_utterance (voices w) t;
               w = w\<lparr>isSpeakingRef := True\<rparr>;
               w = w\<lparr>interrupted := interrupted w + cancelled_ends (queue w), queue := []\<rparr>
           in (None, w\<lparr>queue := queue w @ [u]\<rparr>)))"

text \<open>The \<open>onend\<close> handler \<open>speak\<close> attaches to its utterance.\<close>

definition utterance_onend :: "world \<Rightarrow> world" where
  "utterance_onend w =
     w\<lparr>aiText := JStr [], isSpeakingRef := False, timers := timers w @ [now w + 800]\<rparr>"

definition popup_warning :: js_string where
  "popup_warning = ''Popup blocked! Allow popups for this site.''"

text \<open>
  \<open>handleCommand\<close>: speak the response, then open the command's URL, if any. A throw
  of \<open>speak\<close> (line 64) or of the conversion of \<open>userInput\<close> (lines 67--68)
  ends it with the state reached so far.
\<close>

definition handleCommand :: "js_value \<Rightarrow> world \<Rightarrow> js_exception option \<times> world" where
  "handleCommand data w =
     (if \<not> reply_ok data then (None, w)
      else
        (let type = get_prop data ''type'';
             userInput = get_prop data ''userInput'';
             response = get_prop data ''response''
         in case speak response w of
              (Some e, w) \<Rightarrow> (Some e, w)
            | (None, w) \<Rightarrow>
                if command_url_throws type userInput then (Some JsTypeError, w)
                else
                  (let url = command_url type userInput
                   in if url \<noteq> [] then
                        (if popups_allowed w then (None, w\<lparr>opened := opened w @ [url]\<rparr>)
                         else (None, w\<lparr>warnings := warnings w @ [popup_warning]\<rparr>))
                      else (None, w))))"

text \<open>The greeting of lines 135--137: no \<open>onend\<close> handler, no voice chosen.\<close>

definition greeting :: "profile \<Rightarrow> utterance" where
  "greeting u =
     \<lparr>utt_text = ''Hello '' @ name u @ '', what can I help you with?'', utt_lang = ''hi-IN'',
      utt_voice = None, utt_onend = False\<rparr>"

text \<open>
  The mount effect (lines 81--92 and 135--137): create the recognizer, mark the
  component mounted, arm the first start after 1000 ms and enqueue the greeting.
\<close>

definition home_effect :: "profile \<Rightarrow> world \<Rightarrow> world" where
  "home_effect u w =
     w\<lparr>recognitionRef := True, isMounted := True, effect_user := Some u,
       timers := timers w @ [now w + 1000], queue := queue w @ [greeting u]\<rparr>"

definition onstart :: "world \<Rightarrow> world" where
  "onstart w = w\<lparr>isRecognizingRef := True, listening := True\<rparr>"

definition onend :: "world \<Rightarrow> world" where
  "onend w =
     (let w = w\<lparr>isRecognizingRef := False, listening := False\<rparr>
      in if isMounted w \<and> \<not> isSpeakingRef w then w\<lparr>timers := timers w @ [now w + 1000]\<rparr> else w)"

definition onerror :: "js_string \<Rightarrow> world \<Rightarrow> world" where
  "onerror err w =
     (let w = w\<lparr>isRecognizingRef := False, listening := False\<rparr>
      in if err \<noteq> ''aborted'' \<and> isMounted w \<and> \<not> isSpeakingRef w
         then w\<lparr>timers := timers w @ [now w + 1000]\<rparr> else w)"

text \<open>The wake-word test of line 116.\<close>

definition wake_match :: "js_string \<Rightarrow> profile \<Rightarrow> bool" where
  "wake_match transcript u \<longleftrightarrow>
     includes_js (toLowerCase transcript) (toLowerCase (assistantName u))"

text \<open>
  \<open>onresult\<close> up to the \<open>await\<close> (lines 114--121): on a wake-word match, echo the
  transcript, stop the recognizer and send the request. The reply is handled by
  \<open>onresult_reply\<close> when it arrives. A \<open>null\<close> profile would throw at line 116.
\<close>

definition onresult :: "js_string \<Rightarrow> world \<Rightarrow> world" where
  "onresult raw w =
     (case effect_user w of
        None \<Rightarrow> w
      | Some u \<Rightarrow>
          (let transcript = trim raw
           in if wake_match transcript u then
                w\<lparr>userText := transcript, recog := recognition_stop (recog w), listening := False,
                  requests := requests w @ [getGeminiResponse_request transcript (assistantName u) (name u)],
                  pending := pending w @ [transcript]\<rparr>
              else w))"

definition sorry_text :: js_string where
  "sorry_text = ''Sorry, I couldn't understand that.''"

text \<open>
  The continuation after the \<open>await\<close> (lines 123--132). When \<open>handleCommand\<close>
  throws, the async handler's promise is rejected and lines 130--131 do not run.
\<close>

definition onresult_reply :: "js_value \<Rightarrow> world \<Rightarrow> world" where
  "onresult_reply data w =
     (if \<not> reply_ok data then w\<lparr>aiText := JStr sorry_text\<rparr>
      else
        (case handleCommand data w of
           (None, w) \<Rightarrow> w\<lparr>aiText := get_prop data ''response'', userText := []\<rparr>
         | (Some _, w) \<Rightarrow> w))"

text \<open>The effect's cleanup (lines 139--144). Pending timers are not cleared.\<close>

definition cleanup :: "world \<Rightarrow> world" where
  "cleanup w =
     w\<lparr>isMounted := False, recog := recognition_stop (recog w), listening := False,
       isRecognizingRef := False\<rparr>"

text \<open>\<open>handleLogOut\<close> (lines 22--31), with the outcome of the logout request.\<close>

definition handleLogOut :: "bool \<Rightarrow> world \<Rightarrow> world" where
  "handleLogOut ok w =
     (if ok then w\<lparr>userData := None, route := ''/signin''\<rparr> else w\<lparr>userData := None\<rparr>)"

text \<open>The menu's \<open>Customize your Assistant\<close> button (line 157): \<open>navigate("/customize")\<close>.\<close>

definition customize :: "world \<Rightarrow> world" where
  "customize w = w\<lparr>route := ''/customize''\<rparr>"

section \<open>Events and steps\<close>

text \<open>
  The events the browser can deliver. Network replies and engine events come in any
  order; a timer can fire only once its deadline has passed. A successful logout
  navigates to \<open>/signin\<close>, which unmounts \<open>Home\<close>, so its step also runs the
  cleanup; a failed one leaves the page mounted. The customize button navigates away
  and unmounts \<open>Home\<close> too.
\<close>

datatype event =
    Mount
  | Unmount
  | Tick ms
  | TimerFire nat
  | RecStart
  | RecResult js_string
  | RecError js_string
  | RecEnd
  | GeminiReply nat "js_value http_result"
  | SynthEnd
  | SynthInterruptedEnd
  | LogOut bool
  | ToggleMenu bool
  | Customize

fun step :: "world \<Rightarrow> event \<Rightarrow> world option" where
  "step w Mount =
     (case userData w of
        None \<Rightarrow> None
      | Some u \<Rightarrow> if recognitionRef w then None else Some (home_effect u w))"
| "step w Unmount = (if isMounted w then Some (cleanup w) else None)"
| "step w (Tick d) = Some (w\<lparr>now := now w + d\<rparr>)"
| "step w (TimerFire i) =
     (if i < length (timers w) \<and> timers w ! i \<le> now w
      then Some (startRecognition (w\<lparr>timers := remove_nth i (timers w)\<rparr>)) else None)"
| "step w RecStart = (if recog w = RecStarting then Some (onstart (w\<lparr>recog := RecActive\<rparr>)) else None)"
| "step w (RecResult raw) =
     (if recog w = RecActive \<or> recog w = RecStopping then Some (onresult raw w) else None)"
| "step w (RecError err) =
     (if recog w \<noteq> RecIdle then Some (onerror err (w\<lparr>recog := RecStopping\<rparr>)) else None)"
| "step w RecEnd = (if recog w \<noteq> RecIdle then Some (onend (w\<lparr>recog := RecIdle\<rparr>)) else None)"
| "step w (GeminiReply i resp) =
     (if i < length (pending w)
      then Some (onresult_reply (getGeminiResponse_result resp) (w\<lparr>pending := remove_nth i (pending w)\<rparr>))
      else None)"
| "step w SynthEnd =
     (case queue w of
        [] \<Rightarrow> None
      | u # us \<Rightarrow> Some (if utt_onend u then utterance_onend (w\<lparr>queue := us\<rparr>) else w\<lparr>queue := us\<rparr>))"
| "step w SynthInterruptedEnd =
     (if 0 < interrupted w then Some (utterance_onend (w\<lparr>interrupted := interrupted w - 1\<rparr>)) else None)"
| "step w (LogOut ok) =
     (if isMounted w then Some (if ok then cleanup (handleLogOut ok w) else handleLogOut ok w) else None)"
| "step w (ToggleMenu b) = (if isMounted w then Some (w\<lparr>ham := b\<rparr>) else None)"
| "step w Customize = (if isMounted w then Some (cleanup (customize w)) else None)"

fun run :: "world \<Rightarrow> event list \<Rightarrow> world option" where
  "run w [] = Some w"
| "run w (e # es) = (case step w e of None \<Rightarrow> None | Some w' \<Rightarrow> run w' es)"

section \<open>Proof support\<close>

declare startRecognition_def [handler_simps] speak_def [handler_simps]
  utterance_onend_def [handler_simps] handleCommand_def [handler_simps]
  home_effect_def [handler_simps] onstart_def [handler_simps] onend_def [handler_simps]
  onerror_def [handler_simps] onresult_def [handler_simps] onresult_reply_def [handler_simps]
  cleanup_def [handler_simps] handleLogOut_def [handler_simps] customize_def [handler_simps]
  recognition_start_def [handler_simps] getGeminiResponse_request_def [handler_simps]
  reply_ok_def [handler_simps] dom_string_arg_def [handler_simps] js_to_string_def [handler_simps]

lemma speak_ok:
  "dom_string_arg t = Inr s \<Longrightarrow> speak t w =
     (None, w\<lparr>isSpeakingRef := True, interrupted := interrupted w + cancelled_ends (queue w),
               queue := [make_utterance (voices w) s]\<rparr>)"
  by (simp add: speak_def)

lemma speak_throws: "dom_string_arg t = Inl e \<Longrightarrow> speak t w = (Some e, w)"
  by (simp add: speak_def)

lemma run_append:
  "run w (es @ fs) = (case run w es of None \<Rightarrow> None | Some w' \<Rightarrow> run w' fs)"
  by (induction es arbitrary: w) (auto split: option.splits)

text \<open>\<open>reaches w es P\<close>: the events \<open>es\<close> can all happen from \<open>w\<close>, and \<open>P\<close> holds at the end.\<close>

definition reaches :: "world \<Rightarrow> event list \<Rightarrow> (world \<Rightarrow> bool) \<Rightarrow> bool" where
  "reaches w es P = (case run w es of None \<Rightarrow> False | Some w' \<Rightarrow> P w')"

lemma reaches_iff: "reaches w es P \<longleftrightarrow> (\<exists>w'. run w es = Some w' \<and> P w')"
  by (simp add: reaches_def split: option.splits)

text \<open>A concrete user and the world in which the recognizer has just started listening.\<close>

definition demo_user :: profile where
  "demo_user = \<lparr>assistantName = ''Max'', name = ''Ketan'', assistantImage = [], history = None\<rparr>"

definition listening_world :: world where
  "listening_world =
     (init_world (Some demo_user) [''hi-IN''] True)\<lparr>recognitionRef := True, isMounted := True,
        effect_user := Some demo_user, now := 1000, recog := RecActive,
        isRecognizingRef := True, listening := True, queue := [greeting demo_user]\<rparr>"

section \<open>The wake-word test\<close>

text \<open>
  The wake-word test of line 116 is a case-insensitive substring test: the
  lower-cased assistant name occurs as a contiguous block in the lower-cased transcript.
\<close>

theorem wake_match_sublist:
  "wake_match t u \<longleftrightarrow> sublist (toLowerCase (assistantName u)) (toLowerCase t)"
  by (simp add: wake_match_def)

text \<open>
  The wake-word test does not depend on letter case: lower-casing the
  transcript or the configured name beforehand changes nothing.
\<close>

theorem wake_match_case_insensitive:
  "wake_match (toLowerCase t) u = wake_match t u
   \<and> wake_match t (u\<lparr>assistantName := toLowerCase (assistantName u)\<rparr>) = wake_match t u"
  by (simp add: wake_match_def)

text \<open>
  An empty assistant name matches every transcript: with no wake word
  configured, every final result is sent to the assistant service.
\<close>

theorem empty_wake_word_matches:
  assumes "assistantName u = []"
  shows "wake_match t u"
  using assms by (simp add: wake_match_def toLowerCase_def)

theorem empty_wake_word_matches_witness:
  "wake_match ''anything at all'' (demo_user\<lparr>assistantName := []\<rparr>)"
  by (rule empty_wake_word_matches) simp

section \<open>Handling a recognition result\<close>

text \<open>
  Claim C8. A final transcript that does not contain the wake word changes nothing:
  no request is sent, the recognizer keeps running, nothing is displayed.
\<close>

theorem onresult_no_wake:
  assumes "effect_user w = Some u" and "\<not> wake_match (trim raw) u"
    and "recog w = RecActive \<or> recog w = RecStopping"
  shows "step w (RecResult raw) = Some w"
  using assms by (auto simp: onresult_def)

theorem onresult_no_wake_witness:
  "step listening_world (RecResult ''  what time is it '') = Some listening_world"
proof (rule onresult_no_wake)
  show "effect_user listening_world = Some demo_user" by (simp add: listening_world_def)
  show "\<not> wake_match (trim ''  what time is it '') demo_user" by code_simp
  show "recog listening_world = RecActive \<or> recog listening_world = RecStopping"
    by (simp add: listening_world_def)
qed

text \<open>
  Claim C7. A final transcript that contains the wake word stops the recognizer before
  anything else happens to it, echoes the trimmed transcript, and issues exactly one
  request whose body is that transcript; nothing is spoken or opened yet.
\<close>

theorem onresult_wake:
  assumes "effect_user w = Some u" and "wake_match (trim raw) u"
    and "recog w = RecActive" and "step w (RecResult raw) = Some w'"
  shows "recog w' = RecStopping \<and> requests w' = requests w @ [\<lparr>command = trim raw\<rparr>]
    \<and> pending w' = pending w @ [trim raw] \<and> userText w' = trim raw \<and> \<not> listening w'
    \<and> queue w' = queue w \<and> isSpeakingRef w' = isSpeakingRef w \<and> opened w' = opened w
    \<and> timers w' = timers w"
  using assms by (auto simp: handler_simps Let_def)

theorem onresult_wake_witness:
  "recog (the (step listening_world (RecResult '' tell me the weather, MAX ''))) = RecStopping
   \<and> requests (the (step listening_world (RecResult '' tell me the weather, MAX ''))) =
       [\<lparr>command = ''tell me the weather, MAX''\<rparr>]"
proof -
  let ?raw = "'' tell me the weather, MAX ''"
  have m: "wake_match (trim ?raw) demo_user" by code_simp
  have u: "effect_user listening_world = Some demo_user" by (simp add: listening_world_def)
  have r: "recog listening_world = RecActive" by (simp add: listening_world_def)
  obtain w' where s: "step listening_world (RecResult ?raw) = Some w'" using r by simp
  have "trim ?raw = ''tell me the weather, MAX''" by code_simp
  with onresult_wake [OF u m r s] s show ?thesis by (simp add: listening_world_def init_world_def)
qed

section \<open>Handling the reply\<close>

text \<open>
  Claim C21. A reply that is absent (failed request or \<open>null\<close> body) or has no type
  sets the apology text and nothing else: nothing is spoken, no window is opened, the
  recognizer and the restart timers are untouched, and the transcript echo stays.
\<close>

theorem reply_malformed:
  assumes "i < length (pending w)" and "\<not> reply_ok (getGeminiResponse_result resp)"
    and "step w (GeminiReply i resp) = Some w'"
  shows "aiText w' = JStr sorry_text \<and> userText w' = userText w \<and> queue w' = queue w
    \<and> isSpeakingRef w' = isSpeakingRef w \<and> opened w' = opened w \<and> recog w' = recog w
    \<and> timers w' = timers w \<and> pending w' = remove_nth i (pending w)"
  using assms by (auto simp: onresult_reply_def)

definition awaiting_world :: world where
  "awaiting_world =
     listening_world\<lparr>recog := RecStopping, listening := False, userText := ''hey Max'',
       pending := [''hey Max''], requests := [\<lparr>command = ''hey Max''\<rparr>]\<rparr>"

theorem reply_malformed_witness:
  "aiText (the (step awaiting_world (GeminiReply 0 HttpError))) = JStr sorry_text
   \<and> userText (the (step awaiting_world (GeminiReply 0 HttpError))) = ''hey Max''"
proof -
  have i: "0 < length (pending awaiting_world)" by (simp add: awaiting_world_def)
  have r: "\<not> reply_ok (getGeminiResponse_result (HttpError :: js_value http_result))"
    by (simp add: reply_ok_def)
  obtain w' where s: "step awaiting_world (GeminiReply 0 HttpError) = Some w'"
    using i by simp
  from reply_malformed [OF i r s] s show ?thesis by (simp add: awaiting_world_def)
qed

text \<open>
  Claim C25. When the browser blocks the popup, a well-formed reply with a navigation
  target whose response and input convert to strings is still spoken, no window is
  recorded as opened, and the popup warning is logged.
\<close>

theorem popup_blocked:
  assumes "reply_ok d" and "command_url (get_prop d ''type'') (get_prop d ''userInput'') \<noteq> []"
    and "\<not> popups_allowed w" and "dom_string_arg (get_prop d ''response'') = Inr t"
    and "\<not> command_url_throws (get_prop d ''type'') (get_prop d ''userInput'')"
  shows "fst (handleCommand d w) = None \<and> opened (snd (handleCommand d w)) = opened w
    \<and> warnings (snd (handleCommand d w)) = warnings w @ [popup_warning]
    \<and> queue (snd (handleCommand d w)) = [make_utterance (voices w) t]"
  using assms by (simp add: handleCommand_def speak_def Let_def)

theorem popup_blocked_witness:
  "warnings (snd (handleCommand (intent_json ''instagram-open'' [] ''ok'')
      (listening_world\<lparr>popups_allowed := False\<rparr>))) = [popup_warning]"
proof -
  let ?d = "intent_json ''instagram-open'' [] ''ok''"
  have t: "reply_ok ?d" by (simp add: reply_ok_def intent_json_def)
  have u: "command_url (get_prop ?d ''type'') (get_prop ?d ''userInput'') \<noteq> []"
    by (simp add: intent_json_def command_url_def)
  have p: "\<not> popups_allowed (listening_world\<lparr>popups_allowed := False\<rparr>)" by simp
  have r: "dom_string_arg (get_prop ?d ''response'') = Inr ''ok''" by (simp add: intent_json_def)
  have c: "\<not> command_url_throws (get_prop ?d ''type'') (get_prop ?d ''userInput'')"
    by (simp add: intent_json_def command_url_throws_def)
  from popup_blocked [OF t u p r c] show ?thesis by (simp add: listening_world_def init_world_def)
qed

section \<open>Recognizer faults\<close>

text \<open>
  Claim C22. An error other than \<open>aborted\<close>, while the component is mounted and not
  speaking, schedules exactly one restart 1000 ms from now and shows nothing to the user.
\<close>

theorem onerror_restart:
  assumes "recog w \<noteq> RecIdle" and "isMounted w" and "\<not> isSpeakingRef w"
    and "err \<noteq> ''aborted''" and "step w (RecError err) = Some w'"
  shows "timers w' = timers w @ [now w + 1000] \<and> recog w' = RecStopping \<and> \<not> listening w'
    \<and> aiText w' = aiText w \<and> userText w' = userText w"
  using assms by (auto simp: onerror_def)

theorem onerror_restart_witness:
  "timers (the (step listening_world (RecError ''network''))) = [2000]"
proof -
  have a: "recog listening_world \<noteq> RecIdle" "isMounted listening_world"
    "\<not> isSpeakingRef listening_world" by (simp_all add: listening_world_def init_world_def)
  have e: "''network'' \<noteq> ''aborted''" by simp
  obtain w' where s: "step listening_world (RecError ''network'') = Some w'"
    using a(1) by simp
  from onerror_restart [OF a e s] s show ?thesis by (simp add: listening_world_def init_world_def)
qed

text \<open>
  Claim C23. An \<open>aborted\<close> error schedules no restart from the error handler; the
  recognizer is marked stopped and not recognizing.
\<close>

theorem onerror_aborted:
  assumes "recog w \<noteq> RecIdle" and "step w (RecError ''aborted'') = Some w'"
  shows "timers w' = timers w \<and> recog w' = RecStopping \<and> \<not> isRecognizingRef w'"
  using assms by (auto simp: onerror_def)

theorem onerror_aborted_witness:
  "timers (the (step listening_world (RecError ''aborted''))) = []"
proof -
  have a: "recog listening_world \<noteq> RecIdle" by (simp add: listening_world_def)
  obtain w' where s: "step listening_world (RecError ''aborted'') = Some w'" using a by simp
  from onerror_aborted [OF a s] s show ?thesis by (simp add: listening_world_def init_world_def)
qed

text \<open>
  An end event while the assistant is speaking schedules no restart: the
  end of the utterance owns the next start.
\<close>

theorem onend_while_speaking:
  assumes "isSpeakingRef w" and "step w RecEnd = Some w'"
  shows "timers w' = timers w \<and> recog w' = RecIdle \<and> \<not> isRecognizingRef w'"
  using assms by (auto simp: onend_def split: if_splits)

section \<open>Speaking\<close>

text \<open>
  Claim C24. When an utterance spoken by \<open>speak\<close> finishes, the reply text is
  cleared, the speaking flag drops, and a restart is scheduled 800 ms later.
\<close>

theorem utterance_end_restart:
  assumes "queue w = u # us" and "utt_onend u" and "step w SynthEnd = Some w'"
  shows "aiText w' = JStr [] \<and> \<not> isSpeakingRef w' \<and> timers w' = timers w @ [now w + 800]
    \<and> queue w' = us"
  using assms by (auto simp: utterance_onend_def)

theorem utterance_end_restart_witness:
  "timers (the (step (snd (speak (JStr ''hi'') listening_world)) SynthEnd)) = [1800]"
proof -
  let ?w = "snd (speak (JStr ''hi'') listening_world)"
  let ?u = "make_utterance (voices listening_world) ''hi''"
  have q: "queue ?w = ?u # []" by (simp add: speak_def Let_def)
  have o: "utt_onend ?u" by (simp add: make_utterance_def)
  obtain w' where s: "step ?w SynthEnd = Some w'" using q by simp
  have n: "now ?w = 1000" "timers ?w = []"
    by (simp_all add: speak_def Let_def listening_world_def init_world_def)
  from utterance_end_restart [OF q o s] s n show ?thesis by simp
qed

end
