(* ===== verification/Invariants.thy ===== *)
theory Invariants
  imports Home
begin

text \<open>
  Reachable states of the coordinator and what holds in all of them. A state is
  reachable when some sequence of browser events leads to it from the initial state of
  a page load (any fetched user, any set of voices, popups allowed or not). The
  invariant is split into four parts, each preserved by every step on its own:
  the recognition flags agree with the engine, the speaking flag implies a reply
  utterance is queued, nothing happens before the mount effect, and every pending
  restart is due within 1000 ms. From it follow the start guard, the timer bound and
  the recovery of capture after an unrequested end.
\<close>

section \<open>Reachable states\<close>

inductive reachable :: "world \<Rightarrow> bool" where
  init: "reachable (init_world u vs pop)"
| step: "reachable w \<Longrightarrow> step w e = Some w' \<Longrightarrow> reachable w'"

lemma run_reachable: "reachable w \<Longrightarrow> run w es = Some w' \<Longrightarrow> reachable w'"
proof (induction es arbitrary: w)
  case Nil
  then show ?case by simp
next
  case (Cons e es)
  then obtain w1 where s: "step w e = Some w1" and r: "run w1 es = Some w'"
    by (auto split: option.splits)
  from Cons.prems(1) s have "reachable w1" by (rule reachable.step)
  from this r show ?case by (rule Cons.IH)
qed

lemma init_run_reachable: "run (init_world u vs pop) es = Some w' \<Longrightarrow> reachable w'"
  by (rule run_reachable [OF reachable.init])

section \<open>The invariant\<close>

definition wf_recognition :: "world \<Rightarrow> bool" where
  "wf_recognition w \<longleftrightarrow>
     (isRecognizingRef w \<longrightarrow> recog w = RecActive \<or> recog w = RecStopping)
     \<and> (listening w \<longrightarrow> isRecognizingRef w)"

definition wf_speaking :: "world \<Rightarrow> bool" where
  "wf_speaking w \<longleftrightarrow> (isSpeakingRef w \<longrightarrow> list_ex utt_onend (queue w))"

definition wf_mount :: "world \<Rightarrow> bool" where
  "wf_mount w \<longleftrightarrow>
     (isMounted w \<longrightarrow> recognitionRef w) \<and> (recognitionRef w \<longleftrightarrow> effect_user w \<noteq> None)
     \<and> (\<not> recognitionRef w \<longrightarrow> recog w = RecIdle \<and> timers w = [] \<and> pending w = []
          \<and> queue w = [] \<and> interrupted w = 0 \<and> \<not> isSpeakingRef w)"

definition wf_timers :: "world \<Rightarrow> bool" where
  "wf_timers w \<longleftrightarrow> list_all (\<lambda>d. d \<le> now w + 1000) (timers w)"

definition wf :: "world \<Rightarrow> bool" where
  "wf w \<longleftrightarrow> wf_recognition w \<and> wf_speaking w \<and> wf_mount w \<and> wf_timers w"

lemmas wf_defs = wf_def wf_recognition_def wf_speaking_def wf_mount_def wf_timers_def

lemma make_utterance_onend [simp]: "utt_onend (make_utterance vs t)"
  by (simp add: make_utterance_def)

lemma greeting_no_onend [simp]: "\<not> utt_onend (greeting u)"
  by (simp add: greeting_def)

subsection \<open>Each part is preserved by every step\<close>

lemma step_wf_recognition [wf_intros]:
  "step w e = Some w' \<Longrightarrow> wf_recognition w \<Longrightarrow> wf_recognition w'"
  by (cases e) (auto simp: wf_recognition_def handler_simps Let_def
      split: option.splits if_splits list.splits sum.splits)

lemma step_wf_speaking [wf_intros]:
  "step w e = Some w' \<Longrightarrow> wf_speaking w \<Longrightarrow> wf_speaking w'"
  by (cases e) (auto simp: wf_speaking_def handler_simps Let_def
      split: option.splits if_splits list.splits sum.splits)

lemma step_keeps_ref:
  "step w e = Some w' \<Longrightarrow> e \<noteq> Mount \<Longrightarrow>
     recognitionRef w' = recognitionRef w \<and> effect_user w' = effect_user w
     \<and> (isMounted w' \<longrightarrow> isMounted w)"
  by (cases e) (auto simp: handler_simps Let_def split: option.splits if_splits list.splits sum.splits)

lemma step_before_mount:
  assumes "step w e = Some w'" and "\<not> recognitionRef w" and "wf_mount w"
  shows "(\<exists>u. e = Mount \<and> w' = home_effect u w) \<or> (\<exists>d. e = Tick d \<and> w' = w\<lparr>now := now w + d\<rparr>)"
  using assms by (cases e) (auto simp: wf_mount_def split: option.splits if_splits list.splits)

lemma step_wf_mount [wf_intros]:
  assumes s: "step w e = Some w'" and m: "wf_mount w"
  shows "wf_mount w'"
proof (cases "e = Mount")
  case True
  with s show ?thesis by (auto simp: wf_mount_def home_effect_def split: option.splits if_splits)
next
  case False
  note k = step_keeps_ref [OF s False]
  show ?thesis
  proof (cases "recognitionRef w")
    case True
    with k m show ?thesis by (auto simp: wf_mount_def)
  next
    case nr: False
    from step_before_mount [OF s nr m] False obtain d where "w' = w\<lparr>now := now w + d\<rparr>" by blast
    with m nr show ?thesis by (simp add: wf_mount_def)
  qed
qed

lemma step_wf_timers [wf_intros]:
  "step w e = Some w' \<Longrightarrow> wf_timers w \<Longrightarrow> wf_timers w'"
  by (cases e) (auto 4 3 simp: wf_timers_def handler_simps Let_def list_all_iff
      split: option.splits if_splits list.splits sum.splits dest!: remove_nth_in)

lemma step_wf: "step w e = Some w' \<Longrightarrow> wf w \<Longrightarrow> wf w'"
  unfolding wf_def by (blast intro: wf_intros)

lemma init_wf: "wf (init_world u vs pop)"
  by (simp add: wf_defs init_world_def)

lemma reachable_wf: "reachable w \<Longrightarrow> wf w"
proof (induction rule: reachable.induct)
  case (init u vs pop)
  show ?case by (rule init_wf)
next
  case (step w e w')
  from step.hyps(2) step.IH show ?case by (rule step_wf)
qed

lemma reachable_mounted_ref: "reachable w \<Longrightarrow> isMounted w \<Longrightarrow> recognitionRef w"
  by (auto dest!: reachable_wf simp: wf_def wf_mount_def)

subsection \<open>A reachable listening state\<close>

lemma run_to_listening:
  "run (init_world (Some demo_user) [''hi-IN''] True) [Mount, Tick 1000, TimerFire 0, RecStart]
   = Some listening_world"
  by code_simp

lemma listening_world_reachable: "reachable listening_world"
  by (rule init_run_reachable [OF run_to_listening])

section \<open>Properties of all reachable states\<close>

text \<open>
  Claim C5. In every reachable state: the listening indicator is on only while the
  recognizer runs; the speaking flag is set only while an utterance with the
  coordinator's end handler is queued; and before the mount effect has run nothing is
  running, scheduled, queued or awaited.
\<close>

theorem reachable_invariant:
  assumes "reachable w"
  shows "(listening w \<longrightarrow> recog w = RecActive \<or> recog w = RecStopping)
    \<and> (isSpeakingRef w \<longrightarrow> list_ex utt_onend (queue w))
    \<and> (isMounted w \<longrightarrow> recognitionRef w)
    \<and> (\<not> recognitionRef w \<longrightarrow> recog w = RecIdle \<and> timers w = [] \<and> pending w = [] \<and> queue w = [])"
  using reachable_wf [OF assms] by (auto simp: wf_defs)

theorem reachable_invariant_witness:
  "listening listening_world \<and> recog listening_world = RecActive"
proof -
  have "listening listening_world \<longrightarrow> recog listening_world = RecActive \<or> recog listening_world = RecStopping"
    using reachable_invariant [OF listening_world_reachable] by blast
  then show ?thesis by (simp add: listening_world_def)
qed

text \<open>
  Claim C6. The recognizer is started only by a timer callback running
  \<open>startRecognition\<close>, and only from an idle engine while neither the speaking nor the
  recognizing flag is set; no other handler starts it.
\<close>

theorem start_guard:
  assumes "step w e = Some w'" and "recog w \<noteq> RecStarting" and "recog w' = RecStarting"
  shows "(\<exists>i. e = TimerFire i) \<and> recog w = RecIdle \<and> \<not> isSpeakingRef w
    \<and> \<not> isRecognizingRef w \<and> recognitionRef w"
  using assms by (cases e) (auto simp: handler_simps Let_def
      split: option.splits if_splits list.splits sum.splits)

theorem start_guard_witness:
  "recog (the (step (listening_world\<lparr>recog := RecIdle, isRecognizingRef := False,
      timers := [1000]\<rparr>) (TimerFire 0))) = RecStarting"
proof -
  let ?w = "listening_world\<lparr>recog := RecIdle, isRecognizingRef := False, timers := [1000]\<rparr>"
  obtain w' where s: "step ?w (TimerFire 0) = Some w'" by (simp add: listening_world_def)
  have a: "recog ?w \<noteq> RecStarting" by simp
  have b: "recog w' = RecStarting"
    using s by (auto simp: listening_world_def init_world_def handler_simps)
  from start_guard [OF s a b] s b show ?thesis by simp
qed

text \<open>
  Claim C17. In every reachable state every pending restart is due at most 1000 ms
  after the current time.
\<close>

theorem timer_deadline_bound:
  assumes "reachable w"
  shows "list_all (\<lambda>d. d \<le> now w + 1000) (timers w)"
  using reachable_wf [OF assms] by (simp add: wf_def wf_timers_def)

theorem timer_deadline_bound_witness:
  "list_all (\<lambda>d. d \<le> now listening_world + 1000) (timers listening_world)"
  by (rule timer_deadline_bound [OF listening_world_reachable])

text \<open>
  Capture recovers by itself after one unrequested end: when the recognizer ends without being asked
  to (silence, network, engine fault) while the page is mounted and not speaking, then
  after the 1000 ms delay the restart timer fires and the recognizer is starting again.
\<close>

theorem recovery_after_end:
  assumes "reachable w" and "isMounted w" and "\<not> isSpeakingRef w" and "recog w \<noteq> RecIdle"
  shows "\<exists>w'. run w [RecEnd, Tick 1000, TimerFire (length (timers w))] = Some w'
    \<and> recog w' = RecStarting"
proof -
  from assms(1,2) have "recognitionRef w" by (rule reachable_mounted_ref)
  with assms(2-4) show ?thesis
    by (simp add: onend_def startRecognition_def recognition_start_def Let_def nth_append)
qed

theorem recovery_after_end_witness:
  "\<exists>w'. run listening_world [RecEnd, Tick 1000, TimerFire 0] = Some w' \<and> recog w' = RecStarting"
proof -
  have a: "isMounted listening_world" "\<not> isSpeakingRef listening_world"
    "recog listening_world \<noteq> RecIdle" "length (timers listening_world) = 0"
    by (simp_all add: listening_world_def init_world_def)
  from recovery_after_end [OF listening_world_reachable a(1-3)] a(4) show ?thesis by simp
qed

section \<open>Requests and opened windows\<close>

text \<open>
  Two more invariants, each with its own preservation proof: the awaited transcripts
  are, in order, among the commands sent, and every request sent contains the wake
  word of the profile the effect captured; every window opened has one of the
  dispatcher's four origins.
\<close>

definition wf_requests :: "world \<Rightarrow> bool" where
  "wf_requests w \<longleftrightarrow>
     subseq (pending w) (map command (requests w))
     \<and> (case effect_user w of
          None \<Rightarrow> requests w = []
        | Some u \<Rightarrow> list_all (\<lambda>r. wake_match (command r) u) (requests w))"

definition url_allowed :: "url \<Rightarrow> bool" where
  "url_allowed u \<longleftrightarrow>
     prefix ''https://www.google.com/search?q='' u
     \<or> prefix ''https://www.youtube.com/results?search_query='' u
     \<or> u = ''https://www.instagram.com/'' \<or> u = ''https://www.facebook.com/''"

definition wf_opened :: "world \<Rightarrow> bool" where
  "wf_opened w \<longleftrightarrow> list_all url_allowed (opened w)"

lemma step_wf_requests:
  assumes "step w e = Some w'" and "wf_requests w" and "wf_mount w"
  shows "wf_requests w'"
  using assms
  by (cases e) (auto simp: wf_requests_def wf_mount_def handler_simps Let_def
      intro: subseq_order.trans [OF subseq_remove_nth]
      split: option.splits if_splits list.splits sum.splits)

lemma step_frame_opened:
  "step w e = Some w' \<Longrightarrow> \<forall>i r. e \<noteq> GeminiReply i r \<Longrightarrow> opened w' = opened w"
  by (cases e) (auto simp: handler_simps Let_def split: option.splits if_splits list.splits sum.splits)

lemma handleCommand_opened:
  "opened (snd (handleCommand d w)) = opened w
   \<or> (\<exists>t q. command_url t q \<noteq> [] \<and> opened (snd (handleCommand d w)) = opened w @ [command_url t q])"
  by (auto simp: handleCommand_def speak_def Let_def split: option.splits sum.splits)

lemma onresult_reply_opened:
  "opened (onresult_reply d w) = opened w
   \<or> (\<exists>t q. command_url t q \<noteq> [] \<and> opened (onresult_reply d w) = opened w @ [command_url t q])"
proof (cases "reply_ok d")
  case True
  then have "opened (onresult_reply d w) = opened (snd (handleCommand d w))"
    by (simp add: onresult_reply_def split: prod.split option.split)
  with handleCommand_opened [of d w] show ?thesis by simp
qed (simp add: onresult_reply_def)

lemma command_url_allowed: "command_url t q \<noteq> [] \<Longrightarrow> url_allowed (command_url t q)"
  using command_url_origin [of t q] by (auto simp: url_allowed_def)

lemma step_wf_opened:
  assumes "step w e = Some w'" and "wf_opened w"
  shows "wf_opened w'"
proof (cases "\<exists>i r. e = GeminiReply i r")
  case True
  then obtain i r where e: "e = GeminiReply i r" by blast
  with assms(1) obtain v where "w' = onresult_reply v (w\<lparr>pending := remove_nth i (pending w)\<rparr>)"
    by (auto split: if_splits)
  with onresult_reply_opened [of v "w\<lparr>pending := remove_nth i (pending w)\<rparr>"] assms(2) show ?thesis
    by (auto simp: wf_opened_def command_url_allowed)
qed (use assms step_frame_opened in \<open>auto simp: wf_opened_def\<close>)

lemma reachable_requests_opened: "reachable w \<Longrightarrow> wf_requests w \<and> wf_opened w"
proof (induction rule: reachable.induct)
  case (init u vs pop)
  show ?case by (simp add: wf_requests_def wf_opened_def init_world_def)
next
  case (step w e w')
  from step.hyps(1) have "wf_mount w" by (auto dest: reachable_wf simp: wf_def)
  with step.hyps(2) step.IH show ?case by (blast intro: step_wf_requests step_wf_opened)
qed

definition wf_windows :: "world \<Rightarrow> bool" where
  "wf_windows w \<longleftrightarrow> length (opened w) + length (warnings w) + length (pending w) \<le> length (requests w)"

lemma onresult_reply_windows:
  "length (opened (onresult_reply d w)) + length (warnings (onresult_reply d w))
     \<le> Suc (length (opened w) + length (warnings w))
   \<and> requests (onresult_reply d w) = requests w \<and> pending (onresult_reply d w) = pending w"
  by (auto simp: onresult_reply_def handleCommand_def speak_def Let_def split: sum.splits)

lemma step_wf_windows:
  assumes "step w e = Some w'" and "wf_windows w"
  shows "wf_windows w'"
proof (cases "\<exists>i r. e = GeminiReply i r")
  case True
  then obtain i r where e: "e = GeminiReply i r" by blast
  with assms(1) have i: "i < length (pending w)"
    and w': "w' = onresult_reply (getGeminiResponse_result r) (w\<lparr>pending := remove_nth i (pending w)\<rparr>)"
    by (simp_all split: if_splits)
  from i have "Suc (length (remove_nth i (pending w))) = length (pending w)" by simp
  with onresult_reply_windows [of "getGeminiResponse_result r" "w\<lparr>pending := remove_nth i (pending w)\<rparr>"]
    assms(2) w' show ?thesis by (simp add: wf_windows_def)
next
  case False
  with assms show ?thesis
    by (cases e) (auto simp: wf_windows_def handler_simps Let_def
        split: option.splits if_splits list.splits sum.splits)
qed

lemma reachable_windows: "reachable w \<Longrightarrow> wf_windows w"
proof (induction rule: reachable.induct)
  case (init u vs pop)
  show ?case by (simp add: wf_windows_def init_world_def)
next
  case (step w e w')
  then show ?case by (blast intro: step_wf_windows)
qed

lemma run_to_reply:
  "reaches (init_world (Some demo_user) [''hi-IN''] True)
     [Mount, Tick 1000, TimerFire 0, RecStart, RecResult ''tell me the weather, Max'',
      GeminiReply 0 (HttpOk (intent_json ''weather-show'' ''weather'' ''ok''))]
     (\<lambda>w. opened w = [''https://www.google.com/search?q=weather'']
        \<and> requests w = [\<lparr>command = ''tell me the weather, Max''\<rparr>] \<and> effect_user w = Some demo_user)"
  by code_simp

lemma run_to_awaiting:
  "reaches (init_world (Some demo_user) [''hi-IN''] True)
     [Mount, Tick 1000, TimerFire 0, RecStart, RecResult ''hey Max'']
     (\<lambda>w. pending w = [''hey Max''] \<and> requests w = [\<lparr>command = ''hey Max''\<rparr>])"
  by code_simp

text \<open>
  Claim C14. In every reachable state, every window the page has opened shows a Google
  search, a YouTube results page, or the Instagram or Facebook home page, over HTTPS:
  no reply can send the user to another site.
\<close>

theorem opened_origin:
  assumes "reachable w"
  shows "list_all (\<lambda>u. prefix ''https://www.google.com/search?q='' u
     \<or> prefix ''https://www.youtube.com/results?search_query='' u
     \<or> u = ''https://www.instagram.com/'' \<or> u = ''https://www.facebook.com/'') (opened w)"
  using reachable_requests_opened [OF assms] by (auto simp: wf_opened_def url_allowed_def list_all_iff)

theorem opened_origin_witness:
  "\<exists>w. reachable w \<and> opened w = [''https://www.google.com/search?q=weather'']
     \<and> list_all (\<lambda>u. prefix ''https://www.google.com/search?q='' u
     \<or> prefix ''https://www.youtube.com/results?search_query='' u
     \<or> u = ''https://www.instagram.com/'' \<or> u = ''https://www.facebook.com/'') (opened w)"
proof -
  from run_to_reply obtain w where r: "run (init_world (Some demo_user) [''hi-IN''] True)
     [Mount, Tick 1000, TimerFire 0, RecStart, RecResult ''tell me the weather, Max'',
      GeminiReply 0 (HttpOk (intent_json ''weather-show'' ''weather'' ''ok''))] = Some w"
    and o: "opened w = [''https://www.google.com/search?q=weather'']"
    by (auto simp: reaches_iff)
  from r have "reachable w" by (rule init_run_reachable)
  with o opened_origin [of w] show ?thesis by blast
qed

text \<open>
  Claim C15. In every reachable state, every request sent to the assistant service
  carries a transcript that contains the wake word of the signed-in profile: no
  transcript without the wake word ever reaches the service.
\<close>

theorem requests_wake_matched:
  assumes "reachable w" and "effect_user w = Some u"
  shows "list_all (\<lambda>r. wake_match (command r) u) (requests w)"
  using reachable_requests_opened [OF assms(1)] assms(2) by (simp add: wf_requests_def)

theorem requests_wake_matched_witness:
  "\<exists>w. reachable w \<and> effect_user w = Some demo_user
     \<and> requests w = [\<lparr>command = ''tell me the weather, Max''\<rparr>]
     \<and> list_all (\<lambda>r. wake_match (command r) demo_user) (requests w)"
proof -
  from run_to_reply obtain w where r: "run (init_world (Some demo_user) [''hi-IN''] True)
     [Mount, Tick 1000, TimerFire 0, RecStart, RecResult ''tell me the weather, Max'',
      GeminiReply 0 (HttpOk (intent_json ''weather-show'' ''weather'' ''ok''))] = Some w"
    and q: "requests w = [\<lparr>command = ''tell me the weather, Max''\<rparr>]" and u: "effect_user w = Some demo_user"
    by (auto simp: reaches_iff)
  from r have "reachable w" by (rule init_run_reachable)
  with q u requests_wake_matched [of w demo_user] show ?thesis by blast
qed

text \<open>
  In every reachable state the transcripts still awaiting a reply are, in
  order, among the commands sent: a reply is only ever awaited for a request that was
  made.
\<close>

theorem pending_subseq_requests:
  assumes "reachable w"
  shows "subseq (pending w) (map command (requests w))"
  using reachable_requests_opened [OF assms] by (simp add: wf_requests_def)

theorem pending_subseq_requests_witness:
  "\<exists>w. reachable w \<and> pending w = [''hey Max''] \<and> subseq (pending w) (map command (requests w))"
proof -
  from run_to_awaiting obtain w where r: "run (init_world (Some demo_user) [''hi-IN''] True)
     [Mount, Tick 1000, TimerFire 0, RecStart, RecResult ''hey Max''] = Some w"
    and p: "pending w = [''hey Max'']"
    by (auto simp: reaches_iff)
  from r have "reachable w" by (rule init_run_reachable)
  with p pending_subseq_requests [of w] show ?thesis by blast
qed

text \<open>
  Claim C16. In every reachable state, each request sent to the assistant service has
  led to at most one window, opened or blocked, and only once its reply has arrived:
  the windows opened, the popup warnings and the requests still awaited together
  number at most the requests sent.
\<close>

theorem windows_per_request:
  assumes "reachable w"
  shows "length (opened w) + length (warnings w) + length (pending w) \<le> length (requests w)"
  using reachable_windows [OF assms] by (simp add: wf_windows_def)

theorem windows_per_request_witness:
  "\<exists>w. reachable w \<and> length (opened w) = 1 \<and> length (requests w) = 1
     \<and> length (opened w) + length (warnings w) + length (pending w) \<le> length (requests w)"
proof -
  from run_to_reply obtain w where r: "run (init_world (Some demo_user) [''hi-IN''] True)
     [Mount, Tick 1000, TimerFire 0, RecStart, RecResult ''tell me the weather, Max'',
      GeminiReply 0 (HttpOk (intent_json ''weather-show'' ''weather'' ''ok''))] = Some w"
    and o: "opened w = [''https://www.google.com/search?q=weather'']"
    and q: "requests w = [\<lparr>command = ''tell me the weather, Max''\<rparr>]"
    by (auto simp: reaches_iff)
  from r have "reachable w" by (rule init_run_reachable)
  with o q windows_per_request [of w] show ?thesis by auto
qed

end
