(* ===== verification/Player.thy ===== *)
theory Player
  imports Invariants
begin

text \<open>
  The spec's Utterance Player (section 4.3) as an abstract machine, and the refinement
  of it by \<open>speak\<close> over the browser's synthesis queue. The player's state is the
  text of the utterance the coordinator has most recently asked for, while it plays,
  and the number of completion callbacks still owed to \<open>speak\<close> calls. Its steps: a
  \<open>speak\<close> interrupts and owes one more completion; the current utterance completes;
  an interrupted utterance delivers its owed completion. \<open>player_of\<close> reads this
  state off the model: the queued utterance that has the coordinator's \<open>onend\<close>
  handler, and the owed callbacks of the queue and of the cancelled utterances.
\<close>

section \<open>The abstract player\<close>

record player_state =
  playing :: "js_string option"
  owed :: nat

definition player_speak :: "js_string \<Rightarrow> player_state \<Rightarrow> player_state" where
  "player_speak t p = \<lparr>playing = Some t, owed = owed p + 1\<rparr>"

definition player_done :: "player_state \<Rightarrow> player_state" where
  "player_done p = \<lparr>playing = None, owed = owed p - 1\<rparr>"

definition player_stale :: "player_state \<Rightarrow> player_state" where
  "player_stale p = p\<lparr>owed := owed p - 1\<rparr>"

text \<open>Completions owed to interrupted utterances: all but the one of the utterance playing.\<close>

definition stale_owed :: "player_state \<Rightarrow> nat" where
  "stale_owed p = owed p - (if playing p = None then 0 else 1)"

inductive player_trans :: "player_state \<Rightarrow> player_state \<Rightarrow> bool" where
  p_stutter: "player_trans p p"
| p_speak: "player_trans p (player_speak t p)"
| p_done: "playing p \<noteq> None \<Longrightarrow> player_trans p (player_done p)"
| p_stale: "0 < stale_owed p \<Longrightarrow> player_trans p (player_stale p)"

section \<open>Abstraction\<close>

definition player_of :: "world \<Rightarrow> player_state" where
  "player_of w =
     \<lparr>playing = (case filter utt_onend (queue w) of [] \<Rightarrow> None | u # _ \<Rightarrow> Some (utt_text u)),
      owed = interrupted w + length (filter utt_onend (queue w))\<rparr>"

text \<open>At most one queued utterance carries the coordinator's handler: \<open>speak\<close> cancels first.\<close>

definition wf_queue :: "world \<Rightarrow> bool" where
  "wf_queue w \<longleftrightarrow> length (filter utt_onend (queue w)) \<le> 1"

lemma step_wf_queue: "step w e = Some w' \<Longrightarrow> wf_queue w \<Longrightarrow> wf_queue w'"
  by (cases e) (auto simp: wf_queue_def handler_simps Let_def
      split: option.splits if_splits list.splits sum.splits)

lemma reachable_wf_queue: "reachable w \<Longrightarrow> wf_queue w"
proof (induction rule: reachable.induct)
  case (init u vs pop)
  show ?case by (simp add: wf_queue_def init_world_def)
next
  case (step w e w')
  then show ?case by (blast intro: step_wf_queue)
qed

lemma player_of_speak:
  "player_of (snd (speak t w)) =
     (case dom_string_arg t of Inl _ \<Rightarrow> player_of w | Inr s \<Rightarrow> player_speak s (player_of w))"
  by (simp add: player_of_def player_speak_def speak_def make_utterance_def cancelled_ends_def split: sum.split)

lemma player_of_onresult_reply:
  "player_of (onresult_reply d w) =
     (if reply_ok d then player_of (snd (speak (get_prop d ''response'') w)) else player_of w)"
proof (cases "reply_ok d")
  case True
  have "queue (onresult_reply d w) = queue (snd (speak (get_prop d ''response'') w))
    \<and> interrupted (onresult_reply d w) = interrupted (snd (speak (get_prop d ''response'') w))"
    using True by (simp add: onresult_reply_def handleCommand_def Let_def split: prod.split option.split)
  with True show ?thesis by (simp add: player_of_def)
qed (simp add: onresult_reply_def player_of_def)

lemma player_of_frame:
  "queue w' = queue w \<Longrightarrow> interrupted w' = interrupted w \<Longrightarrow> player_of w' = player_of w"
  by (simp add: player_of_def)

lemma step_queue_frame:
  "step w e = Some w' \<Longrightarrow> e \<notin> {Mount, SynthEnd, SynthInterruptedEnd} \<Longrightarrow> \<forall>i r. e \<noteq> GeminiReply i r \<Longrightarrow>
   queue w' = queue w \<and> interrupted w' = interrupted w"
  by (cases e) (auto simp: handler_simps Let_def split: option.splits if_splits list.splits sum.splits)

lemma player_synth_end:
  assumes "step w SynthEnd = Some w'" and "wf_queue w"
  shows "player_trans (player_of w) (player_of w')"
proof -
  from assms(1) obtain u us where q: "queue w = u # us" by (cases "queue w") auto
  show ?thesis
  proof (cases "utt_onend u")
    case True
    with q assms(2) have "filter utt_onend us = []" by (simp add: wf_queue_def)
    with True q assms(1) have "player_of w' = player_done (player_of w)"
      by (auto simp: player_of_def player_done_def utterance_onend_def)
    moreover from True q have "playing (player_of w) \<noteq> None" by (simp add: player_of_def)
    ultimately show ?thesis by (simp add: player_trans.p_done)
  next
    case False
    with q assms(1) have "player_of w' = player_of w" by (auto simp: player_of_def)
    then show ?thesis by (simp add: player_trans.p_stutter)
  qed
qed

lemma player_interrupted_end:
  assumes "step w SynthInterruptedEnd = Some w'" and "wf_queue w"
  shows "player_trans (player_of w) (player_of w')"
proof -
  from assms(1) have i: "0 < interrupted w"
    and w': "w' = utterance_onend (w\<lparr>interrupted := interrupted w - 1\<rparr>)" by (simp_all split: if_splits)
  from w' i have "player_of w' = player_stale (player_of w)"
    by (simp add: player_of_def player_stale_def utterance_onend_def)
  moreover from i assms(2) have "0 < stale_owed (player_of w)"
    by (auto simp: stale_owed_def player_of_def wf_queue_def split: list.splits)
  ultimately show ?thesis by (simp add: player_trans.p_stale)
qed

section \<open>Refinement\<close>

text \<open>
  Claim C3. In every reachable state, each step of the model acts on the player as a
  step of the spec's Utterance Player: a well-formed reply interrupts and speaks its
  response, owing one more completion; the end of the utterance playing completes it;
  the end of an interrupted utterance pays one owed completion; every other event
  leaves the player alone. So every \<open>speak\<close> call gets exactly one completion callback.
\<close>

theorem player_refinement:
  assumes "reachable w" and "step w e = Some w'"
  shows "player_trans (player_of w) (player_of w')"
proof -
  have q: "wf_queue w" using assms(1) by (rule reachable_wf_queue)
  consider (reply) i r where "e = GeminiReply i r" | (synth) "e = SynthEnd"
    | (stale) "e = SynthInterruptedEnd" | (mount) "e = Mount"
    | (other) "e \<notin> {Mount, SynthEnd, SynthInterruptedEnd}" "\<forall>i r. e \<noteq> GeminiReply i r"
    by (cases e) auto
  then show ?thesis
  proof cases
    case reply
    with assms(2) have "w' = onresult_reply (getGeminiResponse_result r) (w\<lparr>pending := remove_nth i (pending w)\<rparr>)"
      by (simp split: if_splits)
    moreover have "player_of (w\<lparr>pending := remove_nth i (pending w)\<rparr>) = player_of w"
      by (simp add: player_of_def)
    ultimately have "player_of w' = (if reply_ok (getGeminiResponse_result r)
        then (case dom_string_arg (get_prop (getGeminiResponse_result r) ''response'') of
                Inl _ \<Rightarrow> player_of w | Inr s \<Rightarrow> player_speak s (player_of w))
        else player_of w)"
      by (simp only: player_of_onresult_reply player_of_speak)
    then show ?thesis
      by (auto simp: player_trans.p_speak player_trans.p_stutter split: sum.splits if_splits)
  next
    case synth
    with assms(2) q show ?thesis by (simp add: player_synth_end)
  next
    case stale
    with assms(2) q show ?thesis by (simp add: player_interrupted_end)
  next
    case mount
    with assms(2) have "player_of w' = player_of w"
      by (auto simp: player_of_def home_effect_def split: option.splits if_splits)
    then show ?thesis by (simp add: player_trans.p_stutter)
  next
    case other
    from step_queue_frame [OF assms(2) other] have "player_of w' = player_of w"
      by (intro player_of_frame) simp_all
    then show ?thesis by (simp add: player_trans.p_stutter)
  qed
qed

theorem player_refinement_witness:
  "\<exists>w w'. reachable w
     \<and> step w (GeminiReply 0 (HttpOk (intent_json ''weather-show'' ''weather'' ''ok''))) = Some w'
     \<and> player_trans (player_of w) (player_of w') \<and> playing (player_of w') = Some ''ok''"
proof -
  from run_to_awaiting obtain w where r: "run (init_world (Some demo_user) [''hi-IN''] True)
     [Mount, Tick 1000, TimerFire 0, RecStart, RecResult ''hey Max''] = Some w"
    and p: "pending w = [''hey Max'']" by (auto simp: reaches_iff)
  from r have re: "reachable w" by (rule init_run_reachable)
  let ?d = "intent_json ''weather-show'' ''weather'' ''ok''"
  from p obtain w' where s: "step w (GeminiReply 0 (HttpOk ?d)) = Some w'"
    and w': "w' = onresult_reply ?d (w\<lparr>pending := remove_nth 0 (pending w)\<rparr>)" by simp
  have "playing (player_of w') = Some ''ok''"
    by (simp add: w' player_of_onresult_reply player_of_speak player_speak_def reply_ok_def intent_json_def)
  with re s player_refinement [OF re s] show ?thesis by blast
qed

end
