(* ===== verification/Mode.thy ===== *)
theory Mode
  imports Invariants
begin

text \<open>
  The spec's Interaction State Machine (sections 3 and 4.1) and how the coordinator of
  \<open>Home.jsx\<close> implements it. The spec's coordinator is in exactly one
  \<open>InteractionMode\<close> (\<open>imode\<close>); its transitions are driven by abstract events:
  capture started, a wake-word transcript, a well-formed or malformed reply, playback
  completed, capture ended or failed, teardown. \<open>abs_event\<close> is the mediator: it maps
  a browser event delivered to the code, in the state it is delivered in, to the
  abstract event it is, or to none (time passing, a timer, a non-matching transcript,
  the greeting ending, the menu). \<open>coupled\<close> relates an abstract mode to the code's
  state: the flags the code keeps for it (\<open>listening\<close>, \<open>isSpeakingRef\<close>), the
  requests in flight, the utterances owed to the coordinator, the mount flag.
  The simulation theorem says that every step of a reachable state either follows the
  spec's machine and keeps the coupling, or is one of three departures: the recognizer
  starts outside \<open>Idle\<close> and \<open>Listening\<close>, a transcript is delivered outside
  \<open>Listening\<close>, or a reply or the end of playback is handled after teardown.
\<close>

section \<open>The spec's machine\<close>

datatype imode = Idle | Listening | AwaitingReply | Speaking | TornDown

datatype aevent =
    CaptureStarted | CaptureEnded | WakeMatched | ReplyOk | ReplyBad | PlaybackDone | Teardown

text \<open>
  Section 4.1: \<open>Idle \<rightarrow> Listening\<close> when capture starts (a start when already
  listening is a no-op), \<open>Listening \<rightarrow> AwaitingReply\<close> on a wake-word transcript,
  \<open>AwaitingReply \<rightarrow> Speaking\<close> on a well-formed reply and \<open>\<rightarrow> Listening\<close> on a
  malformed one, \<open>Speaking \<rightarrow> Idle\<close> when playback completes, \<open>Listening \<rightarrow> Idle\<close>
  when capture ends or fails; an end or error in any other mode is the expected end of
  a requested stop and changes nothing. Teardown ends the machine.
\<close>

fun mode_step :: "imode \<Rightarrow> aevent \<Rightarrow> imode option" where
  "mode_step _ Teardown = Some TornDown"
| "mode_step Idle CaptureStarted = Some Listening"
| "mode_step Listening CaptureStarted = Some Listening"
| "mode_step Listening WakeMatched = Some AwaitingReply"
| "mode_step AwaitingReply ReplyOk = Some Speaking"
| "mode_step AwaitingReply ReplyBad = Some Listening"
| "mode_step Speaking PlaybackDone = Some Idle"
| "mode_step Listening CaptureEnded = Some Idle"
| "mode_step m CaptureEnded = Some m"
| "mode_step _ _ = None"

fun mode_next :: "imode \<Rightarrow> aevent option \<Rightarrow> imode option" where
  "mode_next m None = Some m"
| "mode_next m (Some a) = mode_step m a"

section \<open>Mediator and coupling\<close>

text \<open>
  A reply the coordinator speaks: well-formed, with a response that converts to a
  string. A well-formed reply whose response makes the utterance constructor throw is
  dropped like a malformed one (except that no apology is shown).
\<close>

definition reply_spoken :: "js_value \<Rightarrow> bool" where
  "reply_spoken d \<longleftrightarrow> reply_ok d \<and> \<not> to_string_throws (get_prop d ''response'')"

fun abs_event :: "world \<Rightarrow> event \<Rightarrow> aevent option" where
  "abs_event w RecStart = Some CaptureStarted"
| "abs_event w (RecResult raw) =
     (case effect_user w of
        None \<Rightarrow> None
      | Some u \<Rightarrow> if wake_match (trim raw) u then Some WakeMatched else None)"
| "abs_event w RecEnd = Some CaptureEnded"
| "abs_event w (RecError err) = Some CaptureEnded"
| "abs_event w (GeminiReply i r) =
     Some (if reply_spoken (getGeminiResponse_result r) then ReplyOk else ReplyBad)"
| "abs_event w SynthEnd =
     (case queue w of u # _ \<Rightarrow> if utt_onend u then Some PlaybackDone else None | [] \<Rightarrow> None)"
| "abs_event w SynthInterruptedEnd = Some PlaybackDone"
| "abs_event w Unmount = Some Teardown"
| "abs_event w (LogOut ok) = (if ok then Some Teardown else None)"
| "abs_event w Customize = Some Teardown"
| "abs_event w _ = None"

text \<open>No utterance is owed to the coordinator: none queued with its handler, none cancelled.\<close>

definition player_idle :: "world \<Rightarrow> bool" where
  "player_idle w \<longleftrightarrow> interrupted w = 0 \<and> filter utt_onend (queue w) = []"

fun coupled :: "imode \<Rightarrow> world \<Rightarrow> bool" where
  "coupled Idle w \<longleftrightarrow>
     (recognitionRef w \<longrightarrow> isMounted w) \<and> \<not> listening w \<and> pending w = [] \<and> \<not> isSpeakingRef w
     \<and> player_idle w"
| "coupled Listening w \<longleftrightarrow> isMounted w \<and> pending w = [] \<and> \<not> isSpeakingRef w \<and> player_idle w"
| "coupled AwaitingReply w \<longleftrightarrow>
     isMounted w \<and> \<not> listening w \<and> length (pending w) = 1 \<and> \<not> isSpeakingRef w \<and> player_idle w"
| "coupled Speaking w \<longleftrightarrow>
     isMounted w \<and> \<not> listening w \<and> pending w = [] \<and> isSpeakingRef w \<and> interrupted w = 0
     \<and> length (filter utt_onend (queue w)) = 1"
| "coupled TornDown w \<longleftrightarrow> \<not> isMounted w \<and> recognitionRef w"

text \<open>The three ways a step of the code leaves the spec's machine.\<close>

definition departure :: "imode \<Rightarrow> world \<Rightarrow> event \<Rightarrow> bool" where
  "departure m w e \<longleftrightarrow>
     (e = RecStart \<and> m \<in> {AwaitingReply, Speaking, TornDown})
     \<or> (abs_event w e = Some WakeMatched \<and> m \<noteq> Listening)
     \<or> (m = TornDown \<and> abs_event w e \<in> {Some ReplyOk, Some ReplyBad, Some PlaybackDone})"

lemma coupled_init: "coupled Idle (init_world u vs pop)"
  by (simp add: init_world_def player_idle_def)

section \<open>Simulation\<close>

lemma abs_event_started: "abs_event w e = Some CaptureStarted \<longleftrightarrow> e = RecStart"
  by (cases e) (auto split: option.splits if_splits list.splits)

text \<open>After teardown the coupling holds whatever happens; only the abstract event matters.\<close>

lemma sim_torn:
  assumes c: "coupled TornDown w" and s: "step w e = Some w'"
  shows "(\<exists>m'. mode_next TornDown (abs_event w e) = Some m' \<and> coupled m' w') \<or> departure TornDown w e"
proof -
  from c s have "e \<noteq> Mount" by (auto split: option.splits)
  from step_keeps_ref [OF s this] c have cw: "coupled TornDown w'" by auto
  show ?thesis
  proof (cases "abs_event w e")
    case None
    with cw show ?thesis by simp
  next
    case (Some a)
    then show ?thesis
      using cw by (cases a) (auto simp: departure_def abs_event_started)
  qed
qed

lemma sim_idle:
  "coupled Idle w \<Longrightarrow> wf_mount w \<Longrightarrow> step w e = Some w' \<Longrightarrow>
   (\<exists>m'. mode_next Idle (abs_event w e) = Some m' \<and> coupled m' w') \<or> departure Idle w e"
  by (cases e) (auto simp: departure_def player_idle_def wf_mount_def handler_simps Let_def
      split: option.splits if_splits list.splits sum.splits)

lemma sim_listening:
  "coupled Listening w \<Longrightarrow> wf_mount w \<Longrightarrow> step w e = Some w' \<Longrightarrow>
   (\<exists>m'. mode_next Listening (abs_event w e) = Some m' \<and> coupled m' w') \<or> departure Listening w e"
  by (cases e) (auto simp: departure_def player_idle_def wf_mount_def handler_simps Let_def
      split: option.splits if_splits list.splits sum.splits)

lemma sim_awaiting:
  "coupled AwaitingReply w \<Longrightarrow> wf_mount w \<Longrightarrow> step w e = Some w' \<Longrightarrow>
   (\<exists>m'. mode_next AwaitingReply (abs_event w e) = Some m' \<and> coupled m' w') \<or> departure AwaitingReply w e"
  by (cases e) (auto simp: departure_def player_idle_def wf_mount_def handler_simps Let_def cancelled_ends_def
      reply_spoken_def
      split: option.splits if_splits list.splits sum.splits)

lemma sim_speaking:
  "coupled Speaking w \<Longrightarrow> wf_mount w \<Longrightarrow> step w e = Some w' \<Longrightarrow>
   (\<exists>m'. mode_next Speaking (abs_event w e) = Some m' \<and> coupled m' w') \<or> departure Speaking w e"
  by (cases e) (auto simp: departure_def player_idle_def wf_mount_def handler_simps Let_def
      split: option.splits if_splits list.splits sum.splits)

lemma coordinator_step:
  assumes "reachable w" and "coupled m w" and "step w e = Some w'"
  shows "(\<exists>m'. mode_next m (abs_event w e) = Some m' \<and> coupled m' w') \<or> departure m w e"
proof -
  from reachable_wf [OF assms(1)] have wm: "wf_mount w" by (simp add: wf_def)
  show ?thesis
    using assms(2,3) wm by (cases m) (simp_all add: sim_idle sim_listening sim_awaiting sim_speaking sim_torn)
qed

lemma departure_rejected: "departure m w e \<Longrightarrow> mode_next m (abs_event w e) = None"
  by (cases m) (auto simp: departure_def)

text \<open>The spec's machine run alongside a run of the code, rejecting at its first departure.\<close>

fun mode_run :: "imode \<Rightarrow> world \<Rightarrow> event list \<Rightarrow> imode option" where
  "mode_run m w [] = Some m"
| "mode_run m w (e # es) =
     (case step w e of
        None \<Rightarrow> None
      | Some w' \<Rightarrow> (case mode_next m (abs_event w e) of None \<Rightarrow> None | Some m' \<Rightarrow> mode_run m' w' es))"

text \<open>
  Claim C2. The code implements the spec's interaction state machine up to three
  departures. For every run of the code from a reachable state coupled to a mode,
  either the spec's machine follows the whole run under the mediator
  \<open>abs_event\<close> and ends in a mode coupled to the final state, or the run has a first
  step the machine rejects, and that step is a departure: the recognizer starts while
  the spec's coordinator awaits a reply, speaks or is torn down; a wake-word
  transcript arrives outside \<open>Listening\<close>; or a reply or a playback end is handled
  after teardown. In particular the code never handles a reply outside
  \<open>AwaitingReply\<close> nor a playback end outside \<open>Speaking\<close> before teardown.
\<close>

theorem coordinator_refinement:
  assumes "reachable w" and "coupled m w" and "run w es = Some w'"
  shows "(\<exists>m'. mode_run m w es = Some m' \<and> coupled m' w')
    \<or> (\<exists>xs e ys wx mx. es = xs @ e # ys \<and> run w xs = Some wx \<and> mode_run m w xs = Some mx
         \<and> mode_next mx (abs_event wx e) = None \<and> departure mx wx e)"
  using assms
proof (induction es arbitrary: w m)
  case Nil
  then show ?case by simp
next
  case (Cons e es)
  from Cons.prems(3) obtain w1 where s: "step w e = Some w1" and r: "run w1 es = Some w'"
    by (auto split: option.splits)
  have re1: "reachable w1" using Cons.prems(1) s by (rule reachable.step)
  from coordinator_step [OF Cons.prems(1,2) s]
  show ?case
  proof
    assume "\<exists>m1. mode_next m (abs_event w e) = Some m1 \<and> coupled m1 w1"
    then obtain m1 where n: "mode_next m (abs_event w e) = Some m1" and c1: "coupled m1 w1" by blast
    from Cons.IH [OF re1 c1 r] show ?thesis
    proof
      assume "\<exists>m'. mode_run m1 w1 es = Some m' \<and> coupled m' w'"
      with s n show ?thesis by simp
    next
      assume "\<exists>xs e' ys wx mx. es = xs @ e' # ys \<and> run w1 xs = Some wx \<and> mode_run m1 w1 xs = Some mx
         \<and> mode_next mx (abs_event wx e') = None \<and> departure mx wx e'"
      then obtain xs e' ys wx mx where h: "es = xs @ e' # ys" "run w1 xs = Some wx" "mode_run m1 w1 xs = Some mx"
          and d: "mode_next mx (abs_event wx e') = None" "departure mx wx e'" by blast
      from h s n have "e # es = (e # xs) @ e' # ys" "run w (e # xs) = Some wx" "mode_run m w (e # xs) = Some mx"
        by simp_all
      with d show ?thesis by blast
    qed
  next
    assume "departure m w e"
    then have "mode_next m (abs_event w e) = None" by (rule departure_rejected)
    with \<open>departure m w e\<close> show ?thesis by (intro disjI2 exI [of _ "[]"]) auto
  qed
qed

theorem coordinator_refinement_witness:
  "\<exists>w'. run (init_world (Some demo_user) [''hi-IN''] True)
       [Mount, Tick 1000, TimerFire 0, RecStart, RecResult ''tell me the weather, Max'',
        GeminiReply 0 (HttpOk (intent_json ''weather-show'' ''weather'' ''ok''))] = Some w'
     \<and> mode_run Idle (init_world (Some demo_user) [''hi-IN''] True)
       [Mount, Tick 1000, TimerFire 0, RecStart, RecResult ''tell me the weather, Max'',
        GeminiReply 0 (HttpOk (intent_json ''weather-show'' ''weather'' ''ok''))] = Some Speaking
     \<and> ((\<exists>m'. mode_run Idle (init_world (Some demo_user) [''hi-IN''] True)
       [Mount, Tick 1000, TimerFire 0, RecStart, RecResult ''tell me the weather, Max'',
        GeminiReply 0 (HttpOk (intent_json ''weather-show'' ''weather'' ''ok''))] = Some m' \<and> coupled m' w')
      \<or> (\<exists>xs e ys wx mx. [Mount, Tick 1000, TimerFire 0, RecStart, RecResult ''tell me the weather, Max'',
        GeminiReply 0 (HttpOk (intent_json ''weather-show'' ''weather'' ''ok''))] = xs @ e # ys
          \<and> run (init_world (Some demo_user) [''hi-IN''] True) xs = Some wx
          \<and> mode_run Idle (init_world (Some demo_user) [''hi-IN''] True) xs = Some mx
          \<and> mode_next mx (abs_event wx e) = None \<and> departure mx wx e))"
proof -
  have mr: "mode_run Idle (init_world (Some demo_user) [''hi-IN''] True)
       [Mount, Tick 1000, TimerFire 0, RecStart, RecResult ''tell me the weather, Max'',
        GeminiReply 0 (HttpOk (intent_json ''weather-show'' ''weather'' ''ok''))] = Some Speaking" by code_simp
  from run_to_reply obtain w' where r: "run (init_world (Some demo_user) [''hi-IN''] True)
       [Mount, Tick 1000, TimerFire 0, RecStart, RecResult ''tell me the weather, Max'',
        GeminiReply 0 (HttpOk (intent_json ''weather-show'' ''weather'' ''ok''))] = Some w'" by (auto simp: reaches_iff)
  from coordinator_refinement [OF reachable.init coupled_init r] r mr show ?thesis by blast
qed

text \<open>
  The run of the spec's scenario is followed to \<open>Speaking\<close> (above); the run in which
  the recognizer's own end event re-arms capture while the reply is awaited is rejected
  at the restart.
\<close>

lemma capture_restart_rejected:
  "mode_run Idle (init_world (Some demo_user) [''hi-IN''] True)
     [Mount, Tick 1000, TimerFire 0, RecStart, RecResult ''hey Max'', RecEnd] = Some AwaitingReply
   \<and> mode_run Idle (init_world (Some demo_user) [''hi-IN''] True)
     [Mount, Tick 1000, TimerFire 0, RecStart, RecResult ''hey Max'', RecEnd, Tick 1000, TimerFire 0,
      RecStart] = None"
  by code_simp

end
