(* ===== verification/IntentSpec.thy ===== *)
theory IntentSpec
  imports Dispatcher
begin

text \<open>
  The intent dispatcher as the spec describes it (section 4.4): a pure map from an
  intent type and its input to at most one navigation target, stated over abstract
  targets (a web search for a query, a video search for a query, a platform's home
  page) rather than URL strings. \<open>url_target\<close> reads a URL back as the target a
  browser would show: a Google search or YouTube results page with its decoded query,
  or one of the two home pages. The refinement theorem says that the code's string
  table \<open>command_url\<close>, read back this way, is exactly the spec's table.
\<close>

section \<open>The abstract dispatcher\<close>

datatype intent_type =
    GoogleSearch | YoutubeSearch | YoutubePlay | CalculatorOpen | InstagramOpen
  | FacebookOpen | WeatherShow | OtherIntent

text \<open>
  The spec's \<open>Intent.type\<close> is an enumeration; a reply's \<open>type\<close> field is read as
  one of its values when it is one of the seven strings, and as \<open>OtherIntent\<close>
  (\<open>unknown\<close>, \<open>none\<close>, anything else) otherwise.
\<close>

definition parse_intent_type :: "js_value \<Rightarrow> intent_type" where
  "parse_intent_type v =
     (case v of
        JStr t \<Rightarrow>
          if t = ''google-search'' then GoogleSearch
          else if t = ''youtube-search'' then YoutubeSearch
          else if t = ''youtube-play'' then YoutubePlay
          else if t = ''calculator-open'' then CalculatorOpen
          else if t = ''instagram-open'' then InstagramOpen
          else if t = ''facebook-open'' then FacebookOpen
          else if t = ''weather-show'' then WeatherShow
          else OtherIntent
      | _ \<Rightarrow> OtherIntent)"

datatype platform = Instagram | Facebook

datatype nav_target = WebSearch js_string | VideoSearch js_string | PlatformHome platform

fun spec_target :: "intent_type \<Rightarrow> js_string \<Rightarrow> nav_target option" where
  "spec_target GoogleSearch q = Some (WebSearch q)"
| "spec_target YoutubeSearch q = Some (VideoSearch q)"
| "spec_target YoutubePlay q = Some (VideoSearch q)"
| "spec_target CalculatorOpen q = Some (WebSearch ''calculator'')"
| "spec_target InstagramOpen q = Some (PlatformHome Instagram)"
| "spec_target FacebookOpen q = Some (PlatformHome Facebook)"
| "spec_target WeatherShow q = Some (WebSearch ''weather'')"
| "spec_target OtherIntent q = None"

section \<open>Reading a URL back\<close>

definition url_target :: "url \<Rightarrow> nav_target option" where
  "url_target u =
     (if startsWith u google_search_prefix then
        (case percent_decode (drop (length google_search_prefix) u) of
           Inr q \<Rightarrow> Some (WebSearch q) | Inl _ \<Rightarrow> None)
      else if startsWith u youtube_results_prefix then
        (case percent_decode (drop (length youtube_results_prefix) u) of
           Inr q \<Rightarrow> Some (VideoSearch q) | Inl _ \<Rightarrow> None)
      else if u = ''https://www.instagram.com/'' then Some (PlatformHome Instagram)
      else if u = ''https://www.facebook.com/'' then Some (PlatformHome Facebook)
      else None)"

section \<open>Refinement\<close>

text \<open>
  Claim C4. The code's URL table refines the spec's dispatcher: for every type and
  input value, the page the code opens (read back as a target) is the target the
  spec's table assigns to the parsed intent and the input's string form, and no page
  is opened exactly when the spec assigns none.
\<close>

theorem dispatcher_refines_spec:
  "url_target (command_url t q) = spec_target (parse_intent_type t) (to_string q)"
proof -
  have calc: "percent_decode ''calculator'' = Inr ''calculator''" by code_simp
  have weather: "percent_decode ''weather'' = Inr ''weather''" by code_simp
  show ?thesis
    by (auto simp: command_url_def parse_intent_type_def calc weather
        url_target_def google_search_prefix_def youtube_results_prefix_def split: js_value.split)
qed

end
