(* ===== verification/View.thy ===== *)
theory View
  imports Home
begin

text \<open>
  What \<open>Home\<close> renders (\<open>Home.jsx\<close>, lines 147--176), as a function of the state:
  the persona heading and image, which avatar animation is shown, the caption line,
  the history list of the menu and whether the menu is open. Rendering reads the
  context's current \<open>userData\<close>; the menu's \<open>userData.history?.map\<close> (line 161)
  dereferences it without a guard, so a \<open>null\<close> profile makes the render throw a
  \<open>TypeError\<close>, modelled as an error value. The caption \<open>{userText || aiText || null}\<close>
  is a JSX child: React renders a string or number as text, a boolean, \<open>null\<close> or
  \<open>undefined\<close> as nothing and an array element by element, and throws on a plain
  object (\<open>Objects are not valid as a React child\<close>), after the render function has
  returned.
\<close>

datatype avatar = UserImg | AiImg

record view =
  menu_open :: bool
  history_items :: "js_string list"
  persona_image :: js_string
  heading :: js_string
  shown_avatar :: avatar
  caption :: "js_value option"

datatype render_error = TypeError | ObjectAsChild

fun react_child_ok :: "js_value \<Rightarrow> bool" where
  "react_child_ok (JObj _) = False"
| "react_child_ok (JArr xs) = list_all react_child_ok xs"
| "react_child_ok _ = True"

definition render :: "world \<Rightarrow> render_error + view" where
  "render w =
     (case userData w of
        None \<Rightarrow> Inl TypeError
      | Some u \<Rightarrow>
          (let c = (if userText w \<noteq> [] then Some (JStr (userText w))
                    else if truthy (aiText w) then Some (aiText w) else None)
           in if pred_option react_child_ok c then
                Inr \<lparr>menu_open = ham w,
                     history_items = (case history u of None \<Rightarrow> [] | Some hs \<Rightarrow> hs),
                     persona_image = assistantImage u,
                     heading = ''I'' @ [CHR 0x27] @ ''m '' @ assistantName u,
                     shown_avatar = (if \<not> truthy (aiText w) then UserImg else AiImg),
                     caption = c\<rparr>
              else Inl ObjectAsChild))"

section \<open>Properties\<close>

text \<open>
  When the page renders, its caption is the transcript echo if there is
  one, otherwise the assistant's text, otherwise nothing; the assistant animation is
  shown exactly while there is assistant text.
\<close>

theorem render_caption:
  assumes "render w = Inr v"
  shows "caption v = (if userText w \<noteq> [] then Some (JStr (userText w))
                      else if truthy (aiText w) then Some (aiText w) else None)
    \<and> (shown_avatar v = AiImg \<longleftrightarrow> truthy (aiText w))"
  using assms by (auto simp: render_def Let_def split: option.splits if_splits)

text \<open>
  Rendering fails with a \<open>TypeError\<close> exactly when the context holds no
  user profile.
\<close>

theorem render_no_user: "render w = Inl TypeError \<longleftrightarrow> userData w = None"
  by (simp add: render_def Let_def split: option.splits)

end
