(* ===== verification/Replies.thy ===== *)
theory Replies
  imports View
begin

text \<open>
  The assistant's reply is untyped JSON. The spec (section 6) promises an object with
  three string fields, or an absence signal; this theory states what the coordinator
  does with replies of that shape and with replies outside it. With replies of the
  promised shape, \<open>aiText\<close> always holds a string, so the caption always renders; a
  reply whose \<open>response\<close> is an object makes the next render throw, unless the object
  has its own \<open>toString\<close> key, when speaking it throws first and nothing happens; and a
  search reply without \<open>userInput\<close> searches for the word \<open>undefined\<close>.
\<close>

section \<open>Replies of the promised shape\<close>

fun is_jstr :: "js_value \<Rightarrow> bool" where
  "is_jstr (JStr _) = True"
| "is_jstr _ = False"

fun is_jobj :: "js_value \<Rightarrow> bool" where
  "is_jobj (JObj _) = True"
| "is_jobj _ = False"

text \<open>A reply of the shape of section 6: \<open>null\<close>, or an object with three string fields.\<close>

definition reply_typed :: "js_value \<Rightarrow> bool" where
  "reply_typed d \<longleftrightarrow>
     d = JNull \<or> (is_jobj d \<and> is_jstr (get_prop d ''type'') \<and> is_jstr (get_prop d ''userInput'')
                  \<and> is_jstr (get_prop d ''response''))"

fun typed_event :: "event \<Rightarrow> bool" where
  "typed_event (GeminiReply i (HttpOk d)) = reply_typed d"
| "typed_event _ = True"

section \<open>The reply text stays a string\<close>

lemma intent_json_typed [simp]: "reply_typed (intent_json t q r)"
  by (simp add: reply_typed_def intent_json_def)

lemma typed_reply_response:
  "typed_event (GeminiReply i r) \<Longrightarrow> reply_ok (getGeminiResponse_result r) \<Longrightarrow>
   is_jstr (get_prop (getGeminiResponse_result r) ''response'')"
  by (cases r) (auto simp: reply_typed_def reply_ok_def)

lemma onresult_reply_aiText:
  "aiText (onresult_reply d w) =
     (if \<not> reply_ok d then JStr sorry_text
      else if fst (handleCommand d w) = None then get_prop d ''response'' else aiText w)"
proof -
  have "aiText (snd (handleCommand d w)) = aiText w"
    by (simp add: handleCommand_def speak_def Let_def split: sum.split)
  then show ?thesis by (auto simp: onresult_reply_def split: prod.split option.split)
qed

lemma step_aiText_str:
  assumes "step w e = Some w'" and "typed_event e" and "is_jstr (aiText w)"
  shows "is_jstr (aiText w')"
proof (cases "\<exists>i r. e = GeminiReply i r")
  case True
  then obtain i r where e: "e = GeminiReply i r" by blast
  with assms(1) have "w' = onresult_reply (getGeminiResponse_result r) (w\<lparr>pending := remove_nth i (pending w)\<rparr>)"
    by (simp split: if_splits)
  with typed_reply_response [of i r] assms(2,3) e show ?thesis by (simp add: onresult_reply_aiText)
next
  case False
  with assms show ?thesis
    by (cases e) (auto simp: handler_simps Let_def split: option.splits if_splits list.splits sum.splits)
qed

lemma run_aiText_str:
  "run w es = Some w' \<Longrightarrow> list_all typed_event es \<Longrightarrow> is_jstr (aiText w) \<Longrightarrow> is_jstr (aiText w')"
proof (induction es arbitrary: w)
  case Nil
  then show ?case by simp
next
  case (Cons e es)
  then obtain w1 where s: "step w e = Some w1" and r: "run w1 es = Some w'"
    by (auto split: option.splits)
  from s Cons.prems(2,3) have "is_jstr (aiText w1)" by (auto intro: step_aiText_str)
  with r Cons.prems(2) show ?case by (auto intro: Cons.IH)
qed

lemma render_str_caption:
  "is_jstr (aiText w) \<Longrightarrow> render w \<noteq> Inl ObjectAsChild"
  by (cases "aiText w") (auto simp: render_def Let_def split: option.splits)

section \<open>Properties\<close>

text \<open>
  Claim C19. As long as every reply has the shape the spec promises, the reply text of
  the page is a string in every state reached from a page load, so the caption never
  makes the render throw.
\<close>

theorem typed_replies_render:
  assumes "run (init_world u vs pop) es = Some w" and "list_all typed_event es"
  shows "is_jstr (aiText w) \<and> render w \<noteq> Inl ObjectAsChild"
proof -
  have "is_jstr (aiText w)"
    using run_aiText_str [OF assms] by (simp add: init_world_def)
  then show ?thesis by (simp add: render_str_caption)
qed

theorem typed_replies_render_witness:
  "\<exists>w. run (init_world (Some demo_user) [''hi-IN''] True)
     [Mount, Tick 1000, TimerFire 0, RecStart, RecResult ''tell me the weather, Max'',
      GeminiReply 0 (HttpOk (intent_json ''weather-show'' ''weather'' ''ok''))] = Some w
     \<and> aiText w = JStr ''ok'' \<and> render w \<noteq> Inl ObjectAsChild"
proof -
  have "reaches (init_world (Some demo_user) [''hi-IN''] True)
     [Mount, Tick 1000, TimerFire 0, RecStart, RecResult ''tell me the weather, Max'',
      GeminiReply 0 (HttpOk (intent_json ''weather-show'' ''weather'' ''ok''))] (\<lambda>w. aiText w = JStr ''ok'')"
    by code_simp
  then obtain w where r: "run (init_world (Some demo_user) [''hi-IN''] True)
     [Mount, Tick 1000, TimerFire 0, RecStart, RecResult ''tell me the weather, Max'',
      GeminiReply 0 (HttpOk (intent_json ''weather-show'' ''weather'' ''ok''))] = Some w"
    and a: "aiText w = JStr ''ok''" by (auto simp: reaches_iff)
  from typed_replies_render [OF r] a r show ?thesis by simp
qed

text \<open>
  Claim C20. A well-formed reply whose \<open>response\<close> is an object: when the object has
  no key \<open>toString\<close> (and the input converts), it is spoken as the text
  \<open>[object Object]\<close> and stored as the reply text with the transcript echo cleared,
  so the next render shows the object as the caption and throws; when it has one, the
  utterance constructor throws, so nothing is spoken, no window is opened, and the
  reply text and the echo stay as they were.
\<close>

theorem object_response:
  assumes "reply_ok d" and "get_prop d ''response'' = JObj kvs" and "userData w \<noteq> None"
    and "step w (GeminiReply i (HttpOk d)) = Some w'"
  shows "(''toString'' \<notin> set (map fst kvs) \<and> \<not> command_url_throws (get_prop d ''type'') (get_prop d ''userInput'')
       \<longrightarrow> render w' = Inl ObjectAsChild \<and> map utt_text (queue w') = [''[object Object]''])
    \<and> (''toString'' \<in> set (map fst kvs)
       \<longrightarrow> queue w' = queue w \<and> isSpeakingRef w' = isSpeakingRef w \<and> opened w' = opened w
           \<and> aiText w' = aiText w \<and> userText w' = userText w)"
  using assms
  by (auto simp: onresult_reply_def handleCommand_def speak_def make_utterance_def dom_string_arg_def
      js_to_string_def render_def Let_def split: if_splits option.splits)

theorem object_response_witness:
  "render (the (step awaiting_world
      (GeminiReply 0 (HttpOk (JObj [(''type'', JStr ''weather-show''), (''response'', JObj [])])))))
     = Inl ObjectAsChild
   \<and> queue (the (step awaiting_world
      (GeminiReply 0 (HttpOk (JObj [(''type'', JStr ''weather-show''),
         (''response'', JObj [(''toString'', JStr ''x'')])]))))) = queue awaiting_world"
proof -
  let ?d = "JObj [(''type'', JStr ''weather-show''), (''response'', JObj [])]"
  let ?e = "JObj [(''type'', JStr ''weather-show''), (''response'', JObj [(''toString'', JStr ''x'')])]"
  have ok: "reply_ok ?d" "reply_ok ?e" by (simp_all add: reply_ok_def)
  have r: "get_prop ?d ''response'' = JObj []" "get_prop ?e ''response'' = JObj [(''toString'', JStr ''x'')]"
    by simp_all
  have u: "userData awaiting_world \<noteq> None"
    by (simp add: awaiting_world_def listening_world_def init_world_def)
  have c: "\<not> command_url_throws (get_prop ?d ''type'') (get_prop ?d ''userInput'')"
    by (simp add: command_url_throws_def)
  obtain w' where s: "step awaiting_world (GeminiReply 0 (HttpOk ?d)) = Some w'"
    by (simp add: awaiting_world_def)
  obtain v' where t: "step awaiting_world (GeminiReply 0 (HttpOk ?e)) = Some v'"
    by (simp add: awaiting_world_def)
  from object_response [OF ok(1) r(1) u s] c have "render w' = Inl ObjectAsChild" by simp
  moreover from object_response [OF ok(2) r(2) u t] have "queue v' = queue awaiting_world" by simp
  ultimately show ?thesis using s t by simp
qed

text \<open>
  Claim C26. A search reply without \<open>userInput\<close> is not rejected: the missing field
  is converted to the string \<open>undefined\<close>, and (when the response converts, so
  that speaking it does not throw) the handler completes normally and a Google search
  for the word "undefined" is opened.
\<close>

theorem missing_input_searches_undefined:
  assumes "get_prop d ''type'' = JStr ''google-search''" and "get_prop d ''userInput'' = JUndefined"
    and "popups_allowed w" and "\<not> to_string_throws (get_prop d ''response'')"
  shows "fst (handleCommand d w) = None
    \<and> opened (snd (handleCommand d w)) = opened w @ [''https://www.google.com/search?q=undefined'']"
proof -
  have "truthy d" using assms(1) by (cases d) auto
  then have "reply_ok d" using assms(1) by (simp add: reply_ok_def)
  moreover have "encodeURIComponent ''undefined'' = ''undefined''" by code_simp
  ultimately show ?thesis
    using assms by (simp add: handleCommand_def speak_def dom_string_arg_def js_to_string_def command_url_def
        command_url_throws_def google_search_prefix_def Let_def)
qed

theorem missing_input_searches_undefined_witness:
  "opened (snd (handleCommand (JObj [(''type'', JStr ''google-search''), (''response'', JStr ''ok'')])
      listening_world)) = [''https://www.google.com/search?q=undefined'']"
proof -
  let ?d = "JObj [(''type'', JStr ''google-search''), (''response'', JStr ''ok'')]"
  have t: "get_prop ?d ''type'' = JStr ''google-search''" and i: "get_prop ?d ''userInput'' = JUndefined"
    and r: "\<not> to_string_throws (get_prop ?d ''response'')" by simp_all
  have p: "popups_allowed listening_world" by (simp add: listening_world_def init_world_def)
  from missing_input_searches_undefined [OF t i p r] show ?thesis
    by (simp add: listening_world_def init_world_def)
qed

end
