(* ===== verification/Session.thy ===== *)
theory Session
  imports UserContext
begin

text \<open>
  The session provider component \<open>UserContext\<close> of
  \<open>src/src/context/UserContext.jsx\<close> as a state machine: its four pieces of React
  state (lines 10--13), the mount effect that fetches the current user (lines 42--44
  calling \<open>handleCurrentUser\<close>, lines 16--25), the arrival of that fetch's response,
  and the setters it publishes in its context value (lines 46--57), which the other
  pages call (the sign-in page sets the user, the customize page the images, \<open>Home\<close>
  clears the user on logout). The field \<open>ctx_userData\<close> is the source's \<open>userData\<close>;
  \<open>user_fetches\<close> counts the \<open>/api/user/current\<close> requests still in flight.
\<close>

section \<open>State and context value\<close>

record provider =
  ctx_userData :: "profile option"     \<comment> \<open>line 10\<close>
  frontendImage :: js_value             \<comment> \<open>line 11\<close>
  backendImage :: js_value              \<comment> \<open>line 12\<close>
  selectedImage :: js_value             \<comment> \<open>line 13\<close>
  provider_mounted :: bool
  user_fetches :: nat

definition provider_init :: provider where
  "provider_init =
     \<lparr>ctx_userData = None, frontendImage = JNull, backendImage = JNull, selectedImage = JNull,
      provider_mounted = False, user_fetches = 0\<rparr>"

text \<open>
  The context value (lines 46--57) as far as it carries data: the server URL and the
  current state. The setters it also carries are the events \<open>SetUserData\<close>,
  \<open>SetFrontendImage\<close>, \<open>SetBackendImage\<close> and \<open>SetSelectedImage\<close> below, and
  \<open>getGeminiResponse\<close> is modelled in \<open>UserContext\<close>.
\<close>

record context_value =
  cv_serverUrl :: url
  cv_userData :: "profile option"
  cv_backendImage :: js_value
  cv_frontendImage :: js_value
  cv_selectedImage :: js_value

definition context_value :: "provider \<Rightarrow> context_value" where
  "context_value p =
     \<lparr>cv_serverUrl = serverUrl, cv_userData = ctx_userData p, cv_backendImage = backendImage p,
      cv_frontendImage = frontendImage p, cv_selectedImage = selectedImage p\<rparr>"

section \<open>Events and steps\<close>

text \<open>
  The provider's events: its mount (the effect runs once and sends the request), the
  response to that request (a profile or a failure), and a call of one of the
  published setters by a consumer.
\<close>

datatype provider_event =
    ProviderMount
  | CurrentUserResponse "profile http_result"
  | SetUserData "profile option"
  | SetFrontendImage js_value
  | SetBackendImage js_value
  | SetSelectedImage js_value

text \<open>The effect of lines 42--44: \<open>handleCurrentUser()\<close> sends its request and awaits it.\<close>

definition provider_effect :: "provider \<Rightarrow> provider" where
  "provider_effect p = p\<lparr>provider_mounted := True, user_fetches := user_fetches p + 1\<rparr>"

text \<open>The continuation of \<open>handleCurrentUser\<close> after its \<open>await\<close> (lines 19--23).\<close>

definition current_user_done :: "profile http_result \<Rightarrow> provider \<Rightarrow> provider" where
  "current_user_done r p = p\<lparr>user_fetches := user_fetches p - 1, ctx_userData := handleCurrentUser r\<rparr>"

fun provider_step :: "provider \<Rightarrow> provider_event \<Rightarrow> provider option" where
  "provider_step p ProviderMount = (if provider_mounted p then None else Some (provider_effect p))"
| "provider_step p (CurrentUserResponse r) =
     (if 0 < user_fetches p then Some (current_user_done r p) else None)"
| "provider_step p (SetUserData u) = Some (p\<lparr>ctx_userData := u\<rparr>)"
| "provider_step p (SetFrontendImage v) = Some (p\<lparr>frontendImage := v\<rparr>)"
| "provider_step p (SetBackendImage v) = Some (p\<lparr>backendImage := v\<rparr>)"
| "provider_step p (SetSelectedImage v) = Some (p\<lparr>selectedImage := v\<rparr>)"

fun provider_run :: "provider \<Rightarrow> provider_event list \<Rightarrow> provider option" where
  "provider_run p [] = Some p"
| "provider_run p (e # es) = (case provider_step p e of None \<Rightarrow> None | Some p' \<Rightarrow> provider_run p' es)"

inductive provider_reachable :: "provider \<Rightarrow> bool" where
  init: "provider_reachable provider_init"
| step: "provider_reachable p \<Longrightarrow> provider_step p e = Some p' \<Longrightarrow> provider_reachable p'"

section \<open>Proof support\<close>

definition wf_provider :: "provider \<Rightarrow> bool" where
  "wf_provider p \<longleftrightarrow> user_fetches p \<le> (if provider_mounted p then 1 else 0)"

lemma provider_step_wf: "provider_step p e = Some p' \<Longrightarrow> wf_provider p \<Longrightarrow> wf_provider p'"
  by (cases e) (auto simp: wf_provider_def provider_effect_def current_user_done_def split: if_splits)

lemma provider_reachable_wf: "provider_reachable p \<Longrightarrow> wf_provider p"
proof (induction rule: provider_reachable.induct)
  case init
  show ?case by (simp add: wf_provider_def provider_init_def)
next
  case (step p e p')
  then show ?case by (blast intro: provider_step_wf)
qed

lemma provider_run_reachable:
  "provider_reachable p \<Longrightarrow> provider_run p es = Some p' \<Longrightarrow> provider_reachable p'"
proof (induction es arbitrary: p)
  case Nil
  then show ?case by simp
next
  case (Cons e es)
  then obtain p1 where s: "provider_step p e = Some p1" and r: "provider_run p1 es = Some p'"
    by (auto split: option.splits)
  from Cons.prems(1) s have "provider_reachable p1" by (rule provider_reachable.step)
  from this r show ?case by (rule Cons.IH)
qed

section \<open>Properties\<close>

text \<open>
  Claim C29. The provider asks for the current user at most once: before its mount no
  request is in flight, afterwards at most one, and the response ends it.
\<close>

theorem provider_fetch_once:
  assumes "provider_reachable p"
  shows "user_fetches p \<le> 1 \<and> (\<not> provider_mounted p \<longrightarrow> user_fetches p = 0)"
  using provider_reachable_wf [OF assms] by (auto simp: wf_provider_def split: if_splits)

theorem provider_fetch_once_witness:
  "\<exists>p. provider_run provider_init [ProviderMount] = Some p \<and> provider_reachable p
     \<and> user_fetches p = 1 \<and> user_fetches p \<le> 1 \<and> (\<not> provider_mounted p \<longrightarrow> user_fetches p = 0)"
proof -
  have r: "provider_run provider_init [ProviderMount] = Some (provider_effect provider_init)"
    by (simp add: provider_init_def)
  then have "provider_reachable (provider_effect provider_init)"
    by (rule provider_run_reachable [OF provider_reachable.init])
  with r provider_fetch_once [of "provider_effect provider_init"] show ?thesis
    by (auto simp: provider_effect_def provider_init_def)
qed

text \<open>Calls of the published setters, which consumers may make at any time.\<close>

fun consumer_event :: "provider_event \<Rightarrow> bool" where
  "consumer_event ProviderMount = False"
| "consumer_event (CurrentUserResponse _) = False"
| "consumer_event _ = True"

lemma run_consumer_events:
  "list_all consumer_event es \<Longrightarrow> \<exists>q. provider_run p es = Some q \<and> user_fetches q = user_fetches p"
proof (induction es arbitrary: p)
  case Nil
  then show ?case by simp
next
  case (Cons e es)
  then obtain p' where s: "provider_step p e = Some p'" and f: "user_fetches p' = user_fetches p"
    by (cases e) auto
  from Cons.prems have "list_all consumer_event es" by simp
  from Cons.IH [OF this, of p'] s f show ?case by simp
qed

lemma provider_run_append:
  "provider_run p (es @ fs) = (case provider_run p es of None \<Rightarrow> None | Some q \<Rightarrow> provider_run q fs)"
  by (induction es arbitrary: p) (auto split: option.splits)

text \<open>
  Claim C30. In every reachable provider state with the current-user request in
  flight, whatever the consumers set meanwhile (a sign-in, a logout, images), the
  response overwrites \<open>userData\<close> with its own outcome: a failure signs out a user who
  signed in meanwhile, a success signs in again a user who logged out. The request is
  then finished, so nothing corrects it later.
\<close>

theorem stale_user_response:
  assumes "provider_reachable p" and "0 < user_fetches p" and "list_all consumer_event es"
  shows "\<exists>q. provider_run p (es @ [CurrentUserResponse r]) = Some q
     \<and> ctx_userData q = handleCurrentUser r \<and> user_fetches q = 0"
proof -
  from run_consumer_events [OF assms(3)] obtain q1 where r1: "provider_run p es = Some q1"
    and f: "user_fetches q1 = user_fetches p" by blast
  from provider_reachable_wf [OF assms(1)] assms(2) have "user_fetches p = 1"
    by (auto simp: wf_provider_def split: if_splits)
  with f r1 show ?thesis by (simp add: provider_run_append current_user_done_def)
qed

theorem stale_user_response_witness:
  "\<exists>q. provider_run (provider_effect provider_init)
       [SetUserData (Some (\<lparr>assistantName = ''Max'', name = ''Ketan'', assistantImage = [], history = None\<rparr>)), CurrentUserResponse HttpError] = Some q \<and> ctx_userData q = None"
proof -
  have "provider_run provider_init [ProviderMount] = Some (provider_effect provider_init)"
    by (simp add: provider_init_def)
  then have r: "provider_reachable (provider_effect provider_init)"
    by (rule provider_run_reachable [OF provider_reachable.init])
  have f: "0 < user_fetches (provider_effect provider_init)" by (simp add: provider_effect_def)
  have c: "list_all consumer_event [SetUserData (Some (\<lparr>assistantName = ''Max'', name = ''Ketan'', assistantImage = [], history = None\<rparr>))]" by simp
  have e: "[SetUserData (Some (\<lparr>assistantName = ''Max'', name = ''Ketan'', assistantImage = [], history = None\<rparr>))] @ [CurrentUserResponse HttpError]
    = [SetUserData (Some (\<lparr>assistantName = ''Max'', name = ''Ketan'', assistantImage = [], history = None\<rparr>)), CurrentUserResponse HttpError]" by simp
  have h: "handleCurrentUser (HttpError :: profile http_result) = None" by simp
  from stale_user_response [OF r f c, of HttpError] show ?thesis unfolding e h by blast
qed

text \<open>
  The context value cannot tell a profile that is still loading from a user who is
  not signed in: while the current-user request is in flight and after it has failed,
  \<open>Home\<close> reads the same value (\<open>userData\<close> is \<open>null\<close> in both).
\<close>

lemma loading_indistinct:
  "\<exists>p q. provider_run provider_init [ProviderMount] = Some p \<and> user_fetches p = 1
     \<and> provider_run provider_init [ProviderMount, CurrentUserResponse HttpError] = Some q
     \<and> user_fetches q = 0 \<and> context_value p = context_value q"
  by (simp add: provider_init_def provider_effect_def current_user_done_def context_value_def)

end
