(* ===== verification/EventLoop.thy ===== *)
theory EventLoop
  imports Home
begin

text \<open>
  The callbacks the page owes at one instant, drained. Without time passing and
  without new speech, the browser still delivers what the page's own actions have
  made due: the \<open>onstart\<close> of a recognizer that was started, the \<open>onend\<close> of one that
  was stopped, and every timer whose deadline has passed. \<open>settle\<close> delivers them one
  at a time, engine events first, until none is left; it is a
  \<open>partial_function (option)\<close>, since nothing in its equation bounds the chain (a
  handler could arm a timer that is due at once). \<open>settle_total\<close> shows that the chain
  ends, from every state, in a quiescent one reached by events of the model; the
  recovery theorems of \<open>Recovery\<close> use it. The chain is short for a simple reason:
  none of the callbacks \<open>settle\<close> delivers stops the engine, so it delivers at most
  one end event (when the engine is already stopping), and of the callbacks it runs
  only that end arms a restart. The measure below (twice the expired
  timers plus an engine rank) records this; it uses that the end's restart is not due
  at once, which holds for the source's 1000 ms.
\<close>

section \<open>Draining the due callbacks\<close>

fun first_due :: "ms \<Rightarrow> nat \<Rightarrow> ms list \<Rightarrow> nat option" where
  "first_due t i [] = None"
| "first_due t i (d # ds) = (if d \<le> t then Some i else first_due t (Suc i) ds)"

partial_function (option) settle :: "world \<Rightarrow> world option" where
  "settle w =
     (if recog w = RecStarting then
        (case step w RecStart of None \<Rightarrow> None | Some w' \<Rightarrow> settle w')
      else if recog w = RecStopping then
        (case step w RecEnd of None \<Rightarrow> None | Some w' \<Rightarrow> settle w')
      else
        (case first_due (now w) 0 (timers w) of
           None \<Rightarrow> Some w
         | Some i \<Rightarrow> (case step w (TimerFire i) of None \<Rightarrow> None | Some w' \<Rightarrow> settle w')))"

definition quiescent :: "world \<Rightarrow> bool" where
  "quiescent w \<longleftrightarrow>
     recog w \<noteq> RecStarting \<and> recog w \<noteq> RecStopping \<and> list_all (\<lambda>d. now w < d) (timers w)"

section \<open>The measure\<close>

fun rec_rank :: "rec_status \<Rightarrow> nat" where
  "rec_rank RecStarting = 1"
| "rec_rank RecStopping = 2"
| "rec_rank _ = 0"

definition due_count :: "world \<Rightarrow> nat" where
  "due_count w = length (filter (\<lambda>d. d \<le> now w) (timers w))"

definition settle_measure :: "world \<Rightarrow> nat" where
  "settle_measure w = 2 * due_count w + rec_rank (recog w)"

lemma first_due_Some:
  "first_due t i ds = Some j \<Longrightarrow> i \<le> j \<and> j - i < length ds \<and> ds ! (j - i) \<le> t"
  by (induction t i ds rule: first_due.induct) (auto split: if_splits simp: nth_Cons')

lemma first_due_None: "first_due t i ds = None \<longleftrightarrow> list_all (\<lambda>d. t < d) ds"
  by (induction t i ds rule: first_due.induct) auto

lemma filter_remove_nth_due:
  "i < length ds \<Longrightarrow> P (ds ! i) \<Longrightarrow> Suc (length (filter P (remove_nth i ds))) = length (filter P ds)"
proof -
  assume i: "i < length ds" and p: "P (ds ! i)"
  have "ds = take i ds @ ds ! i # drop (Suc i) ds" using i by (simp add: id_take_nth_drop)
  then have "length (filter P ds) = length (filter P (take i ds)) + Suc (length (filter P (drop (Suc i) ds)))"
    using p by (metis filter.simps(2) filter_append length_Cons length_append)
  then show ?thesis by (simp add: remove_nth_def)
qed

lemma startRecognition_frame:
  "timers (startRecognition w) = timers w \<and> now (startRecognition w) = now w
   \<and> (recog (startRecognition w) = recog w \<or> recog (startRecognition w) = RecStarting)"
  by (simp add: startRecognition_def recognition_start_def split: sum.splits)

text \<open>Each callback \<open>settle\<close> delivers is enabled and lowers the measure.\<close>

lemma settle_start_step:
  "recog w = RecStarting \<Longrightarrow> \<exists>w'. step w RecStart = Some w' \<and> settle_measure w' < settle_measure w"
  by (simp add: onstart_def settle_measure_def due_count_def)

lemma settle_end_step:
  "recog w = RecStopping \<Longrightarrow> \<exists>w'. step w RecEnd = Some w' \<and> settle_measure w' < settle_measure w"
  by (simp add: onend_def settle_measure_def due_count_def Let_def)

lemma settle_fire_step:
  assumes "recog w \<noteq> RecStarting" and "recog w \<noteq> RecStopping" and "first_due (now w) 0 (timers w) = Some i"
  shows "\<exists>w'. step w (TimerFire i) = Some w' \<and> settle_measure w' < settle_measure w"
proof -
  from first_due_Some [OF assms(3)] have i: "i < length (timers w)" "timers w ! i \<le> now w" by simp_all
  let ?v = "w\<lparr>timers := remove_nth i (timers w)\<rparr>"
  have d: "Suc (due_count ?v) = due_count w"
    using filter_remove_nth_due [OF i(1), of "\<lambda>d. d \<le> now w"] i(2) by (simp add: due_count_def)
  have r: "rec_rank (recog (startRecognition ?v)) \<le> 1"
    using startRecognition_frame [of ?v] assms(1,2) by (cases "recog w") auto
  have "due_count (startRecognition ?v) = due_count ?v"
    using startRecognition_frame [of ?v] by (simp add: due_count_def)
  with d r i show ?thesis by (simp add: settle_measure_def)
qed

lemma run_Cons_Some: "step w e = Some w1 \<Longrightarrow> run w1 es = Some w' \<Longrightarrow> run w (e # es) = Some w'"
  by simp

section \<open>Termination\<close>

lemma settle_total:
  "\<exists>w'. settle w = Some w' \<and> quiescent w' \<and> (\<exists>es. run w es = Some w')"
proof (induction "settle_measure w" arbitrary: w rule: less_induct)
  case less
  have next_step: "\<exists>w'. settle w = Some w' \<and> quiescent w' \<and> (\<exists>es. run w es = Some w')"
    if s: "step w e = Some w1" and m: "settle_measure w1 < settle_measure w"
      and eq: "settle w = settle w1" for e w1
  proof -
    from less [OF m] obtain w' es where "settle w1 = Some w'" "quiescent w'" "run w1 es = Some w'"
      by blast
    with s eq show ?thesis by (metis run_Cons_Some)
  qed
  consider (starting) "recog w = RecStarting" | (stopping) "recog w = RecStopping"
    | (idle) "recog w \<noteq> RecStarting" "recog w \<noteq> RecStopping" "first_due (now w) 0 (timers w) = None"
    | (due) i where "recog w \<noteq> RecStarting" "recog w \<noteq> RecStopping" "first_due (now w) 0 (timers w) = Some i"
    by (cases "first_due (now w) 0 (timers w)") auto
  then show ?case
  proof cases
    case starting
    with settle_start_step obtain w1 where "step w RecStart = Some w1" and "settle_measure w1 < settle_measure w"
      by blast
    moreover from starting this(1) have "settle w = settle w1" by (simp add: settle.simps [of w])
    ultimately show ?thesis by (rule next_step)
  next
    case stopping
    with settle_end_step obtain w1 where "step w RecEnd = Some w1" and "settle_measure w1 < settle_measure w"
      by blast
    moreover from stopping this(1) have "settle w = settle w1" by (simp add: settle.simps [of w])
    ultimately show ?thesis by (rule next_step)
  next
    case idle
    then have "settle w = Some w" by (simp add: settle.simps [of w])
    moreover have "quiescent w" using idle first_due_None [of "now w" 0 "timers w"] by (simp add: quiescent_def)
    moreover have "run w [] = Some w" by simp
    ultimately show ?thesis by blast
  next
    case due
    with settle_fire_step obtain w1 where "step w (TimerFire i) = Some w1" and "settle_measure w1 < settle_measure w"
      by blast
    moreover from due this(1) have "settle w = settle w1" by (simp add: settle.simps [of w])
    ultimately show ?thesis by (rule next_step)
  qed
qed


text \<open>
  Every state \<open>settle\<close> passes through is one it reaches by an engine callback it owes
  or a due timer: an invariant of those three kinds of step holds of its result.
\<close>

lemma settle_preserves:
  assumes ret: "settle w = Some w'" and p: "P w"
    and start: "\<And>v v'. P v \<Longrightarrow> recog v = RecStarting \<Longrightarrow> step v RecStart = Some v' \<Longrightarrow> P v'"
    and stop: "\<And>v v'. P v \<Longrightarrow> recog v = RecStopping \<Longrightarrow> step v RecEnd = Some v' \<Longrightarrow> P v'"
    and fire: "\<And>v i v'. P v \<Longrightarrow> recog v \<noteq> RecStarting \<Longrightarrow> recog v \<noteq> RecStopping \<Longrightarrow>
       step v (TimerFire i) = Some v' \<Longrightarrow> P v'"
  shows "P w'"
proof -
  have "P w \<longrightarrow> P w'"
  proof (rule settle.raw_induct [where P = "\<lambda>w w'. P w \<longrightarrow> P w'", OF _ ret])
    fix f v v'
    assume ih: "\<And>v v'. f v = Some v' \<Longrightarrow> P v \<longrightarrow> P v'"
      and eq: "(if recog v = RecStarting then (case step v RecStart of None \<Rightarrow> None | Some w' \<Rightarrow> f w')
        else if recog v = RecStopping then (case step v RecEnd of None \<Rightarrow> None | Some w' \<Rightarrow> f w')
        else (case first_due (now v) 0 (timers v) of None \<Rightarrow> Some v
          | Some i \<Rightarrow> (case step v (TimerFire i) of None \<Rightarrow> None | Some w' \<Rightarrow> f w'))) = Some v'"
    show "P v \<longrightarrow> P v'"
    proof
      assume pv: "P v"
      consider (st) v1 where "recog v = RecStarting" "step v RecStart = Some v1" "f v1 = Some v'"
        | (sp) v1 where "recog v = RecStopping" "step v RecEnd = Some v1" "f v1 = Some v'"
        | (q) "v' = v"
        | (fi) i v1 where "recog v \<noteq> RecStarting" "recog v \<noteq> RecStopping"
            "step v (TimerFire i) = Some v1" "f v1 = Some v'"
        using eq by (auto simp del: step.simps split: if_splits option.splits)
      then show "P v'"
      proof cases
        case st
        then show ?thesis using ih [OF st(3)] start [OF pv st(1,2)] by blast
      next
        case sp
        then show ?thesis using ih [OF sp(3)] stop [OF pv sp(1,2)] by blast
      next
        case q
        then show ?thesis using pv by simp
      next
        case fi
        then show ?thesis using ih [OF fi(4)] fire [OF pv fi(1-3)] by blast
      qed
    qed
  qed
  with p show ?thesis by blast
qed

end
