(* ===== verification/Recovery.thy ===== *)
theory Recovery
  imports EventLoop Invariants
begin

text \<open>
  The spec's promise that the interaction loop heals itself until teardown (section
  7): no fault stops capture for good. The coordinator owns no loop; capture comes back
  only through the restarts its handlers schedule. \<open>wf_restart\<close> states why one is
  always on its way: while the page is mounted, an idle engine with the speaking flag
  clear always has a restart pending, and an active engine has both flags set. The
  environment then only has to be fair in the sense the spec assumes: every owed
  synthesis end arrives, every owed engine callback and every due timer is delivered,
  and time passes. \<open>recover\<close> is that schedule, made explicit: all synthesis ends,
  the callbacks due now, 1000 ms, the callbacks due then.
\<close>

section \<open>The restart invariant\<close>

lemma recognition_stop_not_active [simp]: "recognition_stop r \<noteq> RecActive"
  by (cases r) auto

definition wf_restart :: "world \<Rightarrow> bool" where
  "wf_restart w \<longleftrightarrow>
     (isMounted w \<and> recog w = RecIdle \<and> \<not> isSpeakingRef w \<longrightarrow> timers w \<noteq> [])
     \<and> (recog w = RecActive \<longrightarrow> isRecognizingRef w \<and> listening w)"

lemma handleCommand_frame:
  "recog (snd (handleCommand d w)) = recog w \<and> isMounted (snd (handleCommand d w)) = isMounted w
   \<and> timers (snd (handleCommand d w)) = timers w
   \<and> isRecognizingRef (snd (handleCommand d w)) = isRecognizingRef w
   \<and> listening (snd (handleCommand d w)) = listening w
   \<and> (isSpeakingRef w \<longrightarrow> isSpeakingRef (snd (handleCommand d w)))"
  by (simp add: handleCommand_def speak_def Let_def split: sum.split)

lemma onresult_reply_frame:
  "recog (onresult_reply d w) = recog w \<and> isMounted (onresult_reply d w) = isMounted w
   \<and> timers (onresult_reply d w) = timers w \<and> isRecognizingRef (onresult_reply d w) = isRecognizingRef w
   \<and> listening (onresult_reply d w) = listening w
   \<and> (isSpeakingRef w \<longrightarrow> isSpeakingRef (onresult_reply d w))"
  using handleCommand_frame [of d w] by (auto simp: onresult_reply_def split: prod.split option.split)

lemma step_wf_restart:
  assumes s: "step w e = Some w'" and r: "isRecognizingRef w \<longrightarrow> recog w \<noteq> RecIdle"
    and m: "isMounted w \<longrightarrow> recognitionRef w" and i: "wf_restart w"
  shows "wf_restart w'"
  using s i
proof (cases e)
  case Mount
  with s i show ?thesis by (auto simp: wf_restart_def home_effect_def split: option.splits if_splits)
next
  case (TimerFire k)
  with s i r m show ?thesis
    by (auto simp: wf_restart_def startRecognition_def recognition_start_def split: if_splits sum.splits)
next
  case RecStart
  with s i show ?thesis by (auto simp: wf_restart_def onstart_def split: if_splits)
next
  case (RecResult raw)
  with s i show ?thesis by (auto simp: wf_restart_def onresult_def Let_def split: if_splits option.splits)
next
  case (RecError err)
  with s i show ?thesis by (auto simp: wf_restart_def onerror_def Let_def split: if_splits)
next
  case RecEnd
  with s i show ?thesis by (auto simp: wf_restart_def onend_def Let_def split: if_splits)
next
  case (GeminiReply k d)
  with s i onresult_reply_frame [of _ "w\<lparr>pending := remove_nth k (pending w)\<rparr>"] show ?thesis
    by (auto simp: wf_restart_def split: if_splits)
next
  case SynthEnd
  with s i show ?thesis by (auto simp: wf_restart_def utterance_onend_def split: list.splits if_splits)
next
  case SynthInterruptedEnd
  with s i show ?thesis by (auto simp: wf_restart_def utterance_onend_def split: if_splits)
qed (auto simp: wf_restart_def cleanup_def handleLogOut_def customize_def split: if_splits)

lemma reachable_wf_restart: "reachable w \<Longrightarrow> wf_restart w"
proof (induction rule: reachable.induct)
  case (init u vs pop)
  show ?case by (simp add: wf_restart_def init_world_def)
next
  case (step w e w')
  from reachable_wf [OF step.hyps(1)] have "isRecognizingRef w \<longrightarrow> recog w \<noteq> RecIdle"
    "isMounted w \<longrightarrow> recognitionRef w" by (auto simp: wf_defs)
  from step.hyps(2) this step.IH show ?case by (rule step_wf_restart)
qed

section \<open>A fair schedule\<close>

text \<open>Every synthesis end still owed: the interrupted utterances', then the queue's.\<close>

definition speech_done :: "world \<Rightarrow> event list" where
  "speech_done w = replicate (interrupted w) SynthInterruptedEnd @ replicate (length (queue w)) SynthEnd"

definition recover :: "world \<Rightarrow> world option" where
  "recover w =
     (case run w (speech_done w) of
        None \<Rightarrow> None
      | Some w1 \<Rightarrow>
          (case settle w1 of
             None \<Rightarrow> None
           | Some w2 \<Rightarrow> (case step w2 (Tick 1000) of None \<Rightarrow> None | Some w3 \<Rightarrow> settle w3)))"

section \<open>Lemmas\<close>

lemma run_interrupted_ends:
  "interrupted w = n \<Longrightarrow> \<exists>w'. run w (replicate n SynthInterruptedEnd) = Some w'
     \<and> interrupted w' = 0 \<and> queue w' = queue w \<and> isMounted w' = isMounted w \<and> now w' = now w
     \<and> recognitionRef w' = recognitionRef w \<and> timers w' = timers w @ replicate n (now w + 800)"
proof (induction n arbitrary: w)
  case 0
  then show ?case by simp
next
  case (Suc n)
  let ?v = "utterance_onend (w\<lparr>interrupted := n\<rparr>)"
  have s: "step w SynthInterruptedEnd = Some ?v" using Suc.prems by simp
  have "interrupted ?v = n" by (simp add: utterance_onend_def)
  from Suc.IH [OF this] s show ?case by (auto simp: utterance_onend_def)
qed

lemma run_synth_ends:
  "queue w = q \<Longrightarrow> \<exists>w'. run w (replicate (length q) SynthEnd) = Some w'
     \<and> queue w' = [] \<and> interrupted w' = interrupted w \<and> isMounted w' = isMounted w \<and> now w' = now w
     \<and> recognitionRef w' = recognitionRef w
     \<and> timers w' = timers w @ replicate (cancelled_ends q) (now w + 800)"
proof (induction q arbitrary: w)
  case Nil
  then show ?case by (simp add: cancelled_ends_def)
next
  case (Cons u q)
  let ?v = "if utt_onend u then utterance_onend (w\<lparr>queue := q\<rparr>) else w\<lparr>queue := q\<rparr>"
  have s: "step w SynthEnd = Some ?v" using Cons.prems by simp
  have "queue ?v = q" by (simp add: utterance_onend_def)
  from Cons.IH [OF this] s show ?case by (auto simp: utterance_onend_def cancelled_ends_def)
qed

lemma run_speech_done:
  "\<exists>w'. run w (speech_done w) = Some w' \<and> queue w' = [] \<and> interrupted w' = 0
     \<and> isMounted w' = isMounted w \<and> now w' = now w \<and> recognitionRef w' = recognitionRef w
     \<and> timers w' = timers w @ replicate (interrupted w + cancelled_ends (queue w)) (now w + 800)"
proof -
  obtain w1 where r1: "run w (replicate (interrupted w) SynthInterruptedEnd) = Some w1"
    and h1: "interrupted w1 = 0" "queue w1 = queue w" "isMounted w1 = isMounted w" "now w1 = now w"
      "recognitionRef w1 = recognitionRef w" "timers w1 = timers w @ replicate (interrupted w) (now w + 800)"
    using run_interrupted_ends [of w "interrupted w", OF refl] by blast
  obtain w2 where r2: "run w1 (replicate (length (queue w)) SynthEnd) = Some w2"
    and h2: "queue w2 = []" "interrupted w2 = interrupted w1" "isMounted w2 = isMounted w1" "now w2 = now w1"
      "recognitionRef w2 = recognitionRef w1"
      "timers w2 = timers w1 @ replicate (cancelled_ends (queue w)) (now w1 + 800)"
    using run_synth_ends [of w1 "queue w", OF h1(2)] by blast
  from r1 r2 have "run w (speech_done w) = Some w2" by (simp add: speech_done_def run_append)
  with h1 h2 show ?thesis by (simp add: replicate_add)
qed

text \<open>The callbacks \<open>settle\<close> delivers leave the mount, the speaking flag and the clock alone.\<close>

lemma settle_step_frame:
  "step v e = Some v' \<Longrightarrow> e = RecStart \<or> e = RecEnd \<or> e = TimerFire i \<Longrightarrow>
   isMounted v' = isMounted v \<and> isSpeakingRef v' = isSpeakingRef v \<and> now v' = now v"
  by (auto simp: handler_simps Let_def split: if_splits sum.splits)

definition calm :: "ms \<Rightarrow> world \<Rightarrow> bool" where
  "calm t v \<longleftrightarrow> reachable v \<and> isMounted v \<and> \<not> isSpeakingRef v \<and> now v = t"

lemma step_calm:
  "step v e = Some v' \<Longrightarrow> e = RecStart \<or> e = RecEnd \<or> e = TimerFire i \<Longrightarrow> calm t v \<Longrightarrow> calm t v'"
  using settle_step_frame [of v e v' i] reachable.step [of v e v'] by (simp add: calm_def)

lemma settle_calm:
  assumes "settle v = Some v'" and "calm t v"
  shows "calm t v'"
  using assms
proof (rule settle_preserves)
  fix u u' assume "calm t u" "step u RecStart = Some u'"
  then show "calm t u'" by (blast intro: step_calm)
next
  fix u u' assume "calm t u" "step u RecEnd = Some u'"
  then show "calm t u'" by (blast intro: step_calm)
next
  fix u i u' assume "calm t u" "step u (TimerFire i) = Some u'"
  then show "calm t u'" by (blast intro: step_calm)
qed

text \<open>After the wait every pending restart is due, and the engine is not stopping.\<close>

definition ripe :: "ms \<Rightarrow> world \<Rightarrow> bool" where
  "ripe t v \<longleftrightarrow> calm t v \<and> recog v \<noteq> RecStopping \<and> list_all (\<lambda>d. d \<le> t) (timers v)"

lemma settle_ripe:
  assumes "settle v = Some v'" and "ripe t v"
  shows "ripe t v'"
  using assms
proof (rule settle_preserves)
  fix u u' assume r: "ripe t u" and s: "step u RecStart = Some u'"
  have "calm t u" using r by (simp add: ripe_def)
  with s have "calm t u'" using step_calm [of u RecStart u'] by simp
  with r s show "ripe t u'" by (auto simp: ripe_def onstart_def split: if_splits)
next
  fix u u' assume "ripe t u" "recog u = RecStopping"
  then show "ripe t u'" by (simp add: ripe_def)
next
  fix u i u' assume r: "ripe t u" and s: "step u (TimerFire i) = Some u'"
    and "recog u \<noteq> RecStarting" "recog u \<noteq> RecStopping"
  have "calm t u" using r by (simp add: ripe_def)
  with s have "calm t u'" using step_calm [of u "TimerFire i" u' i] by simp
  moreover from s have "u' = startRecognition (u\<lparr>timers := remove_nth i (timers u)\<rparr>)"
    by (simp split: if_splits)
  ultimately show "ripe t u'" using r startRecognition_frame [of "u\<lparr>timers := remove_nth i (timers u)\<rparr>"]
    by (auto simp: ripe_def list_all_iff dest!: remove_nth_in)
qed

lemma ripe_quiescent_active:
  assumes "ripe t v" and "quiescent v"
  shows "recog v = RecActive \<and> isRecognizingRef v \<and> listening v"
proof -
  from assms have "timers v = []" by (cases "timers v") (auto simp: ripe_def calm_def quiescent_def)
  moreover from assms(1) have "wf_restart v" "isMounted v" "\<not> isSpeakingRef v"
    by (auto simp: ripe_def calm_def intro: reachable_wf_restart)
  ultimately have "recog v \<noteq> RecIdle" by (auto simp: wf_restart_def)
  with assms(2) have "recog v = RecActive" by (cases "recog v") (auto simp: quiescent_def)
  with \<open>wf_restart v\<close> show ?thesis by (simp add: wf_restart_def)
qed

section \<open>Self-healing\<close>

text \<open>
  Claim C1. The interaction loop heals itself until teardown: from every reachable
  state in which the page is mounted, whatever faults, stops, interrupted utterances
  and absorbed starts came before, once speech synthesis has delivered every end it
  owes, the engine's owed callbacks and the due timers have run, and 1000 ms have
  passed with their callbacks delivered, the recognizer is capturing again, with the
  recognizing flag and the listening indicator on.
\<close>

theorem self_healing:
  assumes "reachable w" and "isMounted w"
  shows "\<exists>w'. recover w = Some w' \<and> recog w' = RecActive \<and> isRecognizingRef w' \<and> listening w'
    \<and> isMounted w' \<and> now w' = now w + 1000"
proof -
  obtain w1 where r1: "run w (speech_done w) = Some w1" and h0: "queue w1 = []" "isMounted w1 = isMounted w"
    "now w1 = now w"
    using run_speech_done [of w] by blast
  with assms(2) have h1: "queue w1 = []" "isMounted w1" "now w1 = now w" by simp_all
  have re1: "reachable w1" by (rule run_reachable [OF assms(1) r1])
  with h1(1) have "\<not> isSpeakingRef w1" by (auto dest!: reachable_wf simp: wf_defs)
  with re1 h1 have c1: "calm (now w) w1" by (simp add: calm_def)
  obtain w2 where s2: "settle w1 = Some w2" and q2: "quiescent w2" using settle_total [of w1] by blast
  have c2: "calm (now w) w2" by (rule settle_calm [OF s2 c1])
  let ?w3 = "w2\<lparr>now := now w2 + 1000\<rparr>"
  have s3: "step w2 (Tick 1000) = Some ?w3" by simp
  have "list_all (\<lambda>d. d \<le> now w2 + 1000) (timers w2)"
    using c2 by (auto dest!: reachable_wf simp: calm_def wf_defs)
  with c2 q2 reachable.step [OF _ s3] have "ripe (now w + 1000) ?w3"
    by (simp add: ripe_def calm_def quiescent_def)
  moreover obtain w4 where s4: "settle ?w3 = Some w4" and q4: "quiescent w4" using settle_total [of ?w3] by blast
  ultimately have "ripe (now w + 1000) w4" by (blast intro: settle_ripe)
  then have "isMounted w4 \<and> now w4 = now w + 1000" by (simp add: ripe_def calm_def)
  moreover from \<open>ripe (now w + 1000) w4\<close> q4
  have "recog w4 = RecActive \<and> isRecognizingRef w4 \<and> listening w4" by (rule ripe_quiescent_active)
  moreover have "recover w = Some w4" by (simp add: recover_def r1 s2 s4)
  ultimately show ?thesis by blast
qed

theorem self_healing_witness:
  "\<exists>w. run (init_world (Some demo_user) [''hi-IN''] True)
       [Mount, Tick 1000, TimerFire 0, RecStart, RecResult ''tell me the weather, Max'',
        GeminiReply 0 (HttpOk (intent_json ''weather-show'' ''weather'' ''ok''))] = Some w
     \<and> recog w = RecStopping \<and> isSpeakingRef w
     \<and> (\<exists>w'. recover w = Some w' \<and> recog w' = RecActive \<and> listening w')"
proof -
  have "reaches (init_world (Some demo_user) [''hi-IN''] True)
       [Mount, Tick 1000, TimerFire 0, RecStart, RecResult ''tell me the weather, Max'',
        GeminiReply 0 (HttpOk (intent_json ''weather-show'' ''weather'' ''ok''))]
       (\<lambda>w. isMounted w \<and> recog w = RecStopping \<and> isSpeakingRef w)"
    by code_simp
  then obtain w where r: "run (init_world (Some demo_user) [''hi-IN''] True)
       [Mount, Tick 1000, TimerFire 0, RecStart, RecResult ''tell me the weather, Max'',
        GeminiReply 0 (HttpOk (intent_json ''weather-show'' ''weather'' ''ok''))] = Some w"
    and h: "isMounted w" "recog w = RecStopping" "isSpeakingRef w" by (auto simp: reaches_iff)
  from self_healing [OF init_run_reachable [OF r] h(1)] r h show ?thesis by blast
qed

section \<open>Revival after teardown\<close>

text \<open>
  After teardown the same schedule still restarts capture: the cleanup clears no timer,
  \<open>startRecognition\<close> does not read \<open>isMounted\<close>, and an utterance's end
  schedules a restart whether or not the page is mounted. \<open>armed\<close> is what carries
  this through \<open>settle\<close>: a torn-down page, not speaking, whose recognizer is starting
  or active or has a restart pending.
\<close>

definition armed :: "world \<Rightarrow> bool" where
  "armed v \<longleftrightarrow> reachable v \<and> \<not> isMounted v \<and> \<not> isSpeakingRef v \<and> recognitionRef v
     \<and> (timers v \<noteq> [] \<or> recog v = RecStarting \<or> recog v = RecActive)"

lemma step_armed_frame:
  "step v e = Some v' \<Longrightarrow> e = RecStart \<or> e = RecEnd \<or> e = TimerFire i \<Longrightarrow> armed v \<Longrightarrow>
   reachable v' \<and> \<not> isMounted v' \<and> \<not> isSpeakingRef v' \<and> recognitionRef v' \<and> now v' = now v"
  using settle_step_frame [of v e v' i] step_keeps_ref [of v e v'] reachable.step [of v e v']
  by (auto simp: armed_def)

lemma start_armed:
  assumes "armed u" and "step u RecStart = Some u'"
  shows "armed u' \<and> recog u' = RecActive \<and> timers u' = timers u"
proof -
  from assms(2) have "recog u' = RecActive" "timers u' = timers u" by (auto simp: onstart_def split: if_splits)
  with step_armed_frame [of u RecStart u' 0] assms show ?thesis by (simp add: armed_def)
qed

lemma end_armed:
  assumes "armed u" and "recog u = RecStopping" and "step u RecEnd = Some u'"
  shows "armed u'"
proof -
  from assms(1,2) have "timers u \<noteq> []" by (auto simp: armed_def)
  moreover from assms(3) have "set (timers u) \<subseteq> set (timers u')" by (auto simp: onend_def Let_def split: if_splits)
  ultimately have "timers u' \<noteq> []" by auto
  with step_armed_frame [of u RecEnd u' 0] assms(1,3) show ?thesis by (simp add: armed_def)
qed

lemma fire_armed:
  assumes "armed u" and "step u (TimerFire i) = Some u'" and "recog u \<noteq> RecStarting" and "recog u \<noteq> RecStopping"
  shows "armed u' \<and> recog u' \<noteq> RecStopping \<and> set (timers u') \<subseteq> set (timers u)"
proof -
  from assms(2) have u': "u' = startRecognition (u\<lparr>timers := remove_nth i (timers u)\<rparr>)"
    by (simp split: if_splits)
  from assms(1) have "isRecognizingRef u \<longrightarrow> recog u = RecActive \<or> recog u = RecStopping"
    by (auto simp: armed_def dest!: reachable_wf simp: wf_defs)
  with assms(1,3,4) u' have "recog u' = RecStarting \<or> recog u' = RecActive"
    by (cases "recog u") (auto simp: armed_def startRecognition_def recognition_start_def)
  moreover from u' have "set (timers u') \<subseteq> set (timers u)"
    by (auto simp: startRecognition_def recognition_start_def split: sum.splits dest: remove_nth_in)
  ultimately show ?thesis using step_armed_frame [of u "TimerFire i" u' i] assms(1,2) by (auto simp: armed_def)
qed

lemma settle_armed:
  assumes "settle v = Some v'" and "armed v"
  shows "armed v'"
  using assms
proof (rule settle_preserves)
  fix u u' assume "armed u" "step u RecStart = Some u'"
  then show "armed u'" by (blast dest: start_armed)
next
  fix u u' assume "armed u" "recog u = RecStopping" "step u RecEnd = Some u'"
  then show "armed u'" by (rule end_armed)
next
  fix u i u' assume "armed u" "recog u \<noteq> RecStarting" "recog u \<noteq> RecStopping" "step u (TimerFire i) = Some u'"
  then show "armed u'" by (blast dest: fire_armed)
qed

definition armed_due :: "ms \<Rightarrow> world \<Rightarrow> bool" where
  "armed_due t v \<longleftrightarrow> armed v \<and> now v = t \<and> recog v \<noteq> RecStopping \<and> list_all (\<lambda>d. d \<le> t) (timers v)"

lemma settle_armed_due:
  assumes "settle v = Some v'" and "armed_due t v"
  shows "armed_due t v'"
  using assms
proof (rule settle_preserves)
  fix u u' assume a: "armed_due t u" and s: "step u RecStart = Some u'"
  with start_armed [of u u'] step_armed_frame [of u RecStart u' 0] show "armed_due t u'"
    by (auto simp: armed_due_def)
next
  fix u u' assume "armed_due t u" "recog u = RecStopping"
  then show "armed_due t u'" by (simp add: armed_due_def)
next
  fix u i u' assume a: "armed_due t u" and s: "step u (TimerFire i) = Some u'"
    and r: "recog u \<noteq> RecStarting" "recog u \<noteq> RecStopping"
  with fire_armed [of u i u'] step_armed_frame [of u "TimerFire i" u' i] show "armed_due t u'"
    by (auto simp: armed_due_def list_all_iff)
qed

text \<open>
  Claim C10. Teardown does not end the loop: in every reachable state after teardown in
  which a restart is pending or an utterance still owes its end, the recovery schedule
  (every owed synthesis end, the callbacks due, 1000 ms, the callbacks due then)
  leaves the recognizer capturing and the listening indicator on, with the page
  unmounted. The spec requires that nothing fires after teardown.
\<close>

theorem teardown_revives:
  assumes "reachable w" and "\<not> isMounted w" and "recognitionRef w"
    and "timers w \<noteq> [] \<or> list_ex utt_onend (queue w) \<or> 0 < interrupted w"
  shows "\<exists>w'. recover w = Some w' \<and> recog w' = RecActive \<and> listening w' \<and> \<not> isMounted w'"
proof -
  obtain w1 where r1: "run w (speech_done w) = Some w1" and h0: "queue w1 = []" "isMounted w1 = isMounted w"
    "recognitionRef w1 = recognitionRef w"
    "timers w1 = timers w @ replicate (interrupted w + cancelled_ends (queue w)) (now w + 800)"
    using run_speech_done [of w] by blast
  from assms(4) have "timers w \<noteq> [] \<or> 0 < interrupted w + cancelled_ends (queue w)"
    by (auto simp: cancelled_ends_def list_ex_iff filter_empty_conv)
  with h0 assms(2,3) have h1: "queue w1 = []" "\<not> isMounted w1" "recognitionRef w1" "timers w1 \<noteq> []"
    by auto
  have re1: "reachable w1" by (rule run_reachable [OF assms(1) r1])
  with h1(1) have "\<not> isSpeakingRef w1" by (auto dest!: reachable_wf simp: wf_defs)
  with re1 h1 have a1: "armed w1" by (simp add: armed_def)
  obtain w2 where s2: "settle w1 = Some w2" and q2: "quiescent w2" using settle_total [of w1] by blast
  have a2: "armed w2" by (rule settle_armed [OF s2 a1])
  let ?w3 = "w2\<lparr>now := now w2 + 1000\<rparr>"
  have s3: "step w2 (Tick 1000) = Some ?w3" by simp
  have "list_all (\<lambda>d. d \<le> now w2 + 1000) (timers w2)"
    using a2 by (auto dest!: reachable_wf simp: armed_def wf_defs)
  with a2 q2 reachable.step [OF _ s3] have "armed_due (now w2 + 1000) ?w3"
    by (simp add: armed_due_def armed_def quiescent_def)
  moreover obtain w4 where s4: "settle ?w3 = Some w4" and q4: "quiescent w4" using settle_total [of ?w3] by blast
  ultimately have a4: "armed_due (now w2 + 1000) w4" by (blast intro: settle_armed_due)
  with q4 have "timers w4 = []" by (cases "timers w4") (auto simp: armed_due_def quiescent_def)
  with a4 q4 have act: "recog w4 = RecActive" by (auto simp: armed_due_def armed_def quiescent_def)
  from a4 have "wf_restart w4" "\<not> isMounted w4" by (auto simp: armed_due_def armed_def intro: reachable_wf_restart)
  with act have "listening w4" "\<not> isMounted w4" by (simp_all add: wf_restart_def)
  moreover have "recover w = Some w4" by (simp add: recover_def r1 s2 s4)
  ultimately show ?thesis using act by blast
qed

theorem teardown_revives_witness:
  "\<exists>w w'. run (init_world (Some demo_user) [''hi-IN''] True) [Mount, Unmount] = Some w
     \<and> recover w = Some w' \<and> recog w' = RecActive \<and> \<not> isMounted w'"
proof -
  have "reaches (init_world (Some demo_user) [''hi-IN''] True) [Mount, Unmount]
       (\<lambda>w. \<not> isMounted w \<and> recognitionRef w \<and> timers w \<noteq> [])"
    by code_simp
  then obtain w where r: "run (init_world (Some demo_user) [''hi-IN''] True) [Mount, Unmount] = Some w"
    and h: "\<not> isMounted w" "recognitionRef w" "timers w \<noteq> []" by (auto simp: reaches_iff)
  from teardown_revives [OF init_run_reachable [OF r] h(1,2)] h(3) r show ?thesis by blast
qed

end
