(* ===== verification/App.thy ===== *)
theory App
  imports Session View Recovery
begin

text \<open>
  The session provider and the \<open>Home\<close> page together. \<open>Home\<close> reads \<open>userData\<close>
  from the provider's context value (\<open>Home.jsx\<close>, line 11) and writes it through the
  published setter on logout (lines 25 and 28). The composed state pairs the two
  components; a provider event is followed by the re-render of \<open>Home\<close> with the new
  context value, and a page event that calls the setter writes the provider's state.
  The page is the page of a fresh load (no user, nothing mounted) until its mount.
\<close>

record app =
  prov :: provider
  page :: world

datatype app_event = ProvEv provider_event | PageEv event

definition app_init :: "js_string list \<Rightarrow> bool \<Rightarrow> app" where
  "app_init vs pop = \<lparr>prov = provider_init, page = init_world None vs pop\<rparr>"

fun app_step :: "app \<Rightarrow> app_event \<Rightarrow> app option" where
  "app_step a (ProvEv e) =
     (case provider_step (prov a) e of
        None \<Rightarrow> None
      | Some p \<Rightarrow> Some \<lparr>prov = p, page = (page a)\<lparr>userData := ctx_userData p\<rparr>\<rparr>)"
| "app_step a (PageEv e) =
     (case step (page a) e of
        None \<Rightarrow> None
      | Some w \<Rightarrow> Some \<lparr>prov = (prov a)\<lparr>ctx_userData := userData w\<rparr>, page = w\<rparr>)"

fun app_run :: "app \<Rightarrow> app_event list \<Rightarrow> app option" where
  "app_run a [] = Some a"
| "app_run a (e # es) = (case app_step a e of None \<Rightarrow> None | Some a' \<Rightarrow> app_run a' es)"

inductive app_reachable :: "app \<Rightarrow> bool" where
  init: "app_reachable (app_init vs pop)"
| step: "app_reachable a \<Longrightarrow> app_step a e = Some a' \<Longrightarrow> app_reachable a'"

section \<open>The page's invariants under the provider\<close>

text \<open>
  The coordinator's invariants, all of which read the profile the effect captured
  (\<open>effect_user\<close>) and none the context's \<open>userData\<close>: so the provider may write
  \<open>userData\<close> at any time without breaking them.
\<close>

definition coord_inv :: "world \<Rightarrow> bool" where
  "coord_inv w \<longleftrightarrow> wf w \<and> wf_restart w \<and> wf_requests w \<and> wf_opened w \<and> wf_windows w"

lemma coord_inv_userData [simp]: "coord_inv (w\<lparr>userData := u\<rparr>) = coord_inv w"
  by (simp add: coord_inv_def wf_defs wf_restart_def wf_requests_def wf_opened_def wf_windows_def
      split: option.split)

lemma init_coord_inv: "coord_inv (init_world u vs pop)"
  using init_wf [of u vs pop]
  by (simp add: coord_inv_def wf_restart_def wf_requests_def wf_opened_def wf_windows_def)
     (simp add: init_world_def)

lemma step_coord_inv: "step w e = Some w' \<Longrightarrow> coord_inv w \<Longrightarrow> coord_inv w'"
  unfolding coord_inv_def
proof (elim conjE, intro conjI)
  assume s: "step w e = Some w'" and "wf w" "wf_restart w" "wf_requests w" "wf_opened w" "wf_windows w"
  then show "wf w'" "wf_opened w'" "wf_windows w'"
    by (blast intro: step_wf step_wf_opened step_wf_windows)+
  from \<open>wf w\<close> have "isRecognizingRef w \<longrightarrow> recog w \<noteq> RecIdle" "isMounted w \<longrightarrow> recognitionRef w" "wf_mount w"
    by (auto simp: wf_defs)
  with s \<open>wf_restart w\<close> \<open>wf_requests w\<close> show "wf_restart w'" "wf_requests w'"
    by (blast intro: step_wf_restart step_wf_requests)+
qed

lemma app_run_reachable: "app_reachable a \<Longrightarrow> app_run a es = Some a' \<Longrightarrow> app_reachable a'"
proof (induction es arbitrary: a)
  case Nil
  then show ?case by simp
next
  case (Cons e es)
  then obtain a1 where s: "app_step a e = Some a1" and r: "app_run a1 es = Some a'"
    by (auto split: option.splits)
  from Cons.prems(1) s have "app_reachable a1" by (rule app_reachable.step)
  from this r show ?case by (rule Cons.IH)
qed

section \<open>Properties\<close>

text \<open>
  When the initial current-user request fails only after the user has
  signed in through another page and \<open>Home\<close> has mounted, the failure clears the
  profile under the mounted page, and the next render of \<open>Home\<close> throws.
\<close>

theorem stale_failure_crashes_home:
  "\<exists>a. app_run (app_init [''hi-IN''] True)
       [ProvEv ProviderMount, ProvEv (SetUserData (Some demo_user)), PageEv Mount,
        ProvEv (CurrentUserResponse HttpError)] = Some a
     \<and> isMounted (page a) \<and> ctx_userData (prov a) = None \<and> render (page a) = Inl TypeError"
  by (simp add: app_init_def provider_init_def init_world_def provider_effect_def current_user_done_def
      home_effect_def render_def)


text \<open>
  Composed through the context, the two components keep each other's
  invariants: in every state the app reaches, the page's \<open>userData\<close> is the
  provider's, the coordinator's invariants hold of the page (flags agree with the
  engines, a restart is pending whenever an idle mounted engine is not waiting for
  speech, requests carry the wake word, windows are on the dispatcher's origins, at
  most one window per request), and at most one current-user request is in flight.
  Sign-in, logout and a late current-user response, written by the provider at any
  moment, break none of them.
\<close>

theorem app_invariant:
  assumes "app_reachable a"
  shows "userData (page a) = ctx_userData (prov a) \<and> coord_inv (page a) \<and> wf_provider (prov a)"
  using assms
proof (induction rule: app_reachable.induct)
  case (init vs pop)
  have "userData (init_world None vs pop) = None" by (simp add: init_world_def)
  with init_coord_inv [of None vs pop] show ?case by (simp add: app_init_def provider_init_def wf_provider_def)
next
  case (step a e a')
  show ?case
  proof (cases e)
    case (ProvEv pe)
    with step.hyps(2) obtain p where p: "provider_step (prov a) pe = Some p"
      and a': "a' = \<lparr>prov = p, page = (page a)\<lparr>userData := ctx_userData p\<rparr>\<rparr>"
      by (auto split: option.splits)
    from p step.IH have "wf_provider p" by (blast intro: provider_step_wf)
    with a' step.IH show ?thesis by simp
  next
    case (PageEv pe)
    with step.hyps(2) obtain w where s: "step (page a) pe = Some w"
      and a': "a' = \<lparr>prov = (prov a)\<lparr>ctx_userData := userData w\<rparr>, page = w\<rparr>"
      by (auto split: option.splits)
    from s step.IH have "coord_inv w" by (blast intro: step_coord_inv)
    with a' step.IH show ?thesis by (simp add: wf_provider_def)
  qed
qed

theorem app_invariant_witness:
  "\<exists>a. app_run (app_init [''hi-IN''] True)
       [ProvEv ProviderMount, ProvEv (SetUserData (Some demo_user)), PageEv Mount] = Some a
     \<and> userData (page a) = Some demo_user \<and> coord_inv (page a) \<and> user_fetches (prov a) = 1"
proof -
  let ?a = "\<lparr>prov = (provider_effect provider_init)\<lparr>ctx_userData := Some demo_user\<rparr>,
              page = home_effect demo_user ((init_world None [''hi-IN''] True)\<lparr>userData := Some demo_user\<rparr>)\<rparr>"
  have r: "app_run (app_init [''hi-IN''] True)
       [ProvEv ProviderMount, ProvEv (SetUserData (Some demo_user)), PageEv Mount] = Some ?a"
    by (simp add: app_init_def provider_init_def provider_effect_def init_world_def home_effect_def)
  from app_invariant [OF app_run_reachable [OF app_reachable.init r]] r show ?thesis
    by (auto simp: provider_effect_def provider_init_def home_effect_def)
qed

end
