(* ===== verification/Departures.thy ===== *)
theory Departures
  imports Invariants
begin

text \<open>
  Where the coordinator departs from the spec's, stated for every reachable state in
  which the departure can start, not for one run. The spec (sections 2, 4.1 and 5)
  promises that capture never runs while a reply is awaited or spoken, that at most
  one restart is pending, that a stale completion cannot end the newer utterance's
  turn, and that nothing happens after teardown. The code keeps two boolean refs
  instead of a mode, so each promise fails from every state of the kind named below.
\<close>

section \<open>Capture overlaps the reply\<close>

text \<open>
  Claim C9. From every reachable listening state (mounted, not speaking, recognizer
  active), a wake-word transcript stops the recognizer and sends the request; the end
  event of that requested stop schedules a restart as if the end were a fault, so after
  1000 ms capture is running again while the reply is still awaited; and when a
  well-formed reply then arrives it is spoken with the recognizer still active and
  listening.
\<close>

theorem capture_overlaps_reply:
  assumes "reachable w" and "isMounted w" and "\<not> isSpeakingRef w" and "recog w = RecActive"
    and "effect_user w = Some u" and "wake_match (trim raw) u"
    and "reply_ok d" and "\<not> to_string_throws (get_prop d ''response'')"
  shows "\<exists>w1 w2. run w [RecResult raw, RecEnd, Tick 1000, TimerFire (length (timers w)), RecStart] = Some w1
     \<and> pending w1 = pending w @ [trim raw] \<and> recog w1 = RecActive \<and> listening w1
     \<and> step w1 (GeminiReply (length (pending w)) (HttpOk d)) = Some w2
     \<and> recog w2 = RecActive \<and> listening w2 \<and> isSpeakingRef w2 \<and> list_ex utt_onend (queue w2)"
proof -
  have ref: "recognitionRef w" by (rule reachable_mounted_ref [OF assms(1,2)])
  let ?t = "trim raw"
  let ?w1 = "w\<lparr>userText := ?t, recog := RecActive, listening := True, isRecognizingRef := True,
     requests := requests w @ [getGeminiResponse_request ?t (assistantName u) (name u)],
     pending := pending w @ [?t], now := now w + 1000\<rparr>"
  have r1: "run w [RecResult raw, RecEnd, Tick 1000, TimerFire (length (timers w)), RecStart] = Some ?w1"
    using assms(2-6) ref
    by (simp add: onresult_def onend_def startRecognition_def recognition_start_def onstart_def Let_def
        nth_append)
  obtain s where s: "dom_string_arg (get_prop d ''response'') = Inr s"
    using dom_string_arg_ok [OF assms(8)] by blast
  let ?u = "?w1\<lparr>pending := pending w\<rparr>"
  have "recog (onresult_reply d ?u) = RecActive \<and> listening (onresult_reply d ?u)
    \<and> isSpeakingRef (onresult_reply d ?u) \<and> list_ex utt_onend (queue (onresult_reply d ?u))"
    using assms(7) s by (auto simp: onresult_reply_def handleCommand_def speak_ok make_utterance_def Let_def)
  moreover have "step ?w1 (GeminiReply (length (pending w)) (HttpOk d)) = Some (onresult_reply d ?u)"
    by simp
  ultimately show ?thesis using r1 by fastforce
qed

theorem capture_overlaps_reply_witness:
  "\<exists>w1 w2. run listening_world [RecResult ''hey Max'', RecEnd, Tick 1000, TimerFire 0, RecStart] = Some w1
     \<and> pending w1 = [''hey Max''] \<and> recog w1 = RecActive \<and> listening w1
     \<and> step w1 (GeminiReply 0 (HttpOk (intent_json ''weather-show'' ''weather'' ''ok''))) = Some w2
     \<and> recog w2 = RecActive \<and> listening w2 \<and> isSpeakingRef w2 \<and> list_ex utt_onend (queue w2)"
proof -
  have h: "isMounted listening_world" "\<not> isSpeakingRef listening_world" "recog listening_world = RecActive"
    "effect_user listening_world = Some demo_user" "timers listening_world = []" "pending listening_world = []"
    by (simp_all add: listening_world_def init_world_def)
  have t: "trim ''hey Max'' = ''hey Max''" and m: "wake_match (trim ''hey Max'') demo_user" by code_simp+
  have d: "reply_ok (intent_json ''weather-show'' ''weather'' ''ok'')"
    "\<not> to_string_throws (get_prop (intent_json ''weather-show'' ''weather'' ''ok'') ''response'')"
    by (simp_all add: reply_ok_def intent_json_def)
  from capture_overlaps_reply [OF listening_world_reachable h(1-4) m d] h(5,6) t show ?thesis by simp
qed

section \<open>Replies after teardown\<close>

text \<open>
  Claim C11. The continuation after the \<open>await\<close> never reads \<open>isMounted\<close>: in every
  reachable state after teardown, a well-formed reply still awaited is spoken (setting
  the speaking flag and queueing an utterance that will schedule a restart), stored as
  the reply text, and its page is opened.
\<close>

theorem reply_after_teardown:
  assumes "reachable w" and "\<not> isMounted w" and "i < length (pending w)" and "reply_ok d"
    and "\<not> to_string_throws (get_prop d ''response'')"
    and "\<not> command_url_throws (get_prop d ''type'') (get_prop d ''userInput'')"
    and "command_url (get_prop d ''type'') (get_prop d ''userInput'') \<noteq> []" and "popups_allowed w"
  shows "\<exists>w'. step w (GeminiReply i (HttpOk d)) = Some w' \<and> \<not> isMounted w'
     \<and> isSpeakingRef w' \<and> list_ex utt_onend (queue w') \<and> aiText w' = get_prop d ''response''
     \<and> opened w' = opened w @ [command_url (get_prop d ''type'') (get_prop d ''userInput'')]"
proof -
  obtain s where s: "dom_string_arg (get_prop d ''response'') = Inr s"
    using dom_string_arg_ok [OF assms(5)] by blast
  with assms(2-8) show ?thesis
    by (simp add: onresult_reply_def handleCommand_def speak_ok make_utterance_def Let_def)
qed

theorem reply_after_teardown_witness:
  "\<exists>w w'. run (init_world (Some demo_user) [''hi-IN''] True)
       [Mount, Tick 1000, TimerFire 0, RecStart, RecResult ''hey Max'', Unmount] = Some w
     \<and> step w (GeminiReply 0 (HttpOk (intent_json ''weather-show'' ''weather'' ''ok''))) = Some w'
     \<and> \<not> isMounted w' \<and> isSpeakingRef w' \<and> opened w' = [''https://www.google.com/search?q=weather'']"
proof -
  have "reaches (init_world (Some demo_user) [''hi-IN''] True)
       [Mount, Tick 1000, TimerFire 0, RecStart, RecResult ''hey Max'', Unmount]
       (\<lambda>w. \<not> isMounted w \<and> pending w = [''hey Max''] \<and> popups_allowed w \<and> opened w = [])"
    by code_simp
  then obtain w where r: "run (init_world (Some demo_user) [''hi-IN''] True)
       [Mount, Tick 1000, TimerFire 0, RecStart, RecResult ''hey Max'', Unmount] = Some w"
    and h: "\<not> isMounted w" "pending w = [''hey Max'']" "popups_allowed w" "opened w = []"
    by (auto simp: reaches_iff)
  let ?d = "intent_json ''weather-show'' ''weather'' ''ok''"
  have d: "reply_ok ?d" "\<not> to_string_throws (get_prop ?d ''response'')"
    "\<not> command_url_throws (get_prop ?d ''type'') (get_prop ?d ''userInput'')"
    by (simp_all add: reply_ok_def intent_json_def command_url_throws_def)
  have u: "command_url (get_prop ?d ''type'') (get_prop ?d ''userInput'') = ''https://www.google.com/search?q=weather''"
    by (simp add: intent_json_def) code_simp
  have i: "0 < length (pending w)" using h(2) by simp
  from reply_after_teardown [OF init_run_reachable [OF r] h(1) i d(1-3) _ h(3)] u r h(1,4) show ?thesis
    by auto
qed

section \<open>Two restarts after one fault\<close>

text \<open>
  Claim C12. From every reachable listening state, a recognizer fault other than
  \<open>aborted\<close> followed by its end event leaves two restarts pending, one from each
  handler, where the spec allows one. After 1000 ms the first starts the recognizer;
  the second passes the flag guard (the recognizing flag is set only by \<open>onstart\<close>),
  calls \<open>start()\<close> on the starting engine, and the \<open>InvalidStateError\<close> it throws is
  swallowed, leaving the state as it was but for the spent timer.
\<close>

theorem two_restarts_pending:
  assumes "reachable w" and "isMounted w" and "\<not> isSpeakingRef w" and "recog w = RecActive"
    and "err \<noteq> ''aborted''"
  shows "\<exists>w1 w2. run w [RecError err, RecEnd] = Some w1
     \<and> timers w1 = timers w @ [now w + 1000, now w + 1000]
     \<and> run w1 [Tick 1000, TimerFire (length (timers w))] = Some w2
     \<and> recog w2 = RecStarting \<and> \<not> isSpeakingRef w2 \<and> \<not> isRecognizingRef w2
     \<and> recognition_start (recog w2) = Inl InvalidStateError
     \<and> step w2 (TimerFire (length (timers w))) = Some (w2\<lparr>timers := timers w\<rparr>)"
proof -
  have ref: "recognitionRef w" by (rule reachable_mounted_ref [OF assms(1,2)])
  let ?w1 = "w\<lparr>recog := RecIdle, isRecognizingRef := False, listening := False,
     timers := timers w @ [now w + 1000, now w + 1000]\<rparr>"
  have r1: "run w [RecError err, RecEnd] = Some ?w1"
    using assms(2-5) by (simp add: onerror_def onend_def Let_def)
  let ?w2 = "w\<lparr>recog := RecStarting, isRecognizingRef := False, listening := False,
     timers := timers w @ [now w + 1000], now := now w + 1000\<rparr>"
  have rm: "remove_nth (length (timers w)) (timers w @ [now w + 1000, now w + 1000]) = timers w @ [now w + 1000]"
    by (simp add: remove_nth_def)
  have r2: "run ?w1 [Tick 1000, TimerFire (length (timers w))] = Some ?w2"
    using assms(3) ref rm by (simp add: startRecognition_def recognition_start_def nth_append)
  have s3: "step ?w2 (TimerFire (length (timers w))) = Some (?w2\<lparr>timers := timers w\<rparr>)"
    using assms(3) ref by (simp add: startRecognition_def recognition_start_def nth_append)
  from r1 r2 s3 assms(3) show ?thesis by (auto simp: recognition_start_def)
qed

theorem two_restarts_pending_witness:
  "\<exists>w1 w2. run listening_world [RecError ''network'', RecEnd] = Some w1 \<and> length (timers w1) = 2
     \<and> run w1 [Tick 1000, TimerFire 0] = Some w2 \<and> recog w2 = RecStarting
     \<and> step w2 (TimerFire 0) = Some (w2\<lparr>timers := []\<rparr>)"
proof -
  have h: "isMounted listening_world" "\<not> isSpeakingRef listening_world" "recog listening_world = RecActive"
    by (simp_all add: listening_world_def init_world_def)
  have z: "length (timers listening_world) = 0" "timers listening_world = []"
    by (simp_all add: listening_world_def init_world_def)
  have e: "''network'' \<noteq> ''aborted''" by simp
  from two_restarts_pending [OF listening_world_reachable h e] obtain w1 w2
    where a: "run listening_world [RecError ''network'', RecEnd] = Some w1"
      "timers w1 = timers listening_world @ [now listening_world + 1000, now listening_world + 1000]"
      "run w1 [Tick 1000, TimerFire (length (timers listening_world))] = Some w2" "recog w2 = RecStarting"
      "step w2 (TimerFire (length (timers listening_world))) = Some (w2\<lparr>timers := timers listening_world\<rparr>)"
    by blast
  have l: "length (timers w1) = 2" using a(2) z(2) by simp
  show ?thesis using a(1) l a(3) [unfolded z(1)] a(4) a(5) [unfolded z(1), unfolded z(2)] by blast
qed

section \<open>A stale completion\<close>

text \<open>
  Claim C13. In every reachable state in which a reply is being spoken and another is
  awaited, the second well-formed reply interrupts the first, which still owes its end
  callback; that stale callback clears the speaking flag and schedules a restart while
  the second reply is still queued, where the spec requires the coordinator to ignore
  completions of interrupted utterances.
\<close>

theorem stale_end_clears_flag:
  assumes "reachable w" and "isSpeakingRef w" and "i < length (pending w)" and "reply_ok d"
    and "\<not> to_string_throws (get_prop d ''response'')"
  shows "\<exists>w1 w2. step w (GeminiReply i (HttpOk d)) = Some w1 \<and> 0 < interrupted w1
     \<and> step w1 SynthInterruptedEnd = Some w2 \<and> \<not> isSpeakingRef w2 \<and> list_ex utt_onend (queue w2)
     \<and> timers w2 = timers w @ [now w + 800]"
proof -
  have "list_ex utt_onend (queue w)" using reachable_wf [OF assms(1)] assms(2) by (simp add: wf_defs)
  then have c: "0 < cancelled_ends (queue w)" by (simp add: cancelled_ends_def list_ex_iff filter_empty_conv)
  obtain s where s: "dom_string_arg (get_prop d ''response'') = Inr s"
    using dom_string_arg_ok [OF assms(5)] by blast
  let ?v = "w\<lparr>pending := remove_nth i (pending w)\<rparr>"
  have q: "queue (onresult_reply d ?v) = [make_utterance (voices w) s]"
    "interrupted (onresult_reply d ?v) = interrupted w + cancelled_ends (queue w)"
    "timers (onresult_reply d ?v) = timers w" "now (onresult_reply d ?v) = now w"
    using assms(4) s by (auto simp: onresult_reply_def handleCommand_def speak_ok Let_def)
  have s1: "step w (GeminiReply i (HttpOk d)) = Some (onresult_reply d ?v)" using assms(3) by simp
  from q c s1 show ?thesis by (simp add: utterance_onend_def make_utterance_def)
qed

theorem stale_end_clears_flag_witness:
  "\<exists>w w1 w2. run (init_world (Some demo_user) [''hi-IN''] True)
       [Mount, Tick 1000, TimerFire 0, RecStart, RecResult ''Max one'', RecResult ''Max two'',
        GeminiReply 0 (HttpOk (intent_json ''weather-show'' ''weather'' ''ok''))] = Some w
     \<and> step w (GeminiReply 0 (HttpOk (intent_json ''weather-show'' ''weather'' ''ok''))) = Some w1
     \<and> step w1 SynthInterruptedEnd = Some w2 \<and> \<not> isSpeakingRef w2 \<and> list_ex utt_onend (queue w2)"
proof -
  have "reaches (init_world (Some demo_user) [''hi-IN''] True)
       [Mount, Tick 1000, TimerFire 0, RecStart, RecResult ''Max one'', RecResult ''Max two'',
        GeminiReply 0 (HttpOk (intent_json ''weather-show'' ''weather'' ''ok''))]
       (\<lambda>w. isSpeakingRef w \<and> length (pending w) = 1)"
    by code_simp
  then obtain w where r: "run (init_world (Some demo_user) [''hi-IN''] True)
       [Mount, Tick 1000, TimerFire 0, RecStart, RecResult ''Max one'', RecResult ''Max two'',
        GeminiReply 0 (HttpOk (intent_json ''weather-show'' ''weather'' ''ok''))] = Some w"
    and h: "isSpeakingRef w" "length (pending w) = 1" by (auto simp: reaches_iff)
  let ?d = "intent_json ''weather-show'' ''weather'' ''ok''"
  have d: "reply_ok ?d" "\<not> to_string_throws (get_prop ?d ''response'')"
    by (simp_all add: reply_ok_def intent_json_def)
  have i: "0 < length (pending w)" using h(2) by simp
  from stale_end_clears_flag [OF init_run_reachable [OF r] h(1) i d] r show ?thesis by blast
qed

end
