(* ===== verification/Spec2Isabelle.thy ===== *)
theory Spec2Isabelle
  imports Player Mode IntentSpec Replies App Recovery Departures
begin

text \<open>
  \<^bold>\<open>Verification development of the VirtualAssistant front end.\<close>

  \<^medskip>\<^bold>\<open>The program.\<close> A React page (\<open>src/src/pages/Home.jsx\<close>) listens continuously
  with the browser's speech recognizer, sends every final transcript that contains the
  assistant's name (the wake word) to a back end through \<open>getGeminiResponse\<close>
  (\<open>src/src/context/UserContext.jsx\<close>), speaks the reply with speech synthesis and
  opens a page chosen by the reply's type. The parts and how they interact:
  \<^item> the coordinator: the handlers of \<open>Home.jsx\<close> (\<open>startRecognition\<close>,
    \<open>speak\<close> and its utterance \<open>onend\<close>, \<open>handleCommand\<close>, the mount effect with
    \<open>onstart\<close>, \<open>onend\<close>, \<open>onerror\<close>, \<open>onresult\<close> and the cleanup, and
    \<open>handleLogOut\<close>, the menu toggle and the customize button). They share two refs (\<open>isSpeakingRef\<close>,
    \<open>isRecognizingRef\<close>), the effect's \<open>isMounted\<close> variable and React state, and
    re-arm the recognizer through \<open>setTimeout\<close>;
  \<^item> the dispatcher: the URL table inside \<open>handleCommand\<close> and its \<open>window.open\<close>;
  \<^item> the session provider: \<open>userData\<close> and the image state, \<open>handleCurrentUser\<close> run
    by its mount effect, the setters and \<open>getGeminiResponse\<close> it publishes in the
    context value that \<open>Home\<close> reads;
  \<^item> the browser: the recognition engine, the synthesis queue, timers, popups, and the
    JavaScript built-ins (\<open>trim\<close>, \<open>toLowerCase\<close>, \<open>includes\<close>,
    \<open>encodeURIComponent\<close>, the JSON values of replies);
  \<^item> the render of \<open>Home\<close>.

  \<^medskip>\<^bold>\<open>Theories.\<close>
  \<^item> \<open>Prelude\<close>: type names (\<open>ms\<close>, \<open>js_string\<close>, \<open>url\<close>), the fact collections
    \<open>handler_simps\<close> (handler equations) and \<open>wf_intros\<close> (invariant preservation),
    and \<open>remove_nth\<close>, the removal of the pending callback that runs.
  \<^item> \<open>JsString\<close>: the string built-ins, modelled after ECMAScript on byte strings
    (\<open>trim\<close> and \<open>toLowerCase\<close> on ASCII), with \<open>includes_js\<close> shown equal to
    \<open>Sublist.sublist\<close> and \<open>encodeURIComponent\<close> shown lossless (\<open>percent_decode\<close>
    inverts it), safe (only unreserved characters and \<open>%\<close>) and bounded (\<open>n\<close> to
    \<open>3n\<close> characters).
  \<^item> \<open>JsValue\<close>: the JSON values \<open>axios\<close> hands to the page (\<open>js_value\<close>),
    with ToBoolean (\<open>truthy\<close>), property access (\<open>get_prop\<close>, the last of duplicate
    keys), ToString (\<open>to_string\<close>, integers only) with the \<open>TypeError\<close> it throws
    for an object that has its own \<open>toString\<close> key (\<open>to_string_throws\<close>,
    \<open>js_to_string\<close>), and the conversion of the text argument of
    \<open>SpeechSynthesisUtterance\<close> (\<open>dom_string_arg\<close>), which may throw.
  \<^item> \<open>UserContext\<close>: records \<open>profile\<close> (the user document) and \<open>ask_request\<close>;
    \<open>handleCurrentUser\<close> and \<open>getGeminiResponse\<close> as functions of the network
    outcome \<open>http_result\<close> (the reply is any \<open>js_value\<close>, \<open>null\<close> on failure);
    \<open>reply_ok\<close> is the guard \<open>!data || !data.type\<close> negated; \<open>intent_json\<close> is a
    reply of the shape the spec promises.
  \<^item> \<open>Session\<close>: the provider component of \<open>UserContext.jsx\<close> as a state machine
    (\<open>provider\<close>, \<open>provider_step\<close>): its state, the mount effect that sends the
    current-user request, \<open>handleCurrentUser\<close>'s continuation (\<open>current_user_done\<close>),
    the published setters, and the context value; an invariant (one request at most)
    and the overwrite of a newer sign-in or logout by a late response.
  \<^item> \<open>Dispatcher\<close>: \<open>command_url\<close>, the six \<open>if\<close> statements of lines 66--72 as
    successive rebindings over the reply's JSON fields (strict equality with the type
    strings, ToString before encoding), with the table, the allowed origins, the
    well-formedness and length of every URL, and the query round trip;
    \<open>command_url_throws\<close> is the throw of \<open>encodeURIComponent(userInput)\<close>.
  \<^item> \<open>IntentSpec\<close>: the spec's dispatcher (section 4.4) as an abstract map from an
    intent to a navigation target, and the refinement theorem: \<open>command_url\<close>, read
    back as a target by \<open>url_target\<close>, is exactly that map.
  \<^item> \<open>Browser\<close>: the recognizer lifecycle (\<open>rec_status\<close>; \<open>start()\<close> on a non-idle
    engine is the error value \<open>InvalidStateError\<close>), utterances, \<open>cancel\<close> (each
    cancelled utterance still owes one end callback), voice lookup.
  \<^item> \<open>Home\<close>: the record \<open>world\<close> holds the component's state and refs and the
    browser state its handlers touch (engine status, synthesis queue and owed end
    callbacks, pending timer deadlines, awaited replies, logs of requests, opened URLs
    and warnings). Each handler is one definition named after the source's function.
    A JavaScript exception is a value: following Bali's abrupt completions,
    \<open>speak\<close> and \<open>handleCommand\<close> return the exception, if any, with the state
    reached before it, and \<open>onresult_reply\<close> then skips the rest of the handler.
    \<open>step\<close> delivers one browser event (mount, unmount, time passing, a due timer,
    an engine event, a reply, a synthesis end, logout, the menu toggle, the customize
    button) to the handler
    the effect registered for it, and is \<open>None\<close> when the event cannot happen;
    \<open>run\<close> delivers a list of events. Replies and engine events may come in any
    order; a timer fires only once its deadline has passed. The functional lemmas of
    each handler are stated on \<open>step\<close>.
  \<^item> \<open>Invariants\<close>: \<open>reachable\<close> (inductive: from the initial state of a page load,
    closed under \<open>step\<close>), the invariant \<open>wf\<close> in four parts each preserved by
    every step, and what follows: the listening flag and speaking flag agree with the
    engines, the recognizer is started only by a timer when both flags are clear,
    pending restarts are due within 1000 ms. Two further invariants (\<open>wf_requests\<close>, \<open>wf_opened\<close>): every request
    sent contains the wake word and the awaited transcripts are a subsequence of the
    commands sent; every opened window has one of the dispatcher's four origins. A
    counting invariant (\<open>wf_windows\<close>): each request leads to at most one window,
    opened or blocked, and only once its reply has arrived.
  \<^item> \<open>View\<close>: \<open>render\<close>, the JSX of lines 147--176, with the \<open>TypeError\<close> of a
    \<open>null\<close> profile and React's rejection of an object as the caption as error values.
  \<^item> \<open>Replies\<close>: replies of the promised shape keep \<open>aiText\<close> a string in every state
    reached, so the caption always renders; an object \<open>response\<close> is spoken as
    \<open>[object Object]\<close> and crashes the next render unless it has its own
    \<open>toString\<close> key, in which case speaking it throws and nothing happens; a search
    reply without
    \<open>userInput\<close> searches for the word \<open>undefined\<close>.
  \<^item> \<open>App\<close>: the provider and the page composed through the context value
    (\<open>app_step\<close>): a provider event re-renders \<open>Home\<close> with the new \<open>userData\<close>,
    and \<open>Home\<close>'s logout writes it through the setter. \<open>app_reachable\<close> is the
    composed system's reachability; a lemma shows the page's \<open>userData\<close> is the
    provider's and the coordinator's invariants (\<open>coord_inv\<close>, none of which reads
    \<open>userData\<close>) hold of the composed states.
  \<^item> \<open>Player\<close>: the spec's Utterance Player (section 4.3) as an abstract machine
    (\<open>player_trans\<close>: speak, complete the current utterance, complete an interrupted
    one) and the refinement: read off the model by \<open>player_of\<close>, every step of every
    reachable state is a player step, so each \<open>speak\<close> is owed exactly one completion.
  \<^item> \<open>Mode\<close>: the spec's coordinator (section 4.2) as the machine \<open>mode_step\<close> over
    \<open>imode\<close> (idle, listening, awaiting a reply, speaking, torn down) and its events
    \<open>aevent\<close>; \<open>abs_event\<close> reads each code event as a spec event (a wake-word
    transcript, a reply well-formed or not, the end of the coordinator's utterance, a
    teardown) or as invisible; \<open>coupled\<close> ties each mode to the flags, refs, awaited
    replies and owed utterances of the model. The refinement theorem: along every run
    from a coupled reachable state the machine follows the code and stays coupled, up to
    the first step it rejects, and that step is one of three \<open>departure\<close>s (capture
    starts while awaiting, speaking or torn down; a wake word outside listening; a reply
    or playback end after teardown), each of which \<open>Departures\<close> and \<open>Recovery\<close>
    show reachable. A reply whose response makes \<open>speak\<close> throw counts as malformed
    (\<open>reply_spoken\<close>).
  \<^item> \<open>EventLoop\<close>: \<open>settle\<close>, the delivery of every callback due at one instant (the
    engine's \<open>onstart\<close> or \<open>onend\<close> owed after a start or stop, expired timers), as a
    \<open>partial_function (option)\<close>, its termination from every state, and the rule
    that carries an invariant through it.
  \<^item> \<open>Recovery\<close>: the spec's self-healing loop (section 7) as a liveness theorem. The
    invariant \<open>wf_restart\<close>: a mounted idle engine whose speaking flag is clear always
    has a restart pending, and an active engine has both recognition flags set.
    \<open>recover\<close> is the fair environment made explicit: every owed synthesis end
    (\<open>speech_done\<close>), then \<open>settle\<close>, then 1000 ms, then \<open>settle\<close>; from every
    reachable mounted state it returns, with the recognizer capturing. Its lemmas carry
    invariants through \<open>settle\<close> by the fixed-point induction of the partial function.
    The same schedule after teardown (invariant \<open>armed\<close>): a torn-down page with a
    restart pending or an utterance owing its end is capturing again.
  \<^item> \<open>Departures\<close>: where the code departs from the spec's coordinator, each stated
    for every reachable state in which the departure can start: capture restarts while
    the reply is awaited and overlaps its playback; replies are handled after teardown;
    one fault leaves two restarts pending; a stale completion clears the speaking flag.
  \<^item> This theory: the spec's scenario run end to end, the timing condition under
    which one request cycle keeps capture and playback apart (a reply within the
    1000 ms restart delay, the speaking flag blocking the early restart), the greeting
    race, and the rendering faults after a malformed reply and a failed logout.

  \<^medskip>\<^bold>\<open>Bounds and time.\<close> Every recursion but one is structural (\<open>run\<close> over the
  event list, \<open>percent_decode\<close> and the string functions over the string,
  \<open>to_string\<close> over the value, \<open>nat_str\<close> by division), so no fuel is needed. The
  exception is \<open>settle\<close>, whose equation does not bound the chain of callbacks; it is a
  \<open>partial_function (option)\<close>, and its termination is proved with the measure twice
  the number of expired timers plus a rank of the engine state (1 starting, 2 stopping),
  which every delivered callback lowers: nothing \<open>settle\<close> delivers stops the engine,
  and the one end event it may deliver arms a restart 1000 ms ahead. Its termination
  is a lemma the recovery theorems use, not a property of the page.
  The recovery schedule waits 1000 ms because no handler arms a restart further ahead
  (the timer bound of \<open>wf_timers\<close>), so every restart pending after the first
  \<open>settle\<close> is due after the wait; the schedule delivers each owed synthesis end once,
  as many as the queue and the interrupted count say.
  Time is explicit: \<open>now\<close> in milliseconds, advanced by \<open>Tick\<close>, and the delays are
  the source's constants (1000 ms for the first start and after an end or error,
  800 ms after an utterance).

  \<^medskip>\<^bold>\<open>Where the code departs.\<close> The spec's coordinator never captures while it awaits a
  reply or speaks, keeps at most one restart pending, and does nothing after teardown.
  The code keeps only the two boolean refs: \<open>onend\<close> re-arms the recognizer after the
  stop that \<open>onresult\<close> itself issued, so capture restarts while the reply is awaited
  and is running when the reply is spoken; an error followed by its end event leaves two
  restarts pending (the second start is absorbed by \<open>InvalidStateError\<close>); the
  cleanup neither clears timers nor guards \<open>startRecognition\<close>, and the reply
  continuation does not check \<open>isMounted\<close>, so capture restarts and replies are
  spoken and opened after unmount; a stale end callback of an interrupted utterance
  clears \<open>isSpeakingRef\<close> while the newer reply still plays; the greeting is still
  queued when the first start happens; after a malformed reply the caption still shows
  the transcript, not the apology; and a failed logout leaves the page mounted with a
  \<open>null\<close> profile, whose next render throws. Outside \<open>Home\<close>: the provider's
  current-user response overwrites whatever was set while it was in flight, so a late
  failure signs out a user who has just signed in (and crashes the mounted page) and a
  late success undoes a logout; the context value is the same while the profile loads
  and after it failed to load; and the reply is used without a shape check, so a
  response object with its own \<open>toString\<close> key throws inside \<open>handleCommand\<close>
  and neither speech nor the apology follows.

  \<^medskip>\<^bold>\<open>Not modelled.\<close> The app shell and routing (not among the staged sources;
  navigation is the \<open>route\<close> field, and the sign-in page only as the \<open>SetUserData\<close>
  setter it calls), re-mounting \<open>Home\<close> after an unmount (the model has one component
  instance), the contents of recognition events beyond the last transcript,
  non-integral numbers in replies,
  and acoustic behaviour. A render error is a value of the model: React's unmounting of
  the tree after an uncaught render error is not modelled, so in the composed system the
  page's handlers keep running in a state whose render throws. Non-ASCII case mapping and Unicode whitespace in \<open>trim\<close>
  are outside the string model.

  \<^medskip>\<^bold>\<open>Open questions.\<close> Every statement of the two source files that
  changes state is modelled. What remains open is on the spec's side: a count of
  spoken replies against well-formed replies would need a log of completed utterances
  that the browser does not expose, and the spec's restart ownership (one pending
  restart) does not hold of the code (see above), so it is recorded as a divergence
  rather than proved of a corrected handler set, which would not be this code.
\<close>

section \<open>The spec's scenario\<close>

definition page_load :: world where
  "page_load = init_world (Some demo_user) [''hi-IN''] True"

definition start_listening :: "event list" where
  "start_listening = [Mount, Tick 1000, TimerFire 0, RecStart]"

definition weather_reply :: "js_value http_result" where
  "weather_reply = HttpOk (intent_json ''weather-show'' ''weather'' (''Here'' @ [CHR 0x27] @ ''s the weather''))"

text \<open>
  The spec's scenario: with wake word \<open>Max\<close>, the transcript "tell me the
  weather, Max" is sent whole as the request; the reply of type \<open>weather-show\<close> is
  spoken and a Google search for "weather" is opened.
\<close>

theorem weather_scenario:
  "\<exists>w. run page_load (start_listening @ [RecResult ''tell me the weather, Max'',
        GeminiReply 0 weather_reply]) = Some w
     \<and> requests w = [\<lparr>command = ''tell me the weather, Max''\<rparr>]
     \<and> map utt_text (queue w) = [''Here'' @ [CHR 0x27] @ ''s the weather'']
     \<and> opened w = [''https://www.google.com/search?q=weather'']
     \<and> isSpeakingRef w \<and> userText w = []"
  by (subst reaches_iff [symmetric]) code_simp

text \<open>
  Claim C31. When the reply arrives less than 1000 ms after the recognizer's end event,
  the code meets the spec's exclusion on this cycle: capture is idle while the reply is
  spoken, the restart scheduled by the end event is not yet due, when it fires during
  playback the speaking flag blocks it, and capture restarts 800 ms after playback.
\<close>

theorem fast_reply_cycle:
  assumes "d < 1000"
  shows "\<exists>w. run page_load (start_listening @ [RecResult ''tell me the weather, Max'', RecEnd, Tick d,
        GeminiReply 0 weather_reply]) = Some w
     \<and> isSpeakingRef w \<and> recog w = RecIdle \<and> \<not> listening w \<and> timers w = [2000] \<and> now w < 2000
     \<and> reaches w [Tick 1000, TimerFire 0]
         (\<lambda>w'. isSpeakingRef w' \<and> recog w' = RecIdle \<and> timers w' = []
            \<and> reaches w' [SynthEnd, Tick 800, TimerFire 0]
                (\<lambda>w''. recog w'' = RecStarting \<and> \<not> isSpeakingRef w'' \<and> timers w'' = []))"
proof -
  have t: "trim ''tell me the weather, Max'' = ''tell me the weather, Max''" by code_simp
  have m: "wake_match ''tell me the weather, Max'' demo_user" by code_simp
  have u: "command_url (JStr ''weather-show'') (JStr ''weather'') = ''https://www.google.com/search?q=weather''"
    by code_simp
  from assms show ?thesis
    by (simp add: reaches_def page_load_def start_listening_def weather_reply_def init_world_def
      intent_json_def handler_simps Let_def t m u)
qed

theorem fast_reply_cycle_witness:
  "\<exists>w. run page_load (start_listening @ [RecResult ''tell me the weather, Max'', RecEnd, Tick 500,
        GeminiReply 0 weather_reply]) = Some w
     \<and> isSpeakingRef w \<and> recog w = RecIdle \<and> \<not> listening w \<and> timers w = [2000] \<and> now w < 2000
     \<and> reaches w [Tick 1000, TimerFire 0]
         (\<lambda>w'. isSpeakingRef w' \<and> recog w' = RecIdle \<and> timers w' = []
            \<and> reaches w' [SynthEnd, Tick 800, TimerFire 0]
                (\<lambda>w''. recog w'' = RecStarting \<and> \<not> isSpeakingRef w'' \<and> timers w'' = []))"
  by (rule fast_reply_cycle) simp

section \<open>Where the code departs from the spec's coordinator\<close>

text \<open>
  The first start does not wait for the greeting: the recognizer is
  starting while the greeting is still queued.
\<close>

theorem greeting_race:
  "\<exists>w. run page_load [Mount, Tick 1000, TimerFire 0] = Some w
     \<and> recog w = RecStarting \<and> queue w = [greeting demo_user]"
  by (subst reaches_iff [symmetric]) code_simp

text \<open>
  Claim C28. After a malformed or failed reply the caption still shows the transcript
  echo, so the apology the code sets is not displayed while a transcript is echoed.
\<close>

theorem malformed_reply_hides_apology:
  assumes "i < length (pending w)" and "\<not> reply_ok (getGeminiResponse_result resp)"
    and "userText w \<noteq> []" and "userData w = Some u"
    and "step w (GeminiReply i resp) = Some w'"
  shows "aiText w' = JStr sorry_text \<and> (\<exists>v. render w' = Inr v \<and> caption v = Some (JStr (userText w)))"
  using assms by (auto simp: onresult_reply_def render_def Let_def split: option.splits if_splits)

theorem malformed_reply_hides_apology_witness:
  "\<exists>v. render (the (step awaiting_world (GeminiReply 0 HttpError))) = Inr v
     \<and> caption v = Some (JStr ''hey Max'')"
proof -
  have a: "0 < length (pending awaiting_world)" "userText awaiting_world \<noteq> []"
    "userData awaiting_world = Some demo_user"
    by (simp_all add: awaiting_world_def listening_world_def init_world_def)
  have r: "\<not> reply_ok (getGeminiResponse_result (HttpError :: js_value http_result))"
    by (simp add: reply_ok_def)
  obtain w' where s: "step awaiting_world (GeminiReply 0 HttpError) = Some w'" using a(1) by simp
  have t: "userText awaiting_world = ''hey Max''" by (simp add: awaiting_world_def)
  from malformed_reply_hides_apology [OF a(1) r a(2) a(3) s] s t show ?thesis by simp
qed

text \<open>
  Claim C27. A failed logout clears the profile but leaves the page mounted; the next
  render of the page throws.
\<close>

theorem logout_failure_crash:
  assumes "isMounted w" and "step w (LogOut False) = Some w'"
  shows "isMounted w' \<and> userData w' = None \<and> render w' = Inl TypeError"
  using assms by (auto simp: handleLogOut_def render_def)

theorem logout_failure_crash_witness:
  "render (the (step listening_world (LogOut False))) = Inl TypeError"
proof -
  have m: "isMounted listening_world" by (simp add: listening_world_def)
  obtain w' where s: "step listening_world (LogOut False) = Some w'" using m by simp
  from logout_failure_crash [OF m s] s show ?thesis by simp
qed

end
